(* ===== verification/Prelude.thy ===== *)
theory Prelude
  imports Complex_Main "HOL-Library.Char_ord" "HOL-Library.List_Lexorder" "HOL-Library.Sublist"
    "HOL-Library.Multiset"
begin

text \<open>
  Shared vocabulary of the development: the collections of rewrite rules the component theories
  extend, sequencing of fallible computations (a C++ function that may throw returns
  \<open>exception + value\<close>), the decimal text of integers that \<open>std::ostream\<close> prints, character-level
  string functions of the C and C++ standard library (\<open>std::string::find\<close>, \<open>std::replace\<close>,
  \<open>strtok\<close>), and list lemmas used by several components.
\<close>

named_theorems res_simps \<open>equations of the sequencing combinators\<close>
named_theorems str_simps \<open>equations of the string functions\<close>

section \<open>Fallible computations\<close>

text \<open>Sequencing: the first throw ends the computation.\<close>

definition bindE :: "'e + 'a \<Rightarrow> ('a \<Rightarrow> 'e + 'b) \<Rightarrow> 'e + 'b" where
  "bindE m f = (case m of Inl e \<Rightarrow> Inl e | Inr x \<Rightarrow> f x)"

lemma bindE_simps [simp, res_simps]:
  "bindE (Inl e) f = Inl e"
  "bindE (Inr x) f = f x"
  by (simp_all add: bindE_def)

lemma bindE_Inr_conv: "bindE m f = Inr y \<longleftrightarrow> (\<exists>x. m = Inr x \<and> f x = Inr y)"
  by (cases m) auto

lemma bindE_Inl_conv: "bindE m f = Inl e \<longleftrightarrow> m = Inl e \<or> (\<exists>x. m = Inr x \<and> f x = Inl e)"
  by (cases m) auto

text \<open>A loop over a list whose body may throw, without an accumulator.\<close>

fun forE :: "('a \<Rightarrow> 'e + unit) \<Rightarrow> 'a list \<Rightarrow> 'e + unit" where
  "forE f [] = Inr ()"
| "forE f (x # xs) = bindE (f x) (\<lambda>_. forE f xs)"

lemma forE_Inr_conv: "forE f xs = Inr () \<longleftrightarrow> (\<forall>x \<in> set xs. f x = Inr ())"
  by (induction xs) (auto simp: bindE_Inr_conv)

lemma forE_cong [fundef_cong]:
  "xs = ys \<Longrightarrow> (\<And>x. x \<in> set ys \<Longrightarrow> f x = g x) \<Longrightarrow> forE f xs = forE g ys"
  by (induction xs arbitrary: ys) (auto simp: bindE_def split: sum.splits)

section \<open>Decimal text\<close>

text \<open>What \<open>operator<<\<close> and \<open>std::to_string\<close> print for an integer.\<close>

definition digit_char :: "nat \<Rightarrow> char" where
  "digit_char d = char_of (48 + d)"

fun show_nat :: "nat \<Rightarrow> string" where
  "show_nat n = (if n < 10 then [digit_char n] else show_nat (n div 10) @ [digit_char (n mod 10)])"

declare show_nat.simps [simp del]

definition show_int :: "int \<Rightarrow> string" where
  "show_int i = (if i < 0 then CHR ''-'' # show_nat (nat (- i)) else show_nat (nat i))"

text \<open>The number a string of digits denotes, and the number of digits of a number.\<close>

definition digit_val :: "char \<Rightarrow> nat" where
  "digit_val c = of_char c - 48"

definition read_nat :: "string \<Rightarrow> nat" where
  "read_nat s = foldl (\<lambda>n c. 10 * n + digit_val c) 0 s"

lemma digit_val_char: "d < 10 \<Longrightarrow> digit_val (digit_char d) = d"
  by (simp add: digit_val_def digit_char_def of_char_of take_bit_eq_mod)

lemma read_nat_snoc: "read_nat (s @ [c]) = 10 * read_nat s + digit_val c"
  by (simp add: read_nat_def)

lemma read_show_nat: "read_nat (show_nat n) = n"
proof (induction n rule: show_nat.induct)
  case (1 n)
  show ?case
  proof (cases "n < 10")
    case True
    then show ?thesis
      by (subst show_nat.simps) (simp add: read_nat_def digit_val_char)
  next
    case False
    with 1 show ?thesis
      by (subst show_nat.simps) (simp add: read_nat_snoc digit_val_char)
  qed
qed

lemma show_nat_inject: "show_nat m = show_nat n \<longleftrightarrow> m = n"
  by (metis read_show_nat)

lemma show_nat_not_Nil [simp]: "show_nat n \<noteq> []"
  by (subst show_nat.simps) simp

lemma show_nat_bound: "n < 10 ^ length (show_nat n)"
proof (induction n rule: show_nat.induct)
  case (1 n)
  show ?case
  proof (cases "n < 10")
    case True
    then show ?thesis by (subst show_nat.simps) simp
  next
    case False
    with 1 have "n div 10 < 10 ^ length (show_nat (n div 10))" by simp
    then have "n < 10 * 10 ^ length (show_nat (n div 10))" by auto
    with False show ?thesis by (subst show_nat.simps) simp
  qed
qed

lemma show_nat_lower: "0 < n \<Longrightarrow> 10 ^ (length (show_nat n) - 1) \<le> n"
proof (induction n rule: show_nat.induct)
  case (1 n)
  show ?case
  proof (cases "n < 10")
    case True
    with 1 show ?thesis by (subst show_nat.simps) simp
  next
    case False
    then have pos: "0 < n div 10" by auto
    with 1 False have IH: "10 ^ (length (show_nat (n div 10)) - 1) \<le> n div 10" by simp
    obtain k where k: "length (show_nat (n div 10)) = Suc k"
      using show_nat_not_Nil by (metis list.size(3) nat.exhaust length_0_conv)
    with IH have "10 * 10 ^ k \<le> n" by auto
    with False k show ?thesis by (subst show_nat.simps) simp
  qed
qed

lemma show_nat_length_eq: "0 < n \<Longrightarrow> length (show_nat n) = Suc k \<longleftrightarrow> 10 ^ k \<le> n \<and> n < 10 ^ Suc k"
proof
  assume "0 < n" "length (show_nat n) = Suc k"
  then show "10 ^ k \<le> n \<and> n < 10 ^ Suc k"
    using show_nat_lower[of n] show_nat_bound[of n] by simp
next
  assume n: "0 < n" and b: "10 ^ k \<le> n \<and> n < 10 ^ Suc k"
  obtain l where l: "length (show_nat n) = Suc l"
    by (metis show_nat_not_Nil length_0_conv nat.exhaust)
  from n l have "10 ^ l \<le> n" "n < 10 ^ Suc l"
    using show_nat_lower[of n] show_nat_bound[of n] by auto
  with b have "(10::nat) ^ l < 10 ^ Suc k" "(10::nat) ^ k < 10 ^ Suc l"
    by (meson le_less_trans)+
  then have "l < Suc k" "k < Suc l"
    by (simp_all only: power_strict_increasing_iff)
  with l show "length (show_nat n) = Suc k" by simp
qed

section \<open>Strings\<close>

text \<open>\<open>std::string::find(s) != npos\<close>.\<close>

fun contains_sub :: "string \<Rightarrow> string \<Rightarrow> bool" where
  "contains_sub s p = (prefix p s \<or> (case s of [] \<Rightarrow> False | _ # t \<Rightarrow> contains_sub t p))"

declare contains_sub.simps [simp del]

lemma contains_sub_iff: "contains_sub s p \<longleftrightarrow> sublist p s"
proof (induction s p rule: contains_sub.induct)
  case (1 s p)
  then show ?case
    by (subst contains_sub.simps) (cases s; auto simp: sublist_Cons_right)
qed

lemma contains_sub_char: "contains_sub s [c] \<longleftrightarrow> c \<in> set s"
  by (auto simp: contains_sub_iff sublist_def in_set_conv_decomp)

text \<open>\<open>std::replace\<close> on the characters of a string.\<close>

definition replace_char :: "char \<Rightarrow> char \<Rightarrow> string \<Rightarrow> string" where
  "replace_char a b s = map (\<lambda>c. if c = a then b else c) s"

lemma replace_char_simps [simp, str_simps]:
  "replace_char a b [] = []"
  "replace_char a b (c # s) = (if c = a then b else c) # replace_char a b s"
  "replace_char a b (s @ t) = replace_char a b s @ replace_char a b t"
  by (simp_all add: replace_char_def)

lemma replace_char_id: "a \<notin> set s \<Longrightarrow> replace_char a b s = s"
  by (induction s) auto

lemma replace_char_back: "b \<notin> set s \<Longrightarrow> replace_char b a (replace_char a b s) = s"
  by (induction s) auto

lemma set_replace_char: "set (replace_char a b s) = (if a \<in> set s then insert b (set s - {a}) else set s)"
  by (induction s) auto

lemma replace_char_notin: "a \<noteq> b \<Longrightarrow> a \<notin> set (replace_char a b s)"
  by (induction s) auto

text \<open>
  \<open>strtok(str, delims)\<close>: skip leading delimiters, then cut at the next delimiter, which is
  overwritten. \<open>None\<close> is the null pointer, returned when nothing but delimiters is left.
\<close>

definition strtok :: "string \<Rightarrow> char list \<Rightarrow> (string \<times> string) option" where
  "strtok s delims =
     (let t = dropWhile (\<lambda>c. c \<in> set delims) s
      in if t = [] then None
         else Some (takeWhile (\<lambda>c. c \<notin> set delims) t, tl (dropWhile (\<lambda>c. c \<notin> set delims) t)))"

lemma strtok_shorter:
  assumes "strtok s d = Some (tok, rest)" shows "length rest < length s"
proof -
  let ?t = "dropWhile (\<lambda>c. c \<in> set d) s"
  from assms have t: "?t \<noteq> []" and rest: "rest = tl (dropWhile (\<lambda>c. c \<notin> set d) ?t)"
    by (auto simp: strtok_def Let_def split: if_splits)
  from t have "hd ?t \<notin> set d" using hd_dropWhile by blast
  with t have *: "dropWhile (\<lambda>c. c \<notin> set d) ?t = dropWhile (\<lambda>c. c \<notin> set d) (tl ?t)"
    by (cases ?t) auto
  have "length rest \<le> length (tl ?t)"
    unfolding rest * by (metis diff_le_self length_tl length_dropWhile_le order_trans)
  also from t have "length (tl ?t) < length ?t" by (cases ?t) auto
  also have "length ?t \<le> length s" by (rule length_dropWhile_le)
  finally show ?thesis .
qed

text \<open>
  The search functions below fix what left-to-right search over a string means. They are the
  reference the documented behaviour of the string library is stated with.
\<close>

function subst_all :: "string \<Rightarrow> string \<Rightarrow> string \<Rightarrow> string" where
  "subst_all p r s =
     (case s of [] \<Rightarrow> []
      | c # t \<Rightarrow> if p \<noteq> [] \<and> prefix p s then r @ subst_all p r (drop (length p) s)
                 else c # subst_all p r t)"
  by pat_completeness auto
termination
  by (relation "measure (\<lambda>(p, r, s). length s)") auto

declare subst_all.simps [simp del]

fun subst_first :: "string \<Rightarrow> string \<Rightarrow> string \<Rightarrow> string" where
  "subst_first p r s =
     (if p \<noteq> [] \<and> prefix p s then r @ drop (length p) s
      else case s of [] \<Rightarrow> [] | c # t \<Rightarrow> c # subst_first p r t)"

declare subst_first.simps [simp del]

definition erase_last_ref :: "string \<Rightarrow> string \<Rightarrow> string" where
  "erase_last_ref p s = rev (subst_first (rev p) [] (rev s))"

fun split_on :: "char \<Rightarrow> string \<Rightarrow> string list" where
  "split_on c [] = [[]]"
| "split_on c (x # xs) =
     (if x = c then [] # split_on c xs
      else (case split_on c xs of [] \<Rightarrow> [[x]] | w # ws \<Rightarrow> (x # w) # ws))"

definition trim_ref :: "string \<Rightarrow> string" where
  "trim_ref s = (let ws = (\<lambda>c. c \<in> {CHR '' '', CHR 0x09, CHR 0x0A, CHR 0x0B, CHR 0x0C, CHR 0x0D})
                 in rev (dropWhile ws (rev (dropWhile ws s))))"

lemma subst_all_Nil [simp]: "subst_all p r [] = []"
  by (subst subst_all.simps) simp

lemma subst_all_Cons:
  "subst_all p r (c # t) =
     (if p \<noteq> [] \<and> prefix p (c # t) then r @ subst_all p r (drop (length p) (c # t))
      else c # subst_all p r t)"
  by (subst subst_all.simps) simp

text \<open>Search passes over text that does not hold the first character of the pattern.\<close>

lemma subst_all_skip: "hd p \<notin> set a \<Longrightarrow> p \<noteq> [] \<Longrightarrow> subst_all p r (a @ s) = a @ subst_all p r s"
proof (induction a)
  case (Cons x a)
  then have "\<not> prefix p (x # a @ s)" by (cases p) auto
  with Cons show ?case by (simp add: subst_all_Cons)
qed simp

lemma subst_all_id: "hd p \<notin> set a \<Longrightarrow> p \<noteq> [] \<Longrightarrow> subst_all p r a = a"
  using subst_all_skip[of p a r "[]"] by simp

lemma subst_all_hit: "p \<noteq> [] \<Longrightarrow> subst_all p r (p @ s) = r @ subst_all p r s"
  by (cases p) (simp_all add: subst_all_Cons)

lemma subst_all_miss: "\<not> prefix p (c # s) \<Longrightarrow> subst_all p r (c # s) = c # subst_all p r s"
  by (simp add: subst_all_Cons)

lemma subst_first_hit: "p \<noteq> [] \<Longrightarrow> subst_first p r (p @ s) = r @ s"
  by (subst subst_first.simps) simp

lemma erase_last_snoc: "p \<noteq> [] \<Longrightarrow> erase_last_ref p (s @ p) = s"
  by (simp add: erase_last_ref_def subst_first_hit)

lemma erase_all_char: "subst_all [c] [] s = filter (\<lambda>x. x \<noteq> c) s"
  by (induction s) (auto simp: subst_all_Cons)

lemma split_on_not_Nil [simp]: "split_on c s \<noteq> []"
  by (induction s) (auto split: list.splits)

lemma split_on_append:
  "split_on c (a @ c # b) = split_on c a @ split_on c b"
  by (induction a) (auto split: list.splits)

lemma split_on_single: "c \<notin> set s \<Longrightarrow> split_on c s = [s]"
  by (induction s) auto

lemma split_on_pieces: "w \<in> set (split_on c s) \<Longrightarrow> c \<notin> set w \<and> set w \<subseteq> set s"
proof (induction s arbitrary: w)
  case (Cons x s)
  obtain v vs where vs: "split_on c s = v # vs"
    using split_on_not_Nil by (metis list.exhaust)
  from Cons.prems vs consider "w = []" | "w \<in> set (split_on c s)" | "x \<noteq> c" "w = x # v"
    by (auto split: if_splits)
  then show ?case
    using Cons.IH[of w] Cons.IH[of v] vs by cases auto
qed simp

text \<open>Joining with a separator, the inverse of splitting.\<close>

fun join_with :: "string \<Rightarrow> string list \<Rightarrow> string" where
  "join_with sep [] = []"
| "join_with sep [w] = w"
| "join_with sep (w # v # ws) = w @ sep @ join_with sep (v # ws)"

lemma join_split: "join_with [c] (split_on c s) = s"
proof (induction s)
  case (Cons x s)
  obtain v vs where vs: "split_on c s = v # vs"
    using split_on_not_Nil by (metis list.exhaust)
  with Cons show ?case by (cases vs) auto
qed simp

lemma join_with_Cons: "ws \<noteq> [] \<Longrightarrow> join_with sep (w # ws) = w @ sep @ join_with sep ws"
  by (cases ws) auto

lemma split_join: "ws \<noteq> [] \<Longrightarrow> (\<And>w. w \<in> set ws \<Longrightarrow> c \<notin> set w) \<Longrightarrow> split_on c (join_with [c] ws) = ws"
proof (induction ws)
  case (Cons w ws)
  show ?case
  proof (cases "ws = []")
    case True
    with Cons.prems show ?thesis by (simp add: split_on_single)
  next
    case False
    with Cons show ?thesis
      by (simp add: join_with_Cons split_on_append split_on_single)
  qed
qed simp

section \<open>Lists of lists\<close>

lemma concat_map_concat: "concat (map f (concat (map g xs))) = concat (map (\<lambda>x. concat (map f (g x))) xs)"
  by (induction xs) auto

section \<open>Association lists kept sorted by key\<close>

fun ins_sorted :: "'k::linorder \<Rightarrow> 'v \<Rightarrow> ('k \<times> 'v) list \<Rightarrow> ('k \<times> 'v) list" where
  "ins_sorted k v [] = [(k, v)]"
| "ins_sorted k v ((k', v') # kvs) =
     (if k < k' then (k, v) # (k', v') # kvs
      else if k = k' then (k, v) # kvs
      else (k', v') # ins_sorted k v kvs)"

definition del_key :: "'k \<Rightarrow> ('k \<times> 'v) list \<Rightarrow> ('k \<times> 'v) list" where
  "del_key k kvs = filter (\<lambda>kv. fst kv \<noteq> k) kvs"

definition sorted_keys :: "('k::linorder \<times> 'v) list \<Rightarrow> bool" where
  "sorted_keys kvs \<longleftrightarrow> sorted_wrt (<) (map fst kvs)"

lemma map_of_ins_sorted: "map_of (ins_sorted k v kvs) = (map_of kvs)(k \<mapsto> v)"
  by (induction k v kvs rule: ins_sorted.induct) auto

lemma keys_ins_sorted: "fst ` set (ins_sorted k v kvs) = insert k (fst ` set kvs)"
  by (induction k v kvs rule: ins_sorted.induct) auto

lemma sorted_keys_ins: "sorted_keys kvs \<Longrightarrow> sorted_keys (ins_sorted k v kvs)"
proof (induction k v kvs rule: ins_sorted.induct)
  case (2 k v k' v' kvs)
  then have "\<forall>x \<in> fst ` set (ins_sorted k v kvs). k' < x" if "k' < k"
    using that by (auto simp: sorted_keys_def keys_ins_sorted)
  with 2 show ?case
    by (auto simp: sorted_keys_def not_less order_less_le)
qed (simp add: sorted_keys_def)

lemma map_of_del_key: "map_of (del_key k kvs) = (map_of kvs)(k := None)"
  by (induction kvs) (auto simp: del_key_def)

lemma sorted_keys_del: "sorted_keys kvs \<Longrightarrow> sorted_keys (del_key k kvs)"
  by (induction kvs) (auto simp: sorted_keys_def del_key_def)

lemma sorted_keys_distinct: "sorted_keys kvs \<Longrightarrow> distinct (map fst kvs)"
  by (simp add: sorted_keys_def strict_sorted_iff)

end
