(* ===== verification/Json.thy ===== *)
theory Json
  imports Prelude
begin

text \<open>
  The values the program computes with: JSON values as RFC 8259 describes them, with the members
  of an object kept sorted by key (the documented policy of \<open>jsoncons::json\<close>), and the exceptions
  the program throws and catches (\<open>include/exception.hpp\<close> and the ones of its libraries it
  names in a \<open>catch\<close>). The accessors are the map and vector operations of that data; parsing,
  printing, conversion, querying and patching are code of the library and parameters of the
  model (theory \<open>Externals\<close>).
\<close>

named_theorems json_simps \<open>equations of the accessors of JSON values\<close>

section \<open>JSON values\<close>

text \<open>
  A \<open>float\<close> or \<open>double\<close>: a finite value (a rational; the two zeros are not told apart), an
  infinity or not-a-number, compared as IEEE 754 does.
\<close>

datatype fval = Fin rat | PInf | NInf | NaN

fun fless :: "fval \<Rightarrow> fval \<Rightarrow> bool" where
  "fless (Fin a) (Fin b) = (a < b)"
| "fless NaN _ = False"
| "fless _ NaN = False"
| "fless NInf NInf = False"
| "fless NInf _ = True"
| "fless PInf _ = False"
| "fless (Fin _) PInf = True"
| "fless (Fin _) NInf = False"

datatype json =
    JNull
  | JBool bool
  | JInt int
  | JReal fval
  | JStr string
  | JArr "json list"
  | JObj "(string \<times> json) list"

fun json_contains :: "json \<Rightarrow> string \<Rightarrow> bool" where
  "json_contains (JObj kvs) k = (map_of kvs k \<noteq> None)"
| "json_contains _ k = False"

fun json_lookup :: "json \<Rightarrow> string \<Rightarrow> json option" where
  "json_lookup (JObj kvs) k = map_of kvs k"
| "json_lookup _ k = None"

text \<open>
  \<open>insert_or_assign\<close> and assignment through \<open>[]\<close>, and \<open>erase\<close>. The program only reaches
  them with an object: one it has just built, or one it has found a member in.
\<close>

fun json_set :: "json \<Rightarrow> string \<Rightarrow> json \<Rightarrow> json" where
  "json_set (JObj kvs) k v = JObj (ins_sorted k v kvs)"
| "json_set j k v = j"

fun json_erase :: "json \<Rightarrow> string \<Rightarrow> json" where
  "json_erase (JObj kvs) k = JObj (del_key k kvs)"
| "json_erase j k = j"

fun json_size :: "json \<Rightarrow> nat" where
  "json_size (JObj kvs) = length kvs"
| "json_size (JArr xs) = length xs"
| "json_size _ = 0"

fun json_empty :: "json \<Rightarrow> bool" where
  "json_empty (JObj kvs) = (kvs = [])"
| "json_empty (JArr xs) = (xs = [])"
| "json_empty (JStr s) = (s = [])"
| "json_empty _ = False"

fun is_object :: "json \<Rightarrow> bool" where
  "is_object (JObj _) = True"
| "is_object _ = False"

text \<open>A default-constructed \<open>jsoncons::json\<close> is an empty object.\<close>

abbreviation json_new :: json where
  "json_new \<equiv> JObj []"

text \<open>A sequence of assignments to the members of a new object.\<close>

definition json_build :: "(string \<times> json) list \<Rightarrow> json" where
  "json_build kvs = foldl (\<lambda>j (k, v). json_set j k v) json_new kvs"

lemma json_contains_lookup: "json_contains j k \<longleftrightarrow> json_lookup j k \<noteq> None"
  by (cases j) auto

lemma is_object_set [simp, json_simps]: "is_object (json_set j k v) = is_object j"
  by (cases j) auto

lemma json_lookup_set [json_simps]:
  "is_object j \<Longrightarrow> json_lookup (json_set j k v) k' = (if k' = k then Some v else json_lookup j k')"
  by (cases j) (auto simp: map_of_ins_sorted)

lemma json_lookup_erase [json_simps]:
  "json_lookup (json_erase j k) k' = (if k' = k then None else json_lookup j k')"
  by (cases j) (auto simp: map_of_del_key)

lemma is_object_erase [simp, json_simps]: "is_object (json_erase j k) = is_object j"
  by (cases j) auto

lemma lookup_is_object: "json_lookup j k = Some v \<Longrightarrow> is_object j"
  by (cases j) auto

lemma json_build_lookup:
  "json_lookup (json_build kvs) k = map_of (rev kvs) k" and json_build_object: "is_object (json_build kvs)"
proof -
  have *: "is_object (foldl (\<lambda>j (k, v). json_set j k v) j kvs)
      \<and> json_lookup (foldl (\<lambda>j (k, v). json_set j k v) j kvs) k
        = (case map_of (rev kvs) k of None \<Rightarrow> json_lookup j k | Some v \<Rightarrow> Some v)"
    if "is_object j" for j
    using that
  proof (induction kvs rule: rev_induct)
    case (snoc kv kvs)
    then show ?case by (cases kv) (auto simp: json_lookup_set)
  qed simp
  show "json_lookup (json_build kvs) k = map_of (rev kvs) k"
    using *[of json_new] by (simp add: json_build_def split: option.split)
  show "is_object (json_build kvs)"
    using *[of json_new] by (simp add: json_build_def)
qed

declare json_build_object [simp]

lemma json_build_lookup_None [simp]:
  "json_lookup (json_build kvs) k = None \<longleftrightarrow> k \<notin> fst ` set kvs"
  by (simp add: json_build_lookup map_of_eq_None_iff)

section \<open>Exceptions\<close>

text \<open>
  The six classes of \<open>include/exception.hpp\<close> with the argument of their constructor; the
  exceptions of the libraries that a \<open>catch\<close> of the program names (\<open>jsoncons::ser_error\<close>,
  \<open>key_not_found\<close>, \<open>not_an_object\<close>, \<open>jsonschema::schema_error\<close>,
  \<open>jsonpath::jsonpath_error\<close>); an index outside an array; any other \<open>std::exception\<close> with its
  text; something thrown that is not a \<open>std::exception\<close>; and \<open>Undefined\<close>, behaviour the C++
  standard leaves undefined.
\<close>

datatype exn =
    NoPathFoundOnTree string
  | GenException string
  | NoPermission string
  | OutOfBound string
  | NotValid string
  | NotSet string
  | SerError string
  | KeyNotFound string
  | NotAnObject
  | SchemaError string
  | JsonpathError string
  | BadIndex
  | StdException string
  | ForeignThrow
  | Undefined

text \<open>What \<open>catch (std::exception \&e)\<close> catches: every exception class above.\<close>

fun is_std_exception :: "exn \<Rightarrow> bool" where
  "is_std_exception ForeignThrow = False"
| "is_std_exception Undefined = False"
| "is_std_exception _ = True"

text \<open>Reading a member, and an element, where the code reads without asking first.\<close>

fun json_at :: "json \<Rightarrow> string \<Rightarrow> exn + json" where
  "json_at (JObj kvs) k = (case map_of kvs k of None \<Rightarrow> Inl (KeyNotFound k) | Some v \<Rightarrow> Inr v)"
| "json_at _ k = Inl NotAnObject"

definition elem_at :: "'a list \<Rightarrow> nat \<Rightarrow> exn + 'a" where
  "elem_at xs i = (if i < length xs then Inr (xs ! i) else Inl BadIndex)"

lemma json_at_lookup: "json_lookup j k = Some v \<Longrightarrow> json_at j k = Inr v"
  by (cases j) auto

lemma json_at_Inr: "json_at j k = Inr v \<longleftrightarrow> json_lookup j k = Some v"
  by (cases j) (auto split: option.splits)

lemma elem_at_0 [simp]: "elem_at (x # xs) 0 = Inr x"
  by (simp add: elem_at_def)

lemma elem_at_Nil [simp]: "elem_at [] i = Inl BadIndex"
  by (simp add: elem_at_def)

end
