(* ===== verification/Externals.thy ===== *)
theory Externals
  imports Json "HOL-Library.Word"
begin

text \<open>
  The code that is not in the repository. \<open>boost::algorithm\<close>, \<open>jsoncons\<close> (a git submodule) with
  its \<open>jsonpath\<close>, \<open>jsonpatch\<close> and \<open>jsonschema\<close> extensions, \<open>jwt-cpp\<close> (a git submodule), the
  UUID generator and text format of \<open>boost::uuids\<close> and the regular-expression engine behind
  \<open>std::regex\<close> are the fields of the record \<open>lib\<close>, an argument of every definition that uses
  them. What the program relies on is stated by the predicates \<open>\<dots>_doc\<close>, each the documented
  behaviour of one of these libraries on the inputs the program passes; the properties name the
  ones they need as hypotheses. \<open>ref_lib\<close> is one concrete instance satisfying all of them: it
  shows the hypotheses can hold and is what the witnesses compute with.
\<close>

named_theorems doc_simps \<open>what the documented behaviour of the libraries gives as rewrite rules\<close>

section \<open>Numeric types\<close>

text \<open>The C++ arithmetic types a VSS datatype maps to, and a value of one of them.\<close>

datatype numtype = U8 | I8 | U16 | I16 | U32 | I32 | U64 | I64 | F32 | F64

datatype numval = IVal int | FVal fval

fun is_int_type :: "numtype \<Rightarrow> bool" where
  "is_int_type F32 = False"
| "is_int_type F64 = False"
| "is_int_type _ = True"

fun num_bits :: "numtype \<Rightarrow> nat" where
  "num_bits U8 = 8" | "num_bits I8 = 8"
| "num_bits U16 = 16" | "num_bits I16 = 16"
| "num_bits U32 = 32" | "num_bits I32 = 32"
| "num_bits U64 = 64" | "num_bits I64 = 64"
| "num_bits F32 = 32" | "num_bits F64 = 64"

fun is_signed :: "numtype \<Rightarrow> bool" where
  "is_signed U8 = False" | "is_signed U16 = False" | "is_signed U32 = False" | "is_signed U64 = False"
| "is_signed _ = True"

definition num_min :: "numtype \<Rightarrow> int" where
  "num_min t = (if is_signed t then - (2 ^ (num_bits t - 1)) else 0)"

definition num_max :: "numtype \<Rightarrow> int" where
  "num_max t = (if is_signed t then 2 ^ (num_bits t - 1) - 1 else 2 ^ num_bits t - 1)"

fun num_typed :: "numtype \<Rightarrow> numval \<Rightarrow> bool" where
  "num_typed t (IVal i) = (is_int_type t \<and> num_min t \<le> i \<and> i \<le> num_max t)"
| "num_typed t (FVal f) = (\<not> is_int_type t)"

fun num_less :: "numval \<Rightarrow> numval \<Rightarrow> bool" where
  "num_less (IVal a) (IVal b) = (a < b)"
| "num_less (FVal a) (FVal b) = fless a b"
| "num_less _ _ = False"

fun json_of_num :: "numval \<Rightarrow> json" where
  "json_of_num (IVal i) = JInt i"
| "json_of_num (FVal f) = JReal f"

section \<open>The libraries\<close>

type_synonym uuid = "128 word"

record lib =
  b_split :: "string \<Rightarrow> char \<Rightarrow> string list"
    \<comment> \<open>\<open>boost::split(out, s, is_any_of(c))\<close>\<close>
  b_erase_all :: "string \<Rightarrow> string \<Rightarrow> string"
  b_replace_all :: "string \<Rightarrow> string \<Rightarrow> string \<Rightarrow> string"
  b_erase_first :: "string \<Rightarrow> string \<Rightarrow> string"
  b_erase_last :: "string \<Rightarrow> string \<Rightarrow> string"
  b_trim :: "string \<Rightarrow> string"
  b_diagnostic :: string
    \<comment> \<open>\<open>boost::current_exception_diagnostic_information()\<close> for a foreign exception\<close>
  re_match :: "string \<Rightarrow> string \<Rightarrow> exn + bool"
    \<comment> \<open>construct \<open>std::regex\<close> from the first argument, \<open>regex_match\<close> the second\<close>
  j_parse :: "string \<Rightarrow> exn + json"
  j_dump :: "json \<Rightarrow> string"
    \<comment> \<open>the JSON text of a value, as \<open>operator<<\<close> and \<open>dump\<close> write it\<close>
  j_pretty :: "json \<Rightarrow> string"
    \<comment> \<open>the indented JSON text of \<open>dump_pretty\<close> and \<open>pretty_print\<close>\<close>
  j_num :: "numtype \<Rightarrow> json \<Rightarrow> exn + numval"
    \<comment> \<open>\<open>as<T>()\<close> at an arithmetic type\<close>
  j_bool :: "json \<Rightarrow> exn + bool"
    \<comment> \<open>\<open>as<bool>()\<close>\<close>
  j_members :: "json \<Rightarrow> exn + (string \<times> json) list"
    \<comment> \<open>\<open>object_range()\<close>\<close>
  j_not_array :: "json \<Rightarrow> exn option"
    \<comment> \<open>what \<open>array_range()\<close> throws on a value that is not an array; \<open>None\<close>: an empty range\<close>
  j_query :: "json \<Rightarrow> string \<Rightarrow> exn + json list"
    \<comment> \<open>\<open>jsonpath::json_query(root, path)\<close>: the array of the values found\<close>
  j_query_paths :: "json \<Rightarrow> string \<Rightarrow> exn + string list"
    \<comment> \<open>the same with \<open>result_type::path\<close>: their normalised paths\<close>
  j_replace :: "json \<Rightarrow> string \<Rightarrow> json \<Rightarrow> exn + json"
    \<comment> \<open>\<open>jsonpath::json_replace(root, path, value)\<close>: the new root\<close>
  j_merge_update :: "json \<Rightarrow> json \<Rightarrow> exn + json"
    \<comment> \<open>\<open>merge_or_update\<close>\<close>
  j_from_diff :: "json \<Rightarrow> json \<Rightarrow> json"
    \<comment> \<open>\<open>jsonpatch::from_diff(source, target)\<close>: a JSON patch\<close>
  j_apply_patch :: "json \<Rightarrow> json \<Rightarrow> json \<times> string option"
    \<comment> \<open>\<open>jsonpatch::apply_patch(target, patch, ec)\<close>: the new target, the message of \<open>ec\<close> if set\<close>
  j_validate :: "(string \<Rightarrow> exn + json) \<Rightarrow> json \<Rightarrow> json \<Rightarrow> exn + (string \<times> string) list"
    \<comment> \<open>the (location, message) pairs a JSON-schema validator reports for an instance; the first
      argument is the resolver for the documents a schema refers to, by the path of their URI\<close>
  j_key_msg :: "string \<Rightarrow> string"
    \<comment> \<open>the texts of \<open>key_not_found\<close>, \<open>not_an_object\<close> and a bad array index\<close>
  j_object_msg :: string
  j_index_msg :: string
  show_real :: "numtype \<Rightarrow> fval \<Rightarrow> string"
    \<comment> \<open>what \<open>operator<<\<close> prints for a \<open>float\<close> or \<open>double\<close>\<close>
  jwt_decode :: "string \<Rightarrow> exn + (string \<times> json) list"
    \<comment> \<open>the payload claims of a token\<close>
  jwt_verify :: "string \<Rightarrow> string \<Rightarrow> exn + unit"
    \<comment> \<open>verify a token (second argument) against an RS256 public key (first)\<close>
  jwt_claim_str :: "json \<Rightarrow> string"
    \<comment> \<open>\<open>to_json().to_str()\<close> of a claim\<close>
  jwt_claim_json :: "json \<Rightarrow> string"
    \<comment> \<open>what \<open>operator<<\<close> writes for \<open>to_json()\<close> of a claim\<close>
  uuid_parse :: "string \<Rightarrow> exn + uuid"
  uuid_show :: "uuid \<Rightarrow> string"

text \<open>\<open>as<string>()\<close> and \<open>as_string()\<close>: a string is itself, anything else its JSON text.\<close>

fun as_string :: "'a lib_scheme \<Rightarrow> json \<Rightarrow> string" where
  "as_string L (JStr s) = s"
| "as_string L j = j_dump L j"

text \<open>\<open>e.what()\<close>, with the texts of \<open>include/exception.hpp\<close>.\<close>

fun what :: "'a lib_scheme \<Rightarrow> exn \<Rightarrow> string" where
  "what L (NoPathFoundOnTree p) = ''Path '' @ p @ '' not found on the VSS Tree''"
| "what L (GenException m) = m"
| "what L (NoPermission m) = m"
| "what L (OutOfBound m) = m"
| "what L (NotValid m) = m"
| "what L (NotSet m) = m"
| "what L (SerError m) = m"
| "what L (KeyNotFound k) = j_key_msg L k"
| "what L NotAnObject = j_object_msg L"
| "what L (SchemaError m) = m"
| "what L (JsonpathError m) = m"
| "what L BadIndex = j_index_msg L"
| "what L (StdException m) = m"
| "what L ForeignThrow = b_diagnostic L"
| "what L Undefined = []"

section \<open>String algorithms\<close>

definition boost_doc :: "'a lib_scheme \<Rightarrow> bool" where
  "boost_doc L \<longleftrightarrow>
     (\<forall>s c. b_split L s c = split_on c s)
   \<and> (\<forall>s p. b_erase_all L s p = subst_all p [] s)
   \<and> (\<forall>s p r. b_replace_all L s p r = subst_all p r s)
   \<and> (\<forall>s p. b_erase_first L s p = subst_first p [] s)
   \<and> (\<forall>s p. b_erase_last L s p = erase_last_ref p s)
   \<and> (\<forall>s. b_trim L s = trim_ref s)"

lemma boost_docD [doc_simps]:
  assumes "boost_doc L"
  shows "b_split L s c = split_on c s" "b_erase_all L s p = subst_all p [] s"
    "b_replace_all L s p r = subst_all p r s" "b_erase_first L s p = subst_first p [] s"
    "b_erase_last L s p = erase_last_ref p s" "b_trim L s = trim_ref s"
  using assms by (simp_all add: boost_doc_def)

section \<open>Regular expressions\<close>

text \<open>
  The fragment of the ECMAScript grammar the program's patterns lie in: literal characters, the
  dot, and the dot repeated. \<open>rx_items\<close> is \<open>None\<close> outside it.
\<close>

datatype rx_item = Lit char | AnyChar | AnyStar

definition rx_special :: "char set" where
  "rx_special = set ''^$.*+?()[]{}|'' \<union> {CHR 0x5C}"

fun rx_items :: "string \<Rightarrow> rx_item list option" where
  "rx_items [] = Some []"
| "rx_items (c # p) =
     (if c = CHR ''.'' then
        (case p of [] \<Rightarrow> Some [AnyChar]
         | d # q \<Rightarrow> if d = CHR ''*'' then map_option ((#) AnyStar) (rx_items q)
                    else map_option ((#) AnyChar) (rx_items p))
      else if c \<in> rx_special then None
      else map_option ((#) (Lit c)) (rx_items p))"

definition line_end :: "char \<Rightarrow> bool" where
  "line_end c \<longleftrightarrow> c = CHR 0x0A \<or> c = CHR 0x0D"

fun rx_match :: "rx_item list \<Rightarrow> string \<Rightarrow> bool" where
  "rx_match [] s = (s = [])"
| "rx_match (Lit c # r) s = (case s of [] \<Rightarrow> False | d # t \<Rightarrow> d = c \<and> rx_match r t)"
| "rx_match (AnyChar # r) s = (case s of [] \<Rightarrow> False | d # t \<Rightarrow> \<not> line_end d \<and> rx_match r t)"
| "rx_match (AnyStar # r) s =
     (rx_match r s \<or> (case s of [] \<Rightarrow> False | d # t \<Rightarrow> \<not> line_end d \<and> rx_match (AnyStar # r) t))"

definition regex_doc :: "'a lib_scheme \<Rightarrow> bool" where
  "regex_doc L \<longleftrightarrow> (\<forall>p s items. rx_items p = Some items \<longrightarrow> re_match L p s = Inr (rx_match items s))"

lemma regex_docD: "regex_doc L \<Longrightarrow> rx_items p = Some items \<Longrightarrow> re_match L p s = Inr (rx_match items s)"
  by (simp add: regex_doc_def)

section \<open>JSONPath\<close>

text \<open>
  The paths the program builds: \<open>$\<close> followed by bracketed child names, wildcards and, in the
  normalised paths a query returns, array indices.
\<close>

datatype seg = Name string | Idx nat | Wild

fun render_seg :: "seg \<Rightarrow> string" where
  "render_seg (Name k) = CHR ''['' # CHR 0x27 # k @ [CHR 0x27, CHR '']'']"
| "render_seg (Idx i) = CHR ''['' # show_nat i @ '']''"
| "render_seg Wild = ''[*]''"

definition render_path :: "seg list \<Rightarrow> string" where
  "render_path ss = CHR ''$'' # concat (map render_seg ss)"

definition plain_name :: "string \<Rightarrow> bool" where
  "plain_name k \<longleftrightarrow> k \<noteq> [] \<and> (\<forall>c \<in> set k. c \<noteq> CHR 0x27 \<and> c \<noteq> CHR 0x5C \<and> of_char c \<ge> (32::nat))"

fun plain_seg :: "seg \<Rightarrow> bool" where
  "plain_seg (Name k) = plain_name k"
| "plain_seg _ = True"

abbreviation plain_path :: "seg list \<Rightarrow> bool" where
  "plain_path ss \<equiv> list_all plain_seg ss"

text \<open>The nodes a path selects, each with its own path, in document order.\<close>

fun child_nodes :: "seg \<Rightarrow> json \<Rightarrow> (seg \<times> json) list" where
  "child_nodes (Name k) (JObj kvs) = (case map_of kvs k of None \<Rightarrow> [] | Some v \<Rightarrow> [(Name k, v)])"
| "child_nodes Wild (JObj kvs) = map (\<lambda>(k, v). (Name k, v)) kvs"
| "child_nodes Wild (JArr xs) = map (\<lambda>(i, v). (Idx i, v)) (enumerate 0 xs)"
| "child_nodes (Idx i) (JArr xs) = (if i < length xs then [(Idx i, xs ! i)] else [])"
| "child_nodes _ _ = []"

fun path_nodes :: "seg list \<Rightarrow> json \<Rightarrow> (seg list \<times> json) list" where
  "path_nodes [] j = [([], j)]"
| "path_nodes (s # ss) j =
     concat (map (\<lambda>(s', c). map (\<lambda>(p, v). (s' # p, v)) (path_nodes ss c)) (child_nodes s j))"

fun path_replace :: "seg list \<Rightarrow> json \<Rightarrow> json \<Rightarrow> json" where
  "path_replace [] v j = v"
| "path_replace (Name k # ss) v (JObj kvs) =
     JObj (map (\<lambda>(k', c). (k', if k' = k then path_replace ss v c else c)) kvs)"
| "path_replace (Wild # ss) v (JObj kvs) = JObj (map (\<lambda>(k', c). (k', path_replace ss v c)) kvs)"
| "path_replace (Wild # ss) v (JArr xs) = JArr (map (path_replace ss v) xs)"
| "path_replace (Idx i # ss) v (JArr xs) =
     JArr (if i < length xs then xs[i := path_replace ss v (xs ! i)] else xs)"
| "path_replace _ v j = j"

definition jsonpath_doc :: "'a lib_scheme \<Rightarrow> bool" where
  "jsonpath_doc L \<longleftrightarrow> (\<forall>t ss. plain_path ss \<longrightarrow>
     j_query L t (render_path ss) = Inr (map snd (path_nodes ss t))
   \<and> (list_all (plain_path \<circ> fst) (path_nodes ss t) \<longrightarrow>
        j_query_paths L t (render_path ss) = Inr (map (render_path \<circ> fst) (path_nodes ss t)))
   \<and> (\<forall>v. j_replace L t (render_path ss) v = Inr (path_replace ss v t)))"

lemma jsonpath_query: "jsonpath_doc L \<Longrightarrow> plain_path ss \<Longrightarrow>
    j_query L t (render_path ss) = Inr (map snd (path_nodes ss t))"
  and jsonpath_replace: "jsonpath_doc L \<Longrightarrow> plain_path ss \<Longrightarrow>
    j_replace L t (render_path ss) v = Inr (path_replace ss v t)"
  and jsonpath_paths: "jsonpath_doc L \<Longrightarrow> plain_path ss \<Longrightarrow>
    list_all (plain_path \<circ> fst) (path_nodes ss t) \<Longrightarrow>
    j_query_paths L t (render_path ss) = Inr (map (render_path \<circ> fst) (path_nodes ss t))"
  by (auto simp: jsonpath_doc_def)

text \<open>The dotted form of a path of names, which the program also builds.\<close>

definition ident :: "string \<Rightarrow> bool" where
  "ident k \<longleftrightarrow> k \<noteq> [] \<and> hd k \<notin> set ''0123456789'' \<and>
     set k \<subseteq> set ''abcdefghijklmnopqrstuvwxyzABCDEFGHIJKLMNOPQRSTUVWXYZ0123456789_''"

definition render_dots :: "string list \<Rightarrow> string" where
  "render_dots ks = CHR ''$'' # concat (map (\<lambda>k. CHR ''.'' # k) ks)"

definition dotpath_doc :: "'a lib_scheme \<Rightarrow> bool" where
  "dotpath_doc L \<longleftrightarrow> (\<forall>t ks. ks \<noteq> [] \<longrightarrow> list_all ident ks \<longrightarrow>
     j_query L t (render_dots ks) = Inr (map snd (path_nodes (map Name ks) t)))"

lemma dotpath_query: "dotpath_doc L \<Longrightarrow> ks \<noteq> [] \<Longrightarrow> list_all ident ks \<Longrightarrow>
    j_query L t (render_dots ks) = Inr (map snd (path_nodes (map Name ks) t))"
  by (simp add: dotpath_doc_def)

section \<open>Conversions\<close>

text \<open>
  \<open>as<T>()\<close> returns a value of type \<open>T\<close>. At an integer type, an integer of its range converts to itself, and so
  does its decimal text; the decimal text of another integer is reported as an exception, which is what the
  tests of \<open>src/VSSTypeSanitizer.cpp\<close> rely on. What becomes of a JSON integer outside the range is left open.
\<close>

definition num_doc :: "'a lib_scheme \<Rightarrow> bool" where
  "num_doc L \<longleftrightarrow>
     (\<forall>t j v. j_num L t j = Inr v \<longrightarrow> num_typed t v)
   \<and> (\<forall>t i. is_int_type t \<longrightarrow> num_typed t (IVal i) \<longrightarrow> j_num L t (JInt i) = Inr (IVal i))
   \<and> (\<forall>t i. is_int_type t \<longrightarrow>
        (if num_typed t (IVal i) then j_num L t (JStr (show_int i)) = Inr (IVal i)
         else \<exists>e. j_num L t (JStr (show_int i)) = Inl e \<and> is_std_exception e))"

lemma num_doc_typed: "num_doc L \<Longrightarrow> j_num L t j = Inr v \<Longrightarrow> num_typed t v"
  by (auto simp: num_doc_def)

lemma num_doc_int: "num_doc L \<Longrightarrow> num_typed t (IVal i) \<Longrightarrow> j_num L t (JInt i) = Inr (IVal i)"
  by (cases "is_int_type t") (simp_all add: num_doc_def)

lemma num_doc_text:
  assumes "num_doc L" "is_int_type t"
  shows "num_typed t (IVal i) \<Longrightarrow> j_num L t (JStr (show_int i)) = Inr (IVal i)"
    "\<not> num_typed t (IVal i) \<Longrightarrow> \<exists>e. j_num L t (JStr (show_int i)) = Inl e \<and> is_std_exception e"
  using assms unfolding num_doc_def by metis+

text \<open>JSON text of the literals, \<open>object_range\<close> of an object, parsing what was printed.\<close>

definition json_doc :: "'a lib_scheme \<Rightarrow> bool" where
  "json_doc L \<longleftrightarrow>
     j_dump L (JBool True) = ''true'' \<and> j_dump L (JBool False) = ''false'' \<and> j_dump L JNull = ''null''
   \<and> (\<forall>i. j_dump L (JInt i) = show_int i)
   \<and> (\<forall>kvs. j_members L (JObj kvs) = Inr kvs)
   \<and> j_parse L ''{}'' = Inr json_new
   \<and> (\<forall>kvs. sorted_keys kvs \<longrightarrow> (\<forall>kv \<in> set kvs. \<exists>s. snd kv = JStr s) \<longrightarrow>
        j_pretty L (JObj kvs) \<noteq> [] \<and> j_parse L (j_pretty L (JObj kvs)) = Inr (JObj kvs))"

lemma json_docD [doc_simps]:
  assumes "json_doc L"
  shows "j_dump L (JBool True) = ''true''" "j_dump L (JBool False) = ''false''"
    "j_dump L JNull = ''null''" "j_dump L (JInt i) = show_int i"
    "j_members L (JObj kvs) = Inr kvs" "j_parse L ''{}'' = Inr json_new"
  using assms by (simp_all add: json_doc_def)

lemma json_doc_pretty:
  assumes "json_doc L" "sorted_keys kvs" "\<And>k v. (k, v) \<in> set kvs \<Longrightarrow> \<exists>s. v = JStr s"
  shows "j_pretty L (JObj kvs) \<noteq> []" "j_parse L (j_pretty L (JObj kvs)) = Inr (JObj kvs)"
  using assms unfolding json_doc_def by force+

section \<open>JSON schemas\<close>

text \<open>
  The part of JSON schema (draft 4) the program's schemas are written in: \<open>type\<close>, \<open>enum\<close>,
  \<open>required\<close>, \<open>properties\<close>, and a \<open>$ref\<close> from a property to a definition of the document \<open>viss\<close>.
\<close>

definition type_named :: "string \<Rightarrow> json \<Rightarrow> bool" where
  "type_named ty j = (case j of
     JNull \<Rightarrow> ty = ''null'' | JBool _ \<Rightarrow> ty = ''boolean'' | JInt _ \<Rightarrow> ty = ''integer'' \<or> ty = ''number''
   | JReal _ \<Rightarrow> ty = ''number'' | JStr _ \<Rightarrow> ty = ''string'' | JArr _ \<Rightarrow> ty = ''array'' | JObj _ \<Rightarrow> ty = ''object'')"

definition type_ok :: "json \<Rightarrow> json \<Rightarrow> bool" where
  "type_ok schema j = (case json_lookup schema ''type'' of
     Some (JStr ty) \<Rightarrow> type_named ty j
   | Some (JArr tys) \<Rightarrow> (\<exists>ty \<in> set tys. case ty of JStr s \<Rightarrow> type_named s j | _ \<Rightarrow> False)
   | _ \<Rightarrow> True)"

definition enum_ok :: "json \<Rightarrow> json \<Rightarrow> bool" where
  "enum_ok schema j = (case json_lookup schema ''enum'' of Some (JArr vs) \<Rightarrow> j \<in> set vs | _ \<Rightarrow> True)"

definition required_ok :: "json \<Rightarrow> json \<Rightarrow> bool" where
  "required_ok schema j = (case json_lookup schema ''required'' of
     Some (JArr ks) \<Rightarrow> (\<forall>k \<in> set ks. case k of JStr s \<Rightarrow> is_object j \<longrightarrow> json_contains j s | _ \<Rightarrow> True)
   | _ \<Rightarrow> True)"

text \<open>A schema without references, to the depth the definitions of the program need.\<close>

fun flat_ok :: "nat \<Rightarrow> json \<Rightarrow> json \<Rightarrow> bool" where
  "flat_ok 0 schema j = True"
| "flat_ok (Suc n) schema j =
     (type_ok schema j \<and> enum_ok schema j \<and> required_ok schema j
      \<and> (case json_lookup schema ''properties'' of
           Some (JObj ps) \<Rightarrow> list_all (\<lambda>(k, s). case json_lookup j k of None \<Rightarrow> True | Some v \<Rightarrow> flat_ok n s v) ps
         | _ \<Rightarrow> True))"

definition schema_depth :: nat where
  "schema_depth = 4"

definition viss_ref :: string where
  "viss_ref = ''viss#/definitions/''"

definition resolve_ref :: "(string \<Rightarrow> exn + json) \<Rightarrow> json \<Rightarrow> json" where
  "resolve_ref resolver schema =
     (case json_lookup schema ''$ref'' of
        Some (JStr r) \<Rightarrow>
          if prefix viss_ref r then
            (case resolver ''/viss'' of
               Inl e \<Rightarrow> json_new
             | Inr doc \<Rightarrow> (case json_lookup doc ''definitions'' of None \<Rightarrow> json_new
                 | Some defs \<Rightarrow> (case json_lookup defs (drop (length viss_ref) r) of None \<Rightarrow> json_new | Some d \<Rightarrow> d)))
          else json_new
      | _ \<Rightarrow> schema)"

definition conforms :: "(string \<Rightarrow> exn + json) \<Rightarrow> json \<Rightarrow> json \<Rightarrow> bool" where
  "conforms resolver schema j \<longleftrightarrow>
     type_ok schema j \<and> enum_ok schema j \<and> required_ok schema j
   \<and> (case json_lookup schema ''properties'' of
        Some (JObj ps) \<Rightarrow> list_all (\<lambda>(k, s). case json_lookup j k of None \<Rightarrow> True
           | Some v \<Rightarrow> flat_ok schema_depth (resolve_ref resolver s) v) ps
      | _ \<Rightarrow> True)"

text \<open>The keywords of the fragment, at every level.\<close>

fun fragment_schema :: "nat \<Rightarrow> json \<Rightarrow> bool" where
  "fragment_schema 0 schema = False"
| "fragment_schema (Suc n) (JObj kvs) =
     (list_all (\<lambda>(k, v). k \<in> {''$schema'', ''title'', ''description'', ''type'', ''enum'', ''required'', ''$ref''}
        \<or> (k = ''properties'' \<and> (case v of JObj ps \<Rightarrow> list_all (\<lambda>(_, s). fragment_schema n s) ps | _ \<Rightarrow> False))) kvs)"
| "fragment_schema (Suc n) _ = False"

definition fragment_document :: "(string \<Rightarrow> exn + json) \<Rightarrow> bool" where
  "fragment_document resolver \<longleftrightarrow>
     (case resolver ''/viss'' of Inl e \<Rightarrow> False
      | Inr doc \<Rightarrow> (case json_lookup doc ''definitions'' of
           Some (JObj defs) \<Rightarrow> list_all (\<lambda>(_, d). fragment_schema schema_depth d) defs | _ \<Rightarrow> False))"

definition schema_doc :: "'a lib_scheme \<Rightarrow> bool" where
  "schema_doc L \<longleftrightarrow> (\<forall>resolver schema j. fragment_schema schema_depth schema \<longrightarrow> fragment_document resolver \<longrightarrow>
     (\<exists>reports. j_validate L resolver schema j = Inr reports \<and> (reports = [] \<longleftrightarrow> conforms resolver schema j)))"

text \<open>The JSON text of a claim of a token parses to the claim.\<close>

definition jwt_doc :: "'a lib_scheme \<Rightarrow> bool" where
  "jwt_doc L \<longleftrightarrow> (\<forall>t cs k v. jwt_decode L t = Inr cs \<longrightarrow> (k, v) \<in> set cs \<longrightarrow> j_parse L (jwt_claim_json L v) = Inr v)"

definition uuid_doc :: "'a lib_scheme \<Rightarrow> bool" where
  "uuid_doc L \<longleftrightarrow> (\<forall>u. uuid_parse L (uuid_show L u) = Inr u)"

lemma uuid_docD: "uuid_doc L \<Longrightarrow> uuid_parse L (uuid_show L u) = Inr u"
  by (simp add: uuid_doc_def)

end
