(* ===== verification/Reference.thy ===== *)
theory Reference
  imports Externals
begin

text \<open>
  One concrete library \<open>ref_lib\<close> that behaves as documented: small executable versions of the
  functions of \<open>Externals\<close>. It shows that the hypotheses \<open>\<dots>_doc\<close> of the properties hold
  together, and the witnesses compute with it. It is not a model of the libraries' code.
\<close>

section \<open>JSONPath text\<close>

function parse_segs :: "string \<Rightarrow> seg list option" where
  "parse_segs s =
     (case s of [] \<Rightarrow> Some []
      | c # s1 \<Rightarrow>
         if c \<noteq> CHR ''['' then None
         else (case s1 of [] \<Rightarrow> None
           | d # s2 \<Rightarrow>
             if d = CHR 0x27 then
               (let k = takeWhile (\<lambda>c. c \<noteq> CHR 0x27) s2; r = dropWhile (\<lambda>c. c \<noteq> CHR 0x27) s2
                in if take 2 r = [CHR 0x27, CHR '']''] \<and> plain_name k then map_option ((#) (Name k)) (parse_segs (drop 2 r)) else None)
             else if d = CHR ''*'' then
               (if take 1 s2 = '']'' then map_option ((#) Wild) (parse_segs (drop 1 s2)) else None)
             else
               (let k = takeWhile (\<lambda>c. c \<noteq> CHR '']'') s1; r = dropWhile (\<lambda>c. c \<noteq> CHR '']'') s1
                in if take 1 r = '']'' then map_option ((#) (Idx (read_nat k))) (parse_segs (drop 1 r)) else None)))"
  by pat_completeness auto
termination
proof (relation "measure length", goal_cases)
  case (2 s c s1 d s2)
  then show ?case using length_dropWhile_le[of "\<lambda>c. c \<noteq> CHR 0x27" s2] by auto
next
  case (4 s c s1 d s2)
  then show ?case using length_dropWhile_le[of "\<lambda>c. c \<noteq> CHR '']''" s1] by auto
qed auto

declare parse_segs.simps [simp del]

lemma digit_char_code: "d < 10 \<Longrightarrow> of_char (digit_char d) = (48 + d :: nat)"
  by (simp add: digit_char_def of_char_of take_bit_eq_mod)

lemma digit_char_neq: "d < 10 \<Longrightarrow> digit_char d \<noteq> CHR '']'' \<and> digit_char d \<noteq> CHR 0x27 \<and> digit_char d \<noteq> CHR ''*''"
proof -
  assume d: "d < 10"
  have "of_char (digit_char d) \<noteq> (of_char CHR '']'' :: nat)" "of_char (digit_char d) \<noteq> (of_char CHR 0x27 :: nat)"
    "of_char (digit_char d) \<noteq> (of_char CHR ''*'' :: nat)"
    unfolding digit_char_code[OF d] using d by simp_all
  then show ?thesis by auto
qed

lemma show_nat_chars: "c \<in> set (show_nat n) \<Longrightarrow> \<exists>d < 10. c = digit_char d"
proof (induction n rule: show_nat.induct)
  case (1 n)
  then show ?case
    by (subst (asm) show_nat.simps) (auto split: if_splits intro: exI[of _ n] exI[of _ "n mod 10"])
qed

lemma parse_seg_render:
  assumes "plain_seg x" shows "parse_segs (render_seg x @ s) = map_option ((#) x) (parse_segs s)"
proof (cases x)
  case (Name k)
  with assms have k: "plain_name k" "\<forall>c \<in> set k. c \<noteq> CHR 0x27" by (auto simp: plain_name_def)
  then have "takeWhile (\<lambda>c. c \<noteq> CHR 0x27) (k @ CHR 0x27 # r) = k" "dropWhile (\<lambda>c. c \<noteq> CHR 0x27) (k @ CHR 0x27 # r) = CHR 0x27 # r" for r
    by (simp_all add: takeWhile_append dropWhile_append)
  with Name k show ?thesis by (subst parse_segs.simps) simp
next
  case (Idx i)
  obtain d ds where ds: "show_nat i = d # ds" using show_nat_not_Nil by (metis list.exhaust)
  have chars: "\<forall>c \<in> set (d # ds). c \<noteq> CHR '']'' \<and> c \<noteq> CHR 0x27 \<and> c \<noteq> CHR ''*''"
    using show_nat_chars[of _ i] digit_char_neq by (metis ds)
  have "takeWhile (\<lambda>c. c \<noteq> CHR '']'') (show_nat i @ CHR '']'' # r) = show_nat i"
    "dropWhile (\<lambda>c. c \<noteq> CHR '']'') (show_nat i @ CHR '']'' # r) = CHR '']'' # r" for r
    using chars by (auto simp: takeWhile_append dropWhile_append ds)
  moreover have "read_nat (d # ds) = i" using read_show_nat[of i] ds by simp
  ultimately show ?thesis
    using Idx ds chars by (subst parse_segs.simps) simp
next
  case Wild
  then show ?thesis by (subst parse_segs.simps) simp
qed

lemma parse_segs_render: "plain_path ss \<Longrightarrow> parse_segs (concat (map render_seg ss)) = Some ss"
proof (induction ss)
  case Nil
  show ?case by (subst parse_segs.simps) simp
next
  case (Cons x ss)
  then show ?case using parse_seg_render[of x "concat (map render_seg ss)"] by simp
qed

definition ref_path :: "string \<Rightarrow> exn + seg list" where
  "ref_path s =
     (case s of [] \<Rightarrow> Inl (JsonpathError ''bad path'')
      | c # r \<Rightarrow>
         if c \<noteq> CHR ''$'' then Inl (JsonpathError ''bad path'')
         else (case parse_segs r of Some ss \<Rightarrow> Inr ss
               | None \<Rightarrow> if take 1 r = ''.'' then Inr (map Name (split_on CHR ''.'' (drop 1 r))) else Inl (JsonpathError ''bad path'')))"

lemma ref_path_render: "plain_path ss \<Longrightarrow> ref_path (render_path ss) = Inr ss"
  by (simp add: ref_path_def render_path_def parse_segs_render)

lemma ident_no_dot: "ident k \<Longrightarrow> CHR ''.'' \<notin> set k"
  by (auto simp: ident_def)

lemma ref_path_dots:
  assumes "ks \<noteq> []" "list_all ident ks" shows "ref_path (render_dots ks) = Inr (map Name ks)"
proof -
  have "ks \<noteq> [] \<Longrightarrow> concat (map (\<lambda>k. CHR ''.'' # k) ks) = CHR ''.'' # join_with ''.'' ks"
  proof (induction ks)
    case (Cons k ks)
    then show ?case by (cases "ks = []") (simp_all add: join_with_Cons)
  qed simp
  moreover have "parse_segs (CHR ''.'' # r) = None" for r by (subst parse_segs.simps) simp
  moreover have "split_on CHR ''.'' (join_with ''.'' ks) = ks"
    by (rule split_join) (use assms ident_no_dot in \<open>auto simp: list_all_iff\<close>)
  ultimately show ?thesis using assms(1) by (simp add: ref_path_def render_dots_def)
qed

section \<open>JSON text\<close>

definition esc_char :: "char \<Rightarrow> string" where
  "esc_char c = (if c = CHR 0x22 \<or> c = CHR 0x5C then [CHR 0x5C, c] else [c])"

definition quote_str :: "string \<Rightarrow> string" where
  "quote_str s = CHR 0x22 # concat (map esc_char s) @ [CHR 0x22]"

fun unquote :: "string \<Rightarrow> (string \<times> string) option" where
  "unquote [] = None"
| "unquote (c # s) =
     (if c = CHR 0x22 then Some ([], s)
      else if c = CHR 0x5C then (case s of [] \<Rightarrow> None | d # t \<Rightarrow> map_option (\<lambda>(w, r). (d # w, r)) (unquote t))
      else map_option (\<lambda>(w, r). (c # w, r)) (unquote s))"

lemma unquote_quote: "unquote (concat (map esc_char s) @ CHR 0x22 # r) = Some (s, r)"
  by (induction s) (auto simp: esc_char_def)

fun ref_dump :: "json \<Rightarrow> string" where
  "ref_dump JNull = ''null''"
| "ref_dump (JBool b) = (if b then ''true'' else ''false'')"
| "ref_dump (JInt i) = show_int i"
| "ref_dump (JReal f) = ''0.0''"
| "ref_dump (JStr s) = quote_str s"
| "ref_dump (JArr xs) = ''['' @ join_with '','' (map ref_dump xs) @ '']''"
| "ref_dump (JObj kvs) = ''{'' @ join_with '','' (map (\<lambda>(k, v). quote_str k @ '':'' @ ref_dump v) kvs) @ ''}''"

definition is_digit :: "char \<Rightarrow> bool" where
  "is_digit c \<longleftrightarrow> CHR ''0'' \<le> c \<and> c \<le> CHR ''9''"

text \<open>A recursive-descent parser for values, array elements and object members; fuel bounds the steps.\<close>

fun parse_val :: "nat \<Rightarrow> string \<Rightarrow> (json \<times> string) option"
  and parse_elems :: "nat \<Rightarrow> string \<Rightarrow> (json list \<times> string) option"
  and parse_members :: "nat \<Rightarrow> string \<Rightarrow> ((string \<times> json) list \<times> string) option" where
  "parse_val 0 s = None"
| "parse_val (Suc n) s =
     (case s of [] \<Rightarrow> None
      | c # t \<Rightarrow>
        if c = CHR 0x22 then map_option (\<lambda>(w, r). (JStr w, r)) (unquote t)
        else if c = CHR ''{'' then
          (if take 1 t = ''}'' then Some (JObj [], drop 1 t)
           else map_option (\<lambda>(kvs, r). (foldl (\<lambda>j (k, v). json_set j k v) json_new kvs, r)) (parse_members n t))
        else if c = CHR ''['' then
          (if take 1 t = '']'' then Some (JArr [], drop 1 t) else map_option (\<lambda>(xs, r). (JArr xs, r)) (parse_elems n t))
        else if take 4 s = ''true'' then Some (JBool True, drop 4 s)
        else if take 5 s = ''false'' then Some (JBool False, drop 5 s)
        else if take 4 s = ''null'' then Some (JNull, drop 4 s)
        else if is_digit c then Some (JInt (int (read_nat (takeWhile is_digit s))), dropWhile is_digit s)
        else None)"
| "parse_elems 0 s = None"
| "parse_elems (Suc n) s =
     (case parse_val n s of None \<Rightarrow> None
      | Some (v, r) \<Rightarrow>
         if take 1 r = '','' then map_option (\<lambda>(vs, r'). (v # vs, r')) (parse_elems n (drop 1 r))
         else if take 1 r = '']'' then Some ([v], drop 1 r) else None)"
| "parse_members 0 s = None"
| "parse_members (Suc n) s =
     (if take 1 s \<noteq> [CHR 0x22] then None else
      case unquote (drop 1 s) of None \<Rightarrow> None
      | Some (k, r) \<Rightarrow>
         if take 1 r \<noteq> '':'' then None else
         (case parse_val n (drop 1 r) of None \<Rightarrow> None
          | Some (v, r') \<Rightarrow>
             if take 1 r' = '','' then map_option (\<lambda>(kvs, r''). ((k, v) # kvs, r'')) (parse_members n (drop 1 r'))
             else if take 1 r' = ''}'' then Some ([(k, v)], drop 1 r') else None))"

definition ref_parse :: "string \<Rightarrow> exn + json" where
  "ref_parse s = (case parse_val (Suc (length s)) s of Some (j, []) \<Rightarrow> Inr j | _ \<Rightarrow> Inl (SerError ''parse error''))"

lemma parse_val_str: "parse_val (Suc n) (quote_str w @ r) = Some (JStr w, r)"
  by (simp add: quote_str_def unquote_quote)

lemma parse_member:
  "parse_members (Suc (Suc n)) (quote_str k @ '':'' @ quote_str w @ c # r) =
     (if c = CHR '','' then map_option (\<lambda>(kvs, r'). ((k, JStr w) # kvs, r')) (parse_members (Suc n) r)
      else if c = CHR ''}'' then Some ([(k, JStr w)], r) else None)"
proof -
  have "take 1 (quote_str k @ s) = [CHR 0x22]" "unquote (drop 1 (quote_str k @ s)) = Some (k, s)" for s
    by (simp_all add: quote_str_def unquote_quote)
  then show ?thesis
    by (subst parse_members.simps(2)) (simp add: parse_val_str del: parse_val.simps parse_members.simps)
qed

lemma parse_members_flat:
  assumes "kvs \<noteq> []" "\<forall>kv \<in> set kvs. \<exists>w. snd kv = JStr w" "Suc (length kvs) \<le> n"
  shows "parse_members n (join_with '','' (map (\<lambda>(k, v). quote_str k @ '':'' @ ref_dump v) kvs) @ CHR ''}'' # r) = Some (kvs, r)"
  using assms
proof (induction kvs arbitrary: n)
  case (Cons kv kvs)
  obtain k w where kv: "kv = (k, JStr w)" using Cons.prems(2) by (cases kv) auto
  obtain m where n: "n = Suc (Suc m)" using Cons.prems(3) by (cases n; cases "n - 1") auto
  show ?case
  proof (cases "kvs = []")
    case True
    then show ?thesis
      using parse_member[of m k w "CHR ''}''" r] by (simp add: n kv del: parse_members.simps)
  next
    case False
    let ?t = "join_with '','' (map (\<lambda>(k, v). quote_str k @ '':'' @ ref_dump v) kvs)"
    have "parse_members (Suc m) (?t @ CHR ''}'' # r) = Some (kvs, r)"
      using Cons False n by (simp del: parse_members.simps)
    then show ?thesis
      using parse_member[of m k w "CHR '',''" "?t @ CHR ''}'' # r"] False
      by (simp add: n kv join_with_Cons del: parse_members.simps)
  qed
qed simp

lemma ins_sorted_last: "\<forall>k' \<in> fst ` set kvs. k' < k \<Longrightarrow> ins_sorted k v kvs = kvs @ [(k, v)]"
  by (induction k v kvs rule: ins_sorted.induct) auto

lemma build_sorted: "sorted_keys kvs \<Longrightarrow> foldl (\<lambda>j (k, v). json_set j k v) json_new kvs = JObj kvs"
proof (induction kvs rule: rev_induct)
  case (snoc kv kvs)
  then have s: "sorted_keys kvs" "\<forall>k' \<in> fst ` set kvs. k' < fst kv"
    by (auto simp: sorted_keys_def sorted_wrt_append)
  with snoc.IH ins_sorted_last[OF s(2), of "snd kv"] show ?case by (cases kv) simp
qed simp

lemma join_with_length: "length ws \<le> length (join_with sep ws) + 1" if "\<forall>w \<in> set ws. w \<noteq> []"
  using that by (induction sep ws rule: join_with.induct) (auto simp: Suc_le_eq neq_Nil_conv)

lemma ref_parse_flat:
  assumes "sorted_keys kvs" "\<forall>kv \<in> set kvs. \<exists>w. snd kv = JStr w"
  shows "ref_parse (ref_dump (JObj kvs)) = Inr (JObj kvs)"
proof (cases "kvs = []")
  case True
  then show ?thesis by (simp add: ref_parse_def)
next
  case False
  let ?ws = "map (\<lambda>(k, v). quote_str k @ '':'' @ ref_dump v) kvs"
  let ?s = "join_with '','' ?ws @ CHR ''}'' # []"
  have "length kvs \<le> length (join_with '','' ?ws) + 1"
    using join_with_length[of ?ws "'',''"] by (auto simp: quote_str_def split_def)
  then have mem: "parse_members (Suc (length ?s)) ?s = Some (kvs, [])"
    using parse_members_flat[OF False assms(2), of "Suc (length ?s)" "[]"] by simp
  obtain k v kvs' where "kvs = (k, v) # kvs'" using False by (cases kvs) auto
  then have "take 1 ?s \<noteq> ''}''" by (cases kvs') (auto simp: quote_str_def)
  with mem show ?thesis
    by (simp add: ref_parse_def build_sorted[OF assms(1)] del: parse_members.simps)
qed

section \<open>Numbers\<close>

text \<open>A stored integer is cast, so that it wraps around; only text is checked against the range.\<close>

definition ref_cast :: "numtype \<Rightarrow> int \<Rightarrow> numval" where
  "ref_cast t i =
     (let m = 2 ^ num_bits t; h = 2 ^ (num_bits t - 1)
      in if \<not> is_int_type t then FVal (Fin (of_int i))
         else IVal (if is_signed t then (i + h) mod m - h else i mod m))"

definition ref_num_int :: "numtype \<Rightarrow> int \<Rightarrow> exn + numval" where
  "ref_num_int t i =
     (if is_int_type t \<and> \<not> num_typed t (IVal i) then Inl (StdException ''out of range'') else Inr (ref_cast t i))"

definition ref_int_text :: "string \<Rightarrow> int option" where
  "ref_int_text s =
     (let neg = take 1 s = ''-''; ds = (if neg then drop 1 s else s); n = int (read_nat ds)
      in if ds \<noteq> [] \<and> list_all is_digit ds then Some (if neg then - n else n) else None)"

fun ref_num :: "numtype \<Rightarrow> json \<Rightarrow> exn + numval" where
  "ref_num t (JInt i) = Inr (ref_cast t i)"
| "ref_num t (JStr s) = (case ref_int_text s of Some i \<Rightarrow> ref_num_int t i | None \<Rightarrow> Inl (StdException ''not a number''))"
| "ref_num t (JReal f) = (if is_int_type t then Inl (StdException ''not an integer'') else Inr (FVal f))"
| "ref_num t _ = Inl (StdException ''not a number'')"

lemma ref_cast_typed: "num_typed t (ref_cast t i)"
proof -
  have "0 \<le> x mod m \<and> x mod m < m" if "0 < m" for x m :: int using that by simp
  from this[of 256] this[of 65536] this[of 4294967296] this[of 18446744073709551616] show ?thesis
    by (cases t) (simp_all add: ref_cast_def num_min_def num_max_def Let_def)
qed

lemma ref_cast_same: "num_typed t (IVal i) \<Longrightarrow> ref_cast t i = IVal i"
  by (cases t) (auto simp: ref_cast_def num_min_def num_max_def Let_def)

lemma digit_is_digit: "d < 10 \<Longrightarrow> is_digit (digit_char d)"
  by (simp add: is_digit_def less_eq_char_def digit_char_code)

lemma show_nat_digits: "list_all is_digit (show_nat n)"
  using show_nat_chars[of _ n] digit_is_digit by (auto simp: list_all_iff)

lemma ref_int_text_show: "ref_int_text (show_int i) = Some i"
proof -
  have "take 1 (show_nat n) \<noteq> ''-''" for n
    using show_nat_digits[of n] by (cases "show_nat n") (auto simp: is_digit_def less_eq_char_def)
  then show ?thesis by (simp add: ref_int_text_def show_int_def show_nat_digits read_show_nat Let_def)
qed

fun ref_bool :: "json \<Rightarrow> exn + bool" where
  "ref_bool (JBool b) = Inr b"
| "ref_bool _ = Inl (StdException ''not a bool'')"

section \<open>The library\<close>

fun ref_members :: "json \<Rightarrow> exn + (string \<times> json) list" where
  "ref_members (JObj kvs) = Inr kvs"
| "ref_members _ = Inl (StdException ''not an object'')"

fun ref_merge :: "json \<Rightarrow> json \<Rightarrow> exn + json" where
  "ref_merge (JObj a) (JObj b) = Inr (foldl (\<lambda>j (k, v). json_set j k v) (JObj a) b)"
| "ref_merge _ _ = Inl NotAnObject"

definition ref_decode :: "string \<Rightarrow> exn + (string \<times> json) list" where
  "ref_decode t = bindE (ref_parse t) (\<lambda>j. bindE (ref_members j) (\<lambda>cs.
     if list_all (\<lambda>(k, v). ref_parse (ref_dump v) = Inr v) cs then Inr cs else Inl (StdException ''invalid token'')))"

definition ref_lib :: lib where
  "ref_lib =
     \<lparr>b_split = (\<lambda>s c. split_on c s), b_erase_all = (\<lambda>s p. subst_all p [] s),
      b_replace_all = (\<lambda>s p r. subst_all p r s), b_erase_first = (\<lambda>s p. subst_first p [] s),
      b_erase_last = (\<lambda>s p. erase_last_ref p s), b_trim = trim_ref, b_diagnostic = ''unknown'',
      re_match = (\<lambda>p s. case rx_items p of Some items \<Rightarrow> Inr (rx_match items s) | None \<Rightarrow> Inl (StdException ''regex'')),
      j_parse = ref_parse, j_dump = ref_dump, j_pretty = ref_dump, j_num = ref_num, j_bool = ref_bool,
      j_members = ref_members, j_not_array = (\<lambda>_. Some (StdException ''not an array'')),
      j_query = (\<lambda>t s. bindE (ref_path s) (\<lambda>ss. Inr (map snd (path_nodes ss t)))),
      j_query_paths = (\<lambda>t s. bindE (ref_path s) (\<lambda>ss. Inr (map (render_path \<circ> fst) (path_nodes ss t)))),
      j_replace = (\<lambda>t s v. bindE (ref_path s) (\<lambda>ss. Inr (path_replace ss v t))),
      j_merge_update = ref_merge,
      j_from_diff = (\<lambda>s t. JArr [JObj [(''op'', JStr ''replace''), (''path'', JStr []), (''value'', t)]]),
      j_apply_patch = (\<lambda>t p. (case p of JArr [op] \<Rightarrow> (case json_lookup op ''value'' of Some v \<Rightarrow> v | None \<Rightarrow> t) | _ \<Rightarrow> t, None)),
      j_validate = (\<lambda>resolver schema j. Inr (if conforms resolver schema j then [] else [(''#'', ''Schema validation error'')])),
      j_key_msg = (\<lambda>k. ''Key not found: '' @ k), j_object_msg = ''Not an object'', j_index_msg = ''Invalid array subscript'',
      show_real = (\<lambda>t f. ''real''),
      jwt_decode = ref_decode,
      jwt_verify = (\<lambda>key t. if key = ''key'' then Inr () else Inl (StdException ''bad signature'')),
      jwt_claim_str = (\<lambda>v. case v of JStr s \<Rightarrow> s | _ \<Rightarrow> ref_dump v), jwt_claim_json = ref_dump,
      uuid_parse = (\<lambda>s. if s \<noteq> [] \<and> list_all is_digit s then Inr (word_of_nat (read_nat s)) else Inl (StdException ''invalid uuid'')),
      uuid_show = (\<lambda>u. show_nat (unat u))\<rparr>"

lemma boost_ref [simp]: "boost_doc ref_lib"
  by (simp add: boost_doc_def ref_lib_def)

lemma regex_ref [simp]: "regex_doc ref_lib"
  by (simp add: regex_doc_def ref_lib_def)

lemma jsonpath_ref [simp]: "jsonpath_doc ref_lib"
  by (simp add: jsonpath_doc_def ref_lib_def ref_path_render)

lemma dotpath_ref [simp]: "dotpath_doc ref_lib"
  by (simp add: dotpath_doc_def ref_lib_def ref_path_dots)

lemma schema_ref [simp]: "schema_doc ref_lib"
  by (simp add: schema_doc_def ref_lib_def)

lemma num_ref [simp]: "num_doc ref_lib"
proof -
  have "ref_num t j = Inr v \<Longrightarrow> num_typed t v" for t j v
    using ref_cast_typed by (cases j) (auto simp: ref_num_int_def split: if_splits option.splits)
  then show ?thesis by (simp add: num_doc_def ref_lib_def ref_num_int_def ref_cast_same ref_int_text_show)
qed

lemma json_ref [simp]: "json_doc ref_lib"
proof -
  have "ref_dump (JObj kvs) \<noteq> []" for kvs by simp
  moreover have "ref_parse ''{}'' = Inr json_new"
    using ref_parse_flat[of "[]"] by (simp add: sorted_keys_def)
  ultimately show ?thesis
    using ref_parse_flat by (simp add: json_doc_def ref_lib_def)
qed

lemma jwt_ref [simp]: "jwt_doc ref_lib"
  by (fastforce simp: jwt_doc_def ref_lib_def ref_decode_def bindE_Inr_conv list_all_iff split: if_splits)

lemma uuid_ref [simp]: "uuid_doc ref_lib"
  by (simp add: uuid_doc_def ref_lib_def read_show_nat show_nat_digits)

end
