(* ===== verification/TreePaths.thy ===== *)
theory TreePaths
  imports Externals
begin

text \<open>
  Laws of the JSONPath fragment of \<open>Externals\<close>: selecting along a concatenation of paths, the
  uniqueness of the node a normalised path names, and what replacing the nodes of a path changes
  and leaves alone. The database theories rest on these.
\<close>

named_theorems tree_simps \<open>laws of selecting and replacing along paths\<close>

section \<open>Well-formed trees\<close>

text \<open>Object members have distinct names a path can be written with.\<close>

fun wf_tree :: "json \<Rightarrow> bool" where
  "wf_tree (JObj kvs) = (distinct (map fst kvs) \<and> (\<forall>kv \<in> set kvs. plain_name (fst kv) \<and> wf_tree (snd kv)))"
| "wf_tree (JArr xs) = (\<forall>x \<in> set xs. wf_tree x)"
| "wf_tree _ = True"

section \<open>Selecting\<close>

lemma path_nodes_append [tree_simps]:
  "path_nodes (a @ b) t = concat (map (\<lambda>(p, v). map (\<lambda>(p', v'). (p @ p', v')) (path_nodes b v)) (path_nodes a t))"
proof (induction a arbitrary: t)
  case (Cons s a)
  show ?case
    by (simp add: Cons concat_map_concat comp_def case_prod_beta) (simp add: map_concat comp_def split_def)
qed (simp add: case_prod_beta)

lemma child_nodes_size: "(s', c) \<in> set (child_nodes s t) \<Longrightarrow> size c < size t"
proof (induction s t rule: child_nodes.induct)
  case (1 k kvs)
  then have "(k, c) \<in> set kvs" by (auto split: option.splits dest: map_of_SomeD [OF sym] map_of_SomeD)
  then show ?case by (force intro: less_Suc_eq_le[THEN iffD2] size_list_estimation'[of "(k, c)"])
next
  case (2 kvs)
  then obtain k where "(k, c) \<in> set kvs" by auto
  then show ?case by (force intro: less_Suc_eq_le[THEN iffD2] size_list_estimation'[of "(k, c)"])
next
  case (3 xs)
  then have "c \<in> set xs" by (auto simp: in_set_enumerate_eq)
  then show ?case by (force intro: less_Suc_eq_le[THEN iffD2] size_list_estimation')
next
  case (4 i xs)
  then have "c \<in> set xs" by (auto split: if_splits)
  then show ?case by (force intro: less_Suc_eq_le[THEN iffD2] size_list_estimation')
qed auto

lemma path_nodes_size: "(p, v) \<in> set (path_nodes ss t) \<Longrightarrow> size v + length ss \<le> size t"
proof (induction ss arbitrary: p t)
  case (Cons s ss)
  then obtain s' c p' where c: "(s', c) \<in> set (child_nodes s t)" and "(p', v) \<in> set (path_nodes ss c)"
    by auto
  with Cons.IH have "size v + length ss \<le> size c" by blast
  with child_nodes_size[OF c] show ?case by simp
qed auto

lemma child_nodes_wf:
  "wf_tree t \<Longrightarrow> (s', c) \<in> set (child_nodes s t) \<Longrightarrow> wf_tree c \<and> plain_seg s' \<and> child_nodes s' t = [(s', c)]"
proof (induction s t rule: child_nodes.induct)
  case (1 k kvs)
  then have "map_of kvs k = Some c" "s' = Name k" by (auto split: option.splits)
  with 1 show ?case by (force dest: map_of_SomeD)
next
  case (2 kvs)
  then obtain k where k: "(k, c) \<in> set kvs" "s' = Name k" by auto
  with 2 have "map_of kvs k = Some c" by simp
  with 2 k show ?case by force
next
  case (3 xs)
  then obtain i where "s' = Idx i" "i < length xs" "c = xs ! i" by (auto simp: in_set_enumerate_eq)
  with 3 show ?case by auto
next
  case (4 i xs)
  then show ?case by (auto split: if_splits)
qed auto

text \<open>A node found by any path is the one node its own path selects.\<close>

lemma path_nodes_own:
  "wf_tree t \<Longrightarrow> (q, v) \<in> set (path_nodes ss t) \<Longrightarrow> wf_tree v \<and> plain_path q \<and> path_nodes q t = [(q, v)]"
proof (induction ss arbitrary: q t)
  case (Cons s ss)
  then obtain s' c q' where c: "(s', c) \<in> set (child_nodes s t)" and q': "(q', v) \<in> set (path_nodes ss c)" and q: "q = s' # q'"
    by auto
  from child_nodes_wf[OF Cons.prems(1) c]
  have c': "wf_tree c" "plain_seg s'" "child_nodes s' t = [(s', c)]" by auto
  with Cons.IH[OF c'(1) q'] show ?case by (simp add: q)
qed auto

lemma path_nodes_plain:
  "wf_tree t \<Longrightarrow> list_all (plain_path \<circ> fst) (path_nodes ss t)"
  by (auto simp: list_all_iff[of "plain_path \<circ> fst"] dest: path_nodes_own)

section \<open>Replacing\<close>

lemma child_nodes_replace:
  "child_nodes s (path_replace (s # ss) v t) = map (\<lambda>(s', c). (s', path_replace ss v c)) (child_nodes s t)"
proof (cases s)
  case (Name k)
  have "map_of (map (\<lambda>(k', c). (k', if k' = k then path_replace ss v c else c)) kvs) k
      = map_option (path_replace ss v) (map_of kvs k)" for kvs
    by (induction kvs) auto
  with Name show ?thesis by (cases t) (auto split: option.split)
next
  case (Idx i)
  then show ?thesis by (cases t) auto
next
  case Wild
  have "map (\<lambda>(i, c). (Idx i, c)) (enumerate n (map f xs)) = map (\<lambda>x. (Idx (fst x), f (snd x))) (enumerate n xs)" for n f xs
    by (induction xs arbitrary: n) auto
  with Wild show ?thesis by (cases t) (auto simp: comp_def case_prod_beta)
qed

lemma path_nodes_replace [tree_simps]:
  "path_nodes ss (path_replace ss v t) = map (\<lambda>(q, x). (q, v)) (path_nodes ss t)"
proof (induction ss arbitrary: t)
  case (Cons s ss)
  then show ?case
    by (simp add: child_nodes_replace map_concat comp_def case_prod_beta)
qed simp

text \<open>Two normalised paths neither of which continues the other name nodes apart.\<close>

definition apart :: "seg list \<Rightarrow> seg list \<Rightarrow> bool" where
  "apart q r \<longleftrightarrow> \<not> prefix q r \<and> \<not> prefix r q"

lemma path_nodes_replace_apart:
  "path_nodes q t = [(q, x)] \<Longrightarrow> path_nodes r t = [(r, y)] \<Longrightarrow> apart q r \<Longrightarrow>
   path_nodes r (path_replace q v t) = [(r, y)]"
proof (induction q arbitrary: r t)
  case Nil
  then show ?case by (simp add: apart_def)
next
  case (Cons s q)
  from Cons.prems(3) obtain s' r' where r: "r = s' # r'" by (cases r) (auto simp: apart_def)
  have single: "\<exists>c. child_nodes u t = [(u, c)] \<and> path_nodes p c = [(p, z)]" if "path_nodes (u # p) t = [(u # p, z)]" for u p z
  proof -
    have "(u # p, z) \<in> set (path_nodes (u # p) t)" using that by simp
    then obtain c where c: "(u, c) \<in> set (child_nodes u t)" "(p, z) \<in> set (path_nodes p c)" by auto
    then have len: "length (child_nodes u t) \<le> 1"
    proof -
      have "u \<noteq> Wild" using c(1) by (cases t) auto
      then show ?thesis by (cases u; cases t) (auto split: option.splits)
    qed
    with c(1) have "child_nodes u t = [(u, c)]" by (cases "child_nodes u t") auto
    moreover from this that have "path_nodes p c = [(p, z)]" by (auto simp: map_eq_Cons_conv)
    ultimately show ?thesis by blast
  qed
  from single[OF Cons.prems(1)] obtain c where c: "child_nodes s t = [(s, c)]" "path_nodes q c = [(q, x)]" by blast
  from single[OF Cons.prems(2)[unfolded r]] obtain d where d: "child_nodes s' t = [(s', d)]" "path_nodes r' d = [(r', y)]" by blast
  show ?case
  proof (cases "s' = s")
    case True
    with c d have "d = c" by simp
    with True Cons.IH[of c r'] Cons.prems(3) c d r show ?thesis
      by (simp add: child_nodes_replace apart_def)
  next
    case False
    have map_other: "map_of (map (\<lambda>(k', e). (k', if k' = k then f e else e)) kvs) k2 = map_of kvs k2"
      if "k2 \<noteq> k" for k k2 and f :: "json \<Rightarrow> json" and kvs
      using that by (induction kvs) auto
    have "child_nodes s' (path_replace (s # q) v t) = child_nodes s' t"
      using False c(1) d(1)
      by (cases s; cases s'; cases t) (auto simp: map_other split: option.splits if_splits)
    with d r show ?thesis by simp
  qed
qed

end
