(* ===== verification/VSSPath.thy ===== *)
theory VSSPath
  imports Externals
begin

text \<open>
  \<open>include/VSSPath.hpp\<close> and \<open>src/VSSPath.cpp\<close>: a VSS path with its three representations (the
  Gen2 form \<open>Vehicle/Speed\<close>, the Gen1 form \<open>Vehicle.Speed\<close>, the JSONPath into the tree) and the
  conversions between them. \<open>path_segs\<close> is the abstract reading of a Gen2 path as a list of
  JSONPath segments; the lemmas relate the text the code builds to it and invert it.
\<close>

record VSSPath =
  vsspath :: string
  vssgen1path :: string
  jsonpath :: string
  gen1_origin :: bool

definition getVSSPath :: "VSSPath \<Rightarrow> string" where
  "getVSSPath p = vsspath p"

definition getVSSGen1Path :: "VSSPath \<Rightarrow> string" where
  "getVSSGen1Path p = vssgen1path p"

definition getJSONPath :: "VSSPath \<Rightarrow> string" where
  "getJSONPath p = jsonpath p"

definition isGen1Origin :: "VSSPath \<Rightarrow> bool" where
  "isGen1Origin p = gen1_origin p"

definition to_string :: "VSSPath \<Rightarrow> string" where
  "to_string p = (if isGen1Origin p then getVSSGen1Path p else getVSSPath p)"

text \<open>\<open>operator==\<close> and \<open>operator<\<close> compare the Gen2 form only; \<open>std::hash<VSSPath>\<close> hashes it.\<close>

definition vsspath_eq :: "VSSPath \<Rightarrow> VSSPath \<Rightarrow> bool" where
  "vsspath_eq p q = (vsspath p = vsspath q)"

instantiation VSSPath_ext :: (type) preorder
begin

definition less_eq_VSSPath_ext :: "'a VSSPath_scheme \<Rightarrow> 'a VSSPath_scheme \<Rightarrow> bool" where
  "less_eq_VSSPath_ext p q = (vsspath p \<le> vsspath q)"

definition less_VSSPath_ext :: "'a VSSPath_scheme \<Rightarrow> 'a VSSPath_scheme \<Rightarrow> bool" where
  "less_VSSPath_ext p q = (vsspath p < vsspath q)"

instance
  by standard (auto simp: less_eq_VSSPath_ext_def less_VSSPath_ext_def)

end

definition hash_VSSPath :: "(string \<Rightarrow> 64 word) \<Rightarrow> VSSPath \<Rightarrow> 64 word" where
  "hash_VSSPath hash_string vp = hash_string (getVSSPath vp)"

section \<open>Conversions\<close>

definition gen1togen2 :: "string \<Rightarrow> string" where
  "gen1togen2 input = replace_char CHR ''.'' CHR ''/'' input"

definition gen2togen1 :: "string \<Rightarrow> string" where
  "gen2togen1 input = replace_char CHR ''/'' CHR ''.'' input"

definition children_text :: string where
  "children_text = CHR ''['' # CHR 0x27 # ''children'' @ [CHR 0x27, CHR '']'']"

text \<open>The loop of \<open>gen2tojson\<close> over the elements, with its flag \<open>first\<close>.\<close>

fun gen2tojson_loop :: "bool \<Rightarrow> string list \<Rightarrow> string" where
  "gen2tojson_loop first [] = []"
| "gen2tojson_loop first (element # elements) =
     (if \<not> first then children_text else [])
     @ (if element = ''*'' then ''[*]''
        else CHR ''['' # CHR 0x27 # element @ [CHR 0x27, CHR '']''])
     @ gen2tojson_loop False elements"

definition gen2tojson :: "'a lib_scheme \<Rightarrow> string \<Rightarrow> string" where
  "gen2tojson L input = CHR ''$'' # gen2tojson_loop True (b_split L input CHR ''/'')"

definition jsontogen2 :: "'a lib_scheme \<Rightarrow> string \<Rightarrow> string" where
  "jsontogen2 L input =
     (let g1 = b_erase_all L input children_text;
          g2 = b_erase_all L g1 [CHR 0x27];
          g3 = b_replace_all L g2 '']['' ''/'';
          g4 = b_erase_first L g3 ''$[''
      in b_erase_last L g4 '']'')"

definition fromVSSGen2 :: "'a lib_scheme \<Rightarrow> string \<Rightarrow> VSSPath" where
  "fromVSSGen2 L input =
     \<lparr>vsspath = input, vssgen1path = gen2togen1 input, jsonpath = gen2tojson L input, gen1_origin = False\<rparr>"

definition fromVSSGen1 :: "'a lib_scheme \<Rightarrow> string \<Rightarrow> VSSPath" where
  "fromVSSGen1 L input =
     (let vss = gen1togen2 input
      in \<lparr>vsspath = vss, vssgen1path = input, jsonpath = gen2tojson L vss, gen1_origin = True\<rparr>)"

definition fromJSON :: "'a lib_scheme \<Rightarrow> string \<Rightarrow> bool \<Rightarrow> VSSPath" where
  "fromJSON L input gen1 =
     (let vss = jsontogen2 L input
      in \<lparr>vsspath = vss, vssgen1path = gen2togen1 vss, jsonpath = input, gen1_origin = gen1\<rparr>)"

definition fromVSS :: "'a lib_scheme \<Rightarrow> string \<Rightarrow> VSSPath" where
  "fromVSS L input =
     (if \<not> contains_sub input ''.'' then
        (let vss = input; vssgen1 = gen2togen1 vss
         in \<lparr>vsspath = vss, vssgen1path = vssgen1, jsonpath = gen2tojson L vss, gen1_origin = False\<rparr>)
      else
        (let vssgen1 = input; vss = gen1togen2 vssgen1
         in \<lparr>vsspath = vss, vssgen1path = vssgen1, jsonpath = gen2tojson L vss, gen1_origin = True\<rparr>))"

lemmas vsspath_defs = getVSSPath_def getVSSGen1Path_def getJSONPath_def isGen1Origin_def
  fromVSSGen2_def fromVSSGen1_def fromJSON_def fromVSS_def Let_def

section \<open>Separators\<close>

lemma gen1_roundtrip: "CHR ''/'' \<notin> set s \<Longrightarrow> gen2togen1 (gen1togen2 s) = s"
  and gen2_roundtrip: "CHR ''.'' \<notin> set s \<Longrightarrow> gen1togen2 (gen2togen1 s) = s"
  by (simp_all add: gen1togen2_def gen2togen1_def replace_char_back)

lemma gen1togen2_no_dot: "CHR ''.'' \<notin> set (gen1togen2 s)"
  and gen2togen1_no_slash: "CHR ''/'' \<notin> set (gen2togen1 s)"
  by (simp_all add: gen1togen2_def gen2togen1_def replace_char_notin)

lemma fromVSS_cases:
  "fromVSS L s = (if CHR ''.'' \<in> set s then fromVSSGen1 L s else fromVSSGen2 L s)"
  by (simp add: vsspath_defs contains_sub_char)

text \<open>However it is spelled, the JSONPath of a path is the one of its Gen2 form.\<close>

lemma jsonpath_fromVSS: "getJSONPath (fromVSS L s) = gen2tojson L (getVSSPath (fromVSS L s))"
  by (simp add: vsspath_defs)

lemma vsspath_fromVSS: "getVSSPath (fromVSS L s) = gen1togen2 s"
  by (auto simp: fromVSS_cases vsspath_defs gen1togen2_def replace_char_id)

section \<open>The segments of a path\<close>

definition comp_seg :: "string \<Rightarrow> seg" where
  "comp_seg w = (if w = ''*'' then Wild else Name w)"

fun comps_segs :: "string list \<Rightarrow> seg list" where
  "comps_segs [] = []"
| "comps_segs [w] = [comp_seg w]"
| "comps_segs (w # v # ws) = comp_seg w # Name ''children'' # comps_segs (v # ws)"

definition path_segs :: "string \<Rightarrow> seg list" where
  "path_segs s = comps_segs (split_on CHR ''/'' s)"

lemma render_comp_seg:
  "render_seg (comp_seg w) = (if w = ''*'' then ''[*]'' else CHR ''['' # CHR 0x27 # w @ [CHR 0x27, CHR '']''])"
  by (simp add: comp_seg_def)

lemma render_children: "render_seg (Name ''children'') = children_text"
  by (simp add: children_text_def)

lemma gen2tojson_loop_segs:
  "gen2tojson_loop first ws = concat (map render_seg (if first \<or> ws = [] then comps_segs ws else Name ''children'' # comps_segs ws))"
proof (induction first ws rule: gen2tojson_loop.induct)
  case (2 first element elements)
  then show ?case
    by (cases elements) (simp_all add: render_comp_seg render_children del: render_seg.simps)
qed simp

lemma gen2tojson_segs: "boost_doc L \<Longrightarrow> gen2tojson L s = render_path (path_segs s)"
  by (simp add: gen2tojson_def path_segs_def render_path_def gen2tojson_loop_segs doc_simps)

section \<open>From JSONPath back to the VSS path\<close>

text \<open>A component that survives the trip: no bracket, no quote, and not the word the code erases.\<close>

definition good_comp :: "string \<Rightarrow> bool" where
  "good_comp w \<longleftrightarrow> CHR ''['' \<notin> set w \<and> CHR '']'' \<notin> set w \<and> CHR 0x27 \<notin> set w \<and> w \<noteq> ''children''"

lemma prefix_upto:
  assumes "prefix (c @ q # x) (w @ q # y)" "q \<notin> set c" "q \<notin> set w"
  shows "w = c"
  using assms
proof (induction c arbitrary: w)
  case Nil
  then show ?case by (cases w) auto
next
  case (Cons a c)
  then show ?case by (cases w) auto
qed

lemma no_children_prefix:
  assumes "good_comp w"
  shows "\<not> prefix children_text (CHR ''['' # CHR 0x27 # w @ CHR 0x27 # rest)"
proof
  assume "prefix children_text (CHR ''['' # CHR 0x27 # w @ CHR 0x27 # rest)"
  then have "prefix (''children'' @ CHR 0x27 # '']'') (w @ CHR 0x27 # rest)"
    by (simp add: children_text_def)
  then have "w = ''children''"
    by (rule prefix_upto) (use assms in \<open>auto simp: good_comp_def\<close>)
  with assms show False by (simp add: good_comp_def)
qed

lemma erase_children_seg:
  assumes "good_comp w"
  shows "subst_all children_text [] (render_seg (comp_seg w) @ s)
    = render_seg (comp_seg w) @ subst_all children_text [] s"
proof (cases "w = ''*''")
  case True
  have "\<not> prefix children_text (CHR ''['' # ''*]'' @ s)" by (simp add: children_text_def)
  then have "subst_all children_text [] (CHR ''['' # ''*]'' @ s)
      = CHR ''['' # subst_all children_text [] (''*]'' @ s)"
    by (rule subst_all_miss)
  also have "subst_all children_text [] (''*]'' @ s) = ''*]'' @ subst_all children_text [] s"
    by (rule subst_all_skip) (simp_all add: children_text_def)
  finally show ?thesis using True by (simp add: render_comp_seg)
next
  case False
  let ?b = "CHR 0x27 # w @ [CHR 0x27, CHR '']'']"
  have "\<not> prefix children_text (CHR ''['' # ?b @ s)"
    using no_children_prefix[OF assms, of "CHR '']'' # s"] by simp
  then have "subst_all children_text [] (CHR ''['' # ?b @ s) = CHR ''['' # subst_all children_text [] (?b @ s)"
    by (rule subst_all_miss)
  also have "subst_all children_text [] (?b @ s) = ?b @ subst_all children_text [] s"
    by (rule subst_all_skip) (use assms in \<open>simp_all add: children_text_def good_comp_def\<close>)
  finally show ?thesis using False by (simp add: render_comp_seg)
qed

lemma erase_children_segs:
  "\<forall>w \<in> set ws. good_comp w \<Longrightarrow>
   subst_all children_text [] (concat (map render_seg (comps_segs ws))) = concat (map (render_seg \<circ> comp_seg) ws)"
proof (induction ws rule: comps_segs.induct)
  case (2 w)
  then show ?case using erase_children_seg[of w "[]"] by simp
next
  case (3 w v ws)
  have "subst_all children_text [] (children_text @ s) = subst_all children_text [] s" for s
    using subst_all_hit[of children_text "[]" s] by (simp add: children_text_def)
  with 3 show ?case
    by (simp add: erase_children_seg render_children del: render_seg.simps)
qed simp

lemma erase_quotes_segs:
  "\<forall>w \<in> set ws. good_comp w \<Longrightarrow>
   filter (\<lambda>x. x \<noteq> CHR 0x27) (concat (map (render_seg \<circ> comp_seg) ws)) = concat (map (\<lambda>w. CHR ''['' # w @ '']'') ws)"
proof (induction ws)
  case (Cons w ws)
  have "filter (\<lambda>x. x \<noteq> CHR 0x27) w = w"
    using Cons.prems by (auto simp: filter_id_conv good_comp_def)
  with Cons show ?case by (simp add: render_comp_seg del: render_seg.simps)
qed simp

lemma join_brackets:
  "ws \<noteq> [] \<Longrightarrow> \<forall>w \<in> set ws. good_comp w \<Longrightarrow>
   subst_all '']['' ''/'' (concat (map (\<lambda>w. CHR ''['' # w @ '']'') ws)) = CHR ''['' # join_with ''/'' ws @ '']''"
proof (induction ws)
  case (Cons w ws)
  have w: "CHR '']'' \<notin> set (CHR ''['' # w)" using Cons.prems by (auto simp: good_comp_def)
  have skip: "subst_all '']['' ''/'' ((CHR ''['' # w) @ s) = (CHR ''['' # w) @ subst_all '']['' ''/'' s" for s
    by (rule subst_all_skip) (use w in simp_all)
  show ?case
  proof (cases ws)
    case Nil
    then show ?thesis using skip[of "'']''"] by (simp add: subst_all_Cons)
  next
    case (Cons v vs)
    define t where "t = concat (map (\<lambda>w. CHR ''['' # w @ '']'') vs)"
    have IH: "subst_all '']['' ''/'' (CHR ''['' # v @ '']'' @ t) = CHR ''['' # join_with ''/'' ws @ '']''"
      using Cons.IH Cons.prems Cons by (simp add: t_def)
    have "subst_all '']['' ''/'' (CHR ''['' # v @ '']'' @ t) = CHR ''['' # subst_all '']['' ''/'' (v @ '']'' @ t)"
      by (rule subst_all_miss) simp
    with IH have tail: "subst_all '']['' ''/'' (v @ '']'' @ t) = join_with ''/'' ws @ '']''" by simp
    have "subst_all '']['' ''/'' ('']['' @ v @ '']'' @ t) = ''/'' @ subst_all '']['' ''/'' (v @ '']'' @ t)"
      by (rule subst_all_hit) simp
    then show ?thesis
      using skip[of "'']['' @ v @ '']'' @ t"] tail Cons by (simp add: t_def join_with_Cons)
  qed
qed simp

lemma jsontogen2_segs:
  assumes "boost_doc L" "ws \<noteq> []" "\<forall>w \<in> set ws. good_comp w"
  shows "jsontogen2 L (render_path (comps_segs ws)) = join_with ''/'' ws"
proof -
  let ?s = "concat (map render_seg (comps_segs ws))"
  have "subst_all children_text [] (''$'' @ ?s) = ''$'' @ subst_all children_text [] ?s"
    by (rule subst_all_skip) (simp_all add: children_text_def)
  then have g1: "subst_all children_text [] (render_path (comps_segs ws)) = CHR ''$'' # concat (map (render_seg \<circ> comp_seg) ws)"
    using erase_children_segs[OF assms(3)] by (simp add: render_path_def)
  have g3: "subst_all '']['' ''/'' (''$'' @ concat (map (\<lambda>w. CHR ''['' # w @ '']'') ws))
      = ''$'' @ CHR ''['' # join_with ''/'' ws @ '']''"
    using join_brackets[OF assms(2,3)] by (subst subst_all_skip) simp_all
  have g4: "subst_first ''$['' [] (''$['' @ join_with ''/'' ws @ '']'') = [] @ join_with ''/'' ws @ '']''"
    by (rule subst_first_hit) simp
  show ?thesis
    using g1 g3 g4 erase_quotes_segs[OF assms(3)] erase_last_snoc[of "'']''" "join_with ''/'' ws"]
    by (simp add: jsontogen2_def boost_docD[OF assms(1)] erase_all_char)
qed

definition good_path :: "string \<Rightarrow> bool" where
  "good_path s \<longleftrightarrow> list_all good_comp (split_on CHR ''/'' s)"

lemma jsontogen2_gen2tojson:
  "boost_doc L \<Longrightarrow> good_path s \<Longrightarrow> jsontogen2 L (gen2tojson L s) = s"
  using jsontogen2_segs[of L "split_on CHR ''/'' s"] join_split[of "CHR ''/''" s]
  by (simp add: gen2tojson_segs path_segs_def good_path_def list_all_iff)

text \<open>Segments are plain where the components are, so that a query can be asked with them.\<close>

lemma plain_path_segs:
  "list_all plain_name (split_on CHR ''/'' s) \<Longrightarrow> plain_path (path_segs s)"
proof -
  have "list_all plain_name ws \<Longrightarrow> plain_path (comps_segs ws)" for ws
    by (induction ws rule: comps_segs.induct) (auto simp: comp_seg_def plain_name_def)
  then show "list_all plain_name (split_on CHR ''/'' s) \<Longrightarrow> plain_path (path_segs s)"
    by (simp add: path_segs_def)
qed

end
