(* ===== verification/Channel.thy ===== *)
theory Channel
  imports Externals
begin

text \<open>
  \<open>include/KuksaChannel.hpp\<close>: the connection object every request runs with. A default
  constructor leaves \<open>connectionID\<close> and \<open>typeOfConnection\<close> indeterminate, so
  \<open>new_channel\<close> takes whatever they happen to hold as arguments. \<open>grpcSubsMap\<close> is a shared
  pointer: copies of a channel share the map it points to, so the field is an address.
\<close>

datatype conn_type = WEBSOCKET_PLAIN | WEBSOCKET_SSL | HTTP_PLAIN | HTTP_SSL | GRPC

record KuksaChannel =
  connectionID :: "64 word"
  authorized :: bool
  modifyTree :: bool
  authToken :: string
  permissions :: json
  typeOfConnection :: conn_type
  grpcSubsMap :: "nat option"

definition new_channel :: "64 word \<Rightarrow> conn_type \<Rightarrow> KuksaChannel" where
  "new_channel some_id some_type =
     \<lparr>connectionID = some_id, authorized = False, modifyTree = False, authToken = [],
      permissions = json_new, typeOfConnection = some_type, grpcSubsMap = None\<rparr>"

definition setConnID :: "64 word \<Rightarrow> KuksaChannel \<Rightarrow> KuksaChannel" where
  "setConnID conID c = c\<lparr>connectionID := conID\<rparr>"

definition setAuthorized :: "bool \<Rightarrow> KuksaChannel \<Rightarrow> KuksaChannel" where
  "setAuthorized isauth c = c\<lparr>authorized := isauth\<rparr>"

definition setAuthToken :: "string \<Rightarrow> KuksaChannel \<Rightarrow> KuksaChannel" where
  "setAuthToken tok c = c\<lparr>authToken := tok\<rparr>"

definition setPermissions :: "json \<Rightarrow> KuksaChannel \<Rightarrow> KuksaChannel" where
  "setPermissions perm c = c\<lparr>permissions := perm\<rparr>"

definition setType :: "conn_type \<Rightarrow> KuksaChannel \<Rightarrow> KuksaChannel" where
  "setType ty c = c\<lparr>typeOfConnection := ty\<rparr>"

definition enableModifyTree :: "KuksaChannel \<Rightarrow> KuksaChannel" where
  "enableModifyTree c = c\<lparr>modifyTree := True\<rparr>"

definition getConnID :: "KuksaChannel \<Rightarrow> 64 word" where
  "getConnID c = connectionID c"

definition isAuthorized :: "KuksaChannel \<Rightarrow> bool" where
  "isAuthorized c = authorized c"

definition authorizedToModifyTree :: "KuksaChannel \<Rightarrow> bool" where
  "authorizedToModifyTree c = modifyTree c"

definition getAuthToken :: "KuksaChannel \<Rightarrow> string" where
  "getAuthToken c = authToken c"

definition getPermissions :: "KuksaChannel \<Rightarrow> json" where
  "getPermissions c = permissions c"

definition getType :: "KuksaChannel \<Rightarrow> conn_type" where
  "getType c = typeOfConnection c"

text \<open>\<open>operator==\<close> on channels.\<close>

definition same_channel :: "KuksaChannel \<Rightarrow> KuksaChannel \<Rightarrow> bool" where
  "same_channel lh rh = (getConnID lh = getConnID rh)"

lemmas channel_defs = setConnID_def setAuthorized_def setAuthToken_def setPermissions_def
  setType_def enableModifyTree_def getConnID_def isAuthorized_def authorizedToModifyTree_def
  getAuthToken_def getPermissions_def getType_def

lemma same_channel_equivalence: "equivp same_channel"
  by (rule equivpI) (auto simp: same_channel_def reflp_def symp_def transp_def)

end
