(* ===== verification/VssTree.thy ===== *)
theory VssTree
  imports TreePaths VSSPath Channel
begin

text \<open>
  The state of \<open>VssDatabase\<close> and its read-only operations (\<open>src/VssDatabase.cpp\<close>): what kind of
  node a path names and which leaves lie under it. \<open>leaf_nodes\<close> is the abstract set of leaves of
  a tree; \<open>getLeafPaths\<close> is proved to enumerate it.
\<close>

record VssDatabase =
  data_tree :: json
  meta_tree :: json

section \<open>Kinds of nodes\<close>

definition has_type :: "json \<Rightarrow> string \<Rightarrow> bool" where
  "has_type element ty = (json_contains element ''type'' \<and> json_lookup element ''type'' = Some (JStr ty))"

definition isActor :: "json \<Rightarrow> bool" where
  "isActor element = has_type element ''actuator''"

definition isSensor :: "json \<Rightarrow> bool" where
  "isSensor element = has_type element ''sensor''"

definition isAttribute :: "json \<Rightarrow> bool" where
  "isAttribute element = has_type element ''attribute''"

text \<open>\<open>element["type"].as<string>() == ty\<close> after a check that the member is there.\<close>

definition type_text_is :: "'a lib_scheme \<Rightarrow> json \<Rightarrow> string \<Rightarrow> bool" where
  "type_text_is L element ty = (case json_lookup element ''type'' of None \<Rightarrow> False | Some t \<Rightarrow> as_string L t = ty)"

definition is_branch :: "'a lib_scheme \<Rightarrow> json \<Rightarrow> bool" where
  "is_branch L element = type_text_is L element ''branch''"

section \<open>Queries\<close>

definition pathExists :: "'a lib_scheme \<Rightarrow> VssDatabase \<Rightarrow> VSSPath \<Rightarrow> exn + bool" where
  "pathExists L db path =
     bindE (j_query L (data_tree db) (getJSONPath path)) (\<lambda>res.
       if length res = 0 then Inr False else Inr True)"

definition pathIsWritable :: "'a lib_scheme \<Rightarrow> VssDatabase \<Rightarrow> VSSPath \<Rightarrow> exn + bool" where
  "pathIsWritable L db path =
     bindE (j_query L (data_tree db) (getJSONPath path)) (\<lambda>res.
       if length res \<noteq> 1 then Inr False
       else if json_contains (res ! 0) ''type''
             \<and> (type_text_is L (res ! 0) ''sensor'' \<or> type_text_is L (res ! 0) ''actuator'')
       then Inr True else Inr False)"

definition pathIsAttributable :: "'a lib_scheme \<Rightarrow> VssDatabase \<Rightarrow> VSSPath \<Rightarrow> string \<Rightarrow> exn + bool" where
  "pathIsAttributable L db path attr =
     bindE (j_query L (data_tree db) (getJSONPath path)) (\<lambda>res.
       if length res < 1 then Inr False
       else if length res > 1 then Inr True
       else if attr = ''targetValue'' \<and> json_contains (res ! 0) ''type'' \<and> type_text_is L (res ! 0) ''actuator''
       then Inr True
       else if attr = ''value'' then Inr True
       else Inr False)"

definition pathIsReadable :: "'a lib_scheme \<Rightarrow> VssDatabase \<Rightarrow> VSSPath \<Rightarrow> exn + bool" where
  "pathIsReadable L db path =
     bindE (j_query L (data_tree db) (getJSONPath path)) (\<lambda>res.
       if length res \<noteq> 1 then Inr False
       else if isSensor (res ! 0) \<or> isActor (res ! 0) \<or> isAttribute (res ! 0) then Inr True
       else Inr False)"

definition getDatatypeForPath :: "'a lib_scheme \<Rightarrow> VssDatabase \<Rightarrow> VSSPath \<Rightarrow> exn + string" where
  "getDatatypeForPath L db path =
     bindE (pathExists L db path) (\<lambda>ex.
     if \<not> ex then Inl (NoPathFoundOnTree (to_string path)) else
     bindE (pathIsReadable L db path) (\<lambda>rd.
     if \<not> rd then
       Inl (GenException (to_string path @ '' does not contain a datatype because it is not a sensor/actuator/attribute.''))
     else
     bindE (j_query L (data_tree db) (getJSONPath path)) (\<lambda>resArray.
     bindE (elem_at resArray 0) (\<lambda>result.
     case json_lookup result ''datatype'' of
       Some dt \<Rightarrow> Inr (as_string L dt)
     | None \<Rightarrow> Inl (GenException (to_string path @ '' does not contain a datatype.''))))))"

text \<open>\<open>std::list::merge\<close>: an element of the argument goes first only where it is less.\<close>

fun list_merge :: "'a::preorder list \<Rightarrow> 'a list \<Rightarrow> 'a list" where
  "list_merge [] ys = ys"
| "list_merge xs [] = xs"
| "list_merge (x # xs) (y # ys) =
     (if y < x then y # list_merge (x # xs) ys else x # list_merge xs (y # ys))"

text \<open>What \<open>catch (jsonpath::jsonpath_error \&e)\<close> catches.\<close>

fun is_jsonpath_error :: "exn \<Rightarrow> bool" where
  "is_jsonpath_error (JsonpathError m) = True"
| "is_jsonpath_error _ = False"

text \<open>
  \<open>getLeafPaths\<close>. The code recurses into every branch; the fuel bounds the depth of the
  recursion, and running out of it is the endless recursion of a stack overflow.
\<close>

fun leaf_paths :: "nat \<Rightarrow> 'a lib_scheme \<Rightarrow> VssDatabase \<Rightarrow> VSSPath \<Rightarrow> exn + VSSPath list"
  and leaf_paths_loop :: "nat \<Rightarrow> 'a lib_scheme \<Rightarrow> VssDatabase \<Rightarrow> bool \<Rightarrow> string list \<Rightarrow> VSSPath list \<Rightarrow> exn + VSSPath list" where
  "leaf_paths 0 L db path = Inl Undefined"
| "leaf_paths (Suc n) L db path =
     (let path_is_gen1 = isGen1Origin path
      in case j_query_paths L (data_tree db) (getJSONPath path) of
           Inl e \<Rightarrow> if is_jsonpath_error e then Inr [] else Inl e
         | Inr pathRes \<Rightarrow> leaf_paths_loop n L db path_is_gen1 pathRes [])"
| "leaf_paths_loop n L db path_is_gen1 [] paths = Inr paths"
| "leaf_paths_loop n L db path_is_gen1 (jpath # rest) paths =
     bindE (j_query L (data_tree db) jpath) (\<lambda>resArray.
     if length resArray = 0 then leaf_paths_loop n L db path_is_gen1 rest paths
     else if is_branch L (resArray ! 0) then
       (let recursepath = fromJSON L (jpath @ children_text @ ''[*]'') path_is_gen1
        in bindE (leaf_paths n L db recursepath) (\<lambda>more.
             leaf_paths_loop n L db path_is_gen1 rest (list_merge paths more)))
     else leaf_paths_loop n L db path_is_gen1 rest (paths @ [fromJSON L jpath path_is_gen1]))"

definition getLeafPaths :: "'a lib_scheme \<Rightarrow> VssDatabase \<Rightarrow> VSSPath \<Rightarrow> exn + VSSPath list" where
  "getLeafPaths L db path = leaf_paths (Suc (size (data_tree db))) L db path"

definition checkPathValid :: "'a lib_scheme \<Rightarrow> VssDatabase \<Rightarrow> VSSPath \<Rightarrow> exn + bool" where
  "checkPathValid L db path = bindE (getLeafPaths L db path) (\<lambda>ps. Inr (ps \<noteq> []))"

section \<open>Queries under the documented behaviour of JSONPath\<close>

text \<open>A path whose JSONPath the library is asked with is one of the fragment.\<close>

definition denotes :: "VSSPath \<Rightarrow> seg list \<Rightarrow> bool" where
  "denotes path ss \<longleftrightarrow> getJSONPath path = render_path ss \<and> plain_path ss"

lemma query_denotes:
  "jsonpath_doc L \<Longrightarrow> denotes path ss \<Longrightarrow> j_query L t (getJSONPath path) = Inr (map snd (path_nodes ss t))"
  by (simp add: denotes_def jsonpath_query)

lemma fromVSS_denotes:
  assumes "boost_doc L" "list_all plain_name (split_on CHR ''/'' (gen1togen2 s))"
  shows "denotes (fromVSS L s) (path_segs (gen1togen2 s))"
  using assms plain_path_segs
  by (simp add: denotes_def jsonpath_fromVSS vsspath_fromVSS gen2tojson_segs)

lemma fromJSON_denotes: "plain_path ss \<Longrightarrow> denotes (fromJSON L (render_path ss) g) ss"
  by (simp add: denotes_def vsspath_defs)

lemma pathExists_iff:
  "jsonpath_doc L \<Longrightarrow> denotes path ss \<Longrightarrow> pathExists L db path = Inr (path_nodes ss (data_tree db) \<noteq> [])"
  by (simp add: pathExists_def query_denotes)

lemma single_node: "length xs = 1 \<Longrightarrow> \<exists>q v. xs = [(q, v)]"
  by (cases xs) auto

lemma pathIsWritable_iff:
  assumes "jsonpath_doc L" "denotes path ss"
  shows "pathIsWritable L db path = Inr (\<exists>q v. path_nodes ss (data_tree db) = [(q, v)]
    \<and> (type_text_is L v ''sensor'' \<or> type_text_is L v ''actuator''))"
proof (cases "length (path_nodes ss (data_tree db)) = 1")
  case True
  from single_node[OF True] obtain q v where "path_nodes ss (data_tree db) = [(q, v)]" by auto
  then show ?thesis
    by (auto simp: pathIsWritable_def query_denotes[OF assms] type_text_is_def json_contains_lookup)
next
  case False
  then show ?thesis by (auto simp: pathIsWritable_def query_denotes[OF assms])
qed

lemma pathIsReadable_iff:
  assumes "jsonpath_doc L" "denotes path ss"
  shows "pathIsReadable L db path = Inr (\<exists>q v. path_nodes ss (data_tree db) = [(q, v)]
    \<and> (isSensor v \<or> isActor v \<or> isAttribute v))"
proof (cases "length (path_nodes ss (data_tree db)) = 1")
  case True
  from single_node[OF True] obtain q v where "path_nodes ss (data_tree db) = [(q, v)]" by auto
  then show ?thesis by (auto simp: pathIsReadable_def query_denotes[OF assms])
next
  case False
  then show ?thesis by (auto simp: pathIsReadable_def query_denotes[OF assms])
qed

lemma pathIsAttributable_single:
  assumes "jsonpath_doc L" "denotes path ss" "path_nodes ss (data_tree db) = [(q, v)]"
  shows "pathIsAttributable L db path attr
    = Inr (attr = ''value'' \<or> attr = ''targetValue'' \<and> type_text_is L v ''actuator'')"
  by (auto simp: pathIsAttributable_def query_denotes[OF assms(1,2)] assms(3) type_text_is_def json_contains_lookup)

text \<open>Writable paths are readable: what can be set can be subscribed to.\<close>

lemma writable_readable:
  assumes "jsonpath_doc L" "denotes path ss" "pathIsWritable L db path = Inr True"
    and types: "\<And>q v t. (q, v) \<in> set (path_nodes ss (data_tree db)) \<Longrightarrow> json_lookup v ''type'' = Some t \<Longrightarrow> \<exists>s. t = JStr s"
  shows "pathIsReadable L db path = Inr True"
  using assms(3) types
  by (fastforce simp: pathIsWritable_iff[OF assms(1,2)] pathIsReadable_iff[OF assms(1,2)] type_text_is_def
      isSensor_def isActor_def has_type_def json_contains_lookup split: option.splits)

section \<open>Leaves\<close>

lemma mset_list_merge: "mset (list_merge xs ys) = mset xs + mset ys"
  by (induction xs ys rule: list_merge.induct) auto

abbreviation below :: "seg list" where
  "below \<equiv> [Name ''children'', Wild]"

function leaf_nodes :: "'a lib_scheme \<Rightarrow> seg list \<Rightarrow> json \<Rightarrow> seg list list" where
  "leaf_nodes L q v =
     (if is_branch L v then concat (map (\<lambda>(p, c). leaf_nodes L (q @ p) c) (path_nodes below v)) else [q])"
  by pat_completeness auto
termination
proof (relation "measure (\<lambda>(L, q, v). size v)", goal_cases)
  case (2 L q v x p c)
  then have "(p, c) \<in> set (path_nodes below v)" by simp
  from path_nodes_size[OF this] show ?case by simp
qed simp

declare leaf_nodes.simps [simp del]

lemma render_below: "render_path q @ children_text @ ''[*]'' = render_path (q @ below)"
  by (simp add: render_path_def render_children del: render_seg.simps(1))

lemma plain_below: "plain_path q \<Longrightarrow> plain_path (q @ below)"
  by (simp add: plain_name_def)

definition leaf_result :: "'a lib_scheme \<Rightarrow> bool \<Rightarrow> seg list list \<Rightarrow> VSSPath multiset" where
  "leaf_result L g qs = mset (map (\<lambda>q. fromJSON L (render_path q) g) qs)"

lemma leaf_result_append [simp]: "leaf_result L g (a @ b) = leaf_result L g a + leaf_result L g b"
  by (simp add: leaf_result_def)

lemma leaf_result_Nil [simp]: "leaf_result L g [] = {#}"
  by (simp add: leaf_result_def)

text \<open>
  The recursion on nodes that exist: the loop over their paths collects the leaves under each,
  when there is more fuel than any of them is deep.
\<close>

lemma leaf_paths_nodes:
  assumes L: "jsonpath_doc L" and wf: "wf_tree (data_tree db)"
  shows "denotes path ss \<Longrightarrow> (\<And>q v. (q, v) \<in> set (path_nodes ss (data_tree db)) \<Longrightarrow> size v < n) \<Longrightarrow>
      \<exists>ps. leaf_paths (Suc n) L db path = Inr ps
        \<and> mset ps = leaf_result L (isGen1Origin path)
            (concat (map (\<lambda>(q, v). leaf_nodes L q v) (path_nodes ss (data_tree db))))"
proof (induction n arbitrary: path ss rule: less_induct)
  case (less n)
  let ?t = "data_tree db" and ?g = "isGen1Origin path"
  have loop: "\<exists>ps. leaf_paths_loop n L db ?g (map (\<lambda>a. render_path (fst a)) ns) acc = Inr ps
      \<and> mset ps = mset acc + leaf_result L ?g (concat (map (\<lambda>(q, v). leaf_nodes L q v) ns))"
    if "set ns \<subseteq> set (path_nodes ss ?t)" for ns acc
    using that
  proof (induction ns arbitrary: acc)
    case (Cons qv ns)
    obtain q v where qv: "qv = (q, v)" by (cases qv)
    with Cons.prems have qin: "(q, v) \<in> set (path_nodes ss ?t)" by auto
    from path_nodes_own[OF wf qin] have own: "plain_path q" "path_nodes q ?t = [(q, v)]" by auto
    from jsonpath_query[OF L own(1)] own(2) have query: "j_query L ?t (render_path q) = Inr [v]" by simp
    show ?case
    proof (cases "is_branch L v")
      case True
      have size: "size v < n" using less.prems(2)[OF qin] .
      then obtain m where m: "n = Suc m" "size v \<le> m" by (cases n) auto
      have below_nodes: "path_nodes (q @ below) ?t = map (\<lambda>(p, c). (q @ p, c)) (path_nodes below v)"
        by (simp add: path_nodes_append own(2) del: path_nodes.simps)
      have smaller: "size c < m" if "(r, c) \<in> set (path_nodes (q @ below) ?t)" for r c
        using that path_nodes_size[of _ _ below v] m(2) by (fastforce simp: below_nodes simp del: path_nodes.simps)
      have "\<exists>ps. leaf_paths (Suc m) L db (fromJSON L (render_path (q @ below)) ?g) = Inr ps
          \<and> mset ps = leaf_result L (isGen1Origin (fromJSON L (render_path (q @ below)) ?g))
              (concat (map (\<lambda>(q, v). leaf_nodes L q v) (path_nodes (q @ below) ?t)))"
        by (rule less.IH) (use m(1) fromJSON_denotes[OF plain_below[OF own(1)]] smaller in blast)+
      then obtain ps where ps: "leaf_paths n L db (fromJSON L (render_path (q @ below)) ?g) = Inr ps"
          "mset ps = leaf_result L ?g (concat (map (\<lambda>(q, v). leaf_nodes L q v) (path_nodes (q @ below) ?t)))"
        using m(1) by (auto simp: vsspath_defs simp del: leaf_paths.simps path_nodes.simps)
      have leaves: "leaf_nodes L q v = concat (map (\<lambda>(q, v). leaf_nodes L q v) (path_nodes (q @ below) ?t))"
        using True by (subst leaf_nodes.simps) (simp add: below_nodes comp_def split_def del: path_nodes.simps)
      from Cons.IH[of "list_merge acc ps"] Cons.prems
      obtain ps' where "leaf_paths_loop n L db ?g (map (\<lambda>a. render_path (fst a)) ns) (list_merge acc ps) = Inr ps'"
          "mset ps' = mset (list_merge acc ps) + leaf_result L ?g (concat (map (\<lambda>(q, v). leaf_nodes L q v) ns))"
        by auto
      with ps leaves query qv True show ?thesis
        by (auto simp: render_below mset_list_merge add.assoc simp del: path_nodes.simps)
    next
      case False
      then have "leaf_nodes L q v = [q]" by (subst leaf_nodes.simps) simp
      moreover from Cons.IH[of "acc @ [fromJSON L (render_path q) ?g]"] Cons.prems
      obtain ps' where "leaf_paths_loop n L db ?g (map (\<lambda>a. render_path (fst a)) ns) (acc @ [fromJSON L (render_path q) ?g]) = Inr ps'"
          "mset ps' = mset (acc @ [fromJSON L (render_path q) ?g]) + leaf_result L ?g (concat (map (\<lambda>(q, v). leaf_nodes L q v) ns))"
        by auto
      ultimately show ?thesis
        using query qv False by (auto simp: leaf_result_def)
    qed
  qed simp
  have "j_query_paths L ?t (getJSONPath path) = Inr (map (\<lambda>a. render_path (fst a)) (path_nodes ss ?t))"
    using jsonpath_paths[OF L _ path_nodes_plain[OF wf]] less.prems(1) by (simp add: denotes_def comp_def)
  with loop[of "path_nodes ss ?t" "[]"] show ?case by auto
qed

lemma getLeafPaths_leaves:
  assumes "jsonpath_doc L" "wf_tree (data_tree db)" "denotes path (s # ss)"
  shows "\<exists>ps. getLeafPaths L db path = Inr ps
    \<and> mset ps = leaf_result L (isGen1Origin path)
        (concat (map (\<lambda>(q, v). leaf_nodes L q v) (path_nodes (s # ss) (data_tree db))))"
proof -
  have "\<And>q v. (q, v) \<in> set (path_nodes (s # ss) (data_tree db)) \<Longrightarrow> size v < size (data_tree db)"
    using path_nodes_size by fastforce
  from leaf_paths_nodes[OF assms this] show ?thesis by (simp only: getLeafPaths_def)
qed

text \<open>Every leaf listed is a node of the tree that is not a branch, reached through the path asked for.\<close>

lemma leaf_nodes_sound:
  "path_nodes q t = [(q, v)] \<Longrightarrow> wf_tree t \<Longrightarrow> r \<in> set (leaf_nodes L q v) \<Longrightarrow>
   prefix q r \<and> (\<exists>w. path_nodes r t = [(r, w)] \<and> \<not> is_branch L w)"
proof (induction L q v rule: leaf_nodes.induct)
  case (1 L q v)
  show ?case
  proof (cases "is_branch L v")
    case True
    with "1.prems"(3) obtain p c where pc: "(p, c) \<in> set (path_nodes below v)" "r \<in> set (leaf_nodes L (q @ p) c)"
      by (subst (asm) leaf_nodes.simps) (auto simp del: path_nodes.simps)
    have "(q @ p, c) \<in> set (path_nodes (q @ below) t)"
      using pc(1) "1.prems"(1) by (force simp: path_nodes_append simp del: path_nodes.simps)
    with path_nodes_own[OF "1.prems"(2)] have "path_nodes (q @ p) t = [(q @ p, c)]" by blast
    from "1.IH"[OF True pc(1) refl this "1.prems"(2) pc(2)] show ?thesis
      by (auto dest: append_prefixD)
  next
    case False
    with "1.prems" show ?thesis by (subst (asm) leaf_nodes.simps) auto
  qed
qed

text \<open>A path to a single leaf expands to itself.\<close>

lemma getLeafPaths_single:
  assumes L: "jsonpath_doc L" and path: "denotes path ss" and node: "path_nodes ss (data_tree db) = [(ss, v)]" and leaf: "\<not> is_branch L v"
  shows "getLeafPaths L db path = Inr [fromJSON L (getJSONPath path) (isGen1Origin path)]"
proof -
  from path have json: "getJSONPath path = render_path ss" and plain: "plain_path ss" by (simp_all add: denotes_def)
  have "j_query_paths L (data_tree db) (getJSONPath path) = Inr [render_path ss]"
    using jsonpath_paths[OF L plain, of "data_tree db"] plain by (simp add: node json)
  moreover have "j_query L (data_tree db) (render_path ss) = Inr [v]"
    using jsonpath_query[OF L plain, of "data_tree db"] by (simp add: node)
  ultimately show ?thesis
    using leaf by (simp add: getLeafPaths_def json)
qed

end
