(* ===== verification/JsonResponses.thy ===== *)
theory JsonResponses
  imports Channel
begin

text \<open>
  \<open>src/JsonResponses.cpp\<close>: the error answers of the protocol, and the conversion of the stored
  \<open>ts_s\<close>/\<open>ts_ns\<close> pair into an ISO 8601 text. The readings of the clock (\<open>std::time\<close>,
  \<open>timespec_get\<close>) are arguments; the text \<open>getTimeStamp\<close> makes of a reading is passed as \<open>ts\<close>
  to the builders.
\<close>

section \<open>Calendar time\<close>

text \<open>
  \<open>gmtime\<close>: broken-down UTC time of a count of seconds since 1970, in the proleptic Gregorian
  calendar. Years are counted from the first of March within 400-year eras.
\<close>

record tm =
  tm_year :: int
  tm_mon :: int
  tm_mday :: int
  tm_hour :: int
  tm_min :: int
  tm_sec :: int

definition gmtime :: "int \<Rightarrow> tm" where
  "gmtime t =
     (let days = t div 86400; secs = t mod 86400;
          z = days + 719468;
          era = z div 146097;
          doe = z mod 146097;
          yoe = (doe - doe div 1460 + doe div 36524 - doe div 146096) div 365;
          doy = doe - (365 * yoe + yoe div 4 - yoe div 100);
          mp = (5 * doy + 2) div 153;
          d = doy - (153 * mp + 2) div 5 + 1;
          m = (if mp < 10 then mp + 3 else mp - 9);
          y = yoe + era * 400 + (if m \<le> 2 then 1 else 0)
      in \<lparr>tm_year = y, tm_mon = m, tm_mday = d,
          tm_hour = secs div 3600, tm_min = secs div 60 mod 60, tm_sec = secs mod 60\<rparr>)"

definition two_digits :: "int \<Rightarrow> string" where
  "two_digits i = (if i < 10 then CHR ''0'' # show_int i else show_int i)"

text \<open>\<open>strftime\<close> with the format \<open>%FT%T\<close>.\<close>

definition format_FT_T :: "tm \<Rightarrow> string" where
  "format_FT_T t = show_int (tm_year t) @ ''-'' @ two_digits (tm_mon t) @ ''-'' @ two_digits (tm_mday t)
     @ ''T'' @ two_digits (tm_hour t) @ '':'' @ two_digits (tm_min t) @ '':'' @ two_digits (tm_sec t)"

text \<open>
  \<open>put_time(gmtime(now), "%FT%T.%sZ")\<close>: the conversion \<open>%s\<close> is the number of seconds since the
  epoch of the broken-down time read as local time, \<open>utc_offset\<close> seconds east of UTC.
\<close>

definition getTimeStamp :: "int \<Rightarrow> int \<Rightarrow> string" where
  "getTimeStamp utc_offset now = format_FT_T (gmtime now) @ ''.'' @ show_int (now - utc_offset) @ ''Z''"

definition getTimeStampZero :: string where
  "getTimeStampZero = ''1970-01-01T00:00:00.0Z''"

section \<open>Error answers\<close>

definition malFormedRequest_into :: "string \<Rightarrow> string \<Rightarrow> string \<Rightarrow> string \<Rightarrow> json \<Rightarrow> json" where
  "malFormedRequest_into ts request_id action message resp =
     (let r1 = json_set resp ''action'' (JStr action);
          r2 = json_set r1 ''requestId'' (JStr request_id);
          error = json_build [(''number'', JStr ''400''), (''reason'', JStr ''Bad Request''), (''message'', JStr message)];
          r3 = json_set r2 ''error'' error
      in json_set r3 ''ts'' (JStr ts))"

definition malFormedRequest :: "string \<Rightarrow> string \<Rightarrow> string \<Rightarrow> string \<Rightarrow> json" where
  "malFormedRequest ts request_id action message = malFormedRequest_into ts request_id action message json_new"

definition malFormedMessage_into :: "string \<Rightarrow> string \<Rightarrow> json \<Rightarrow> string \<Rightarrow> json" where
  "malFormedMessage_into ts message resp requestId =
     (let error = json_build [(''number'', JStr ''400''), (''reason'', JStr ''Bad Request''), (''message'', JStr message)];
          r1 = json_set resp ''error'' error;
          r2 = json_set r1 ''requestId'' (JStr requestId)
      in json_set r2 ''ts'' (JStr ts))"

definition malFormedMessage :: "string \<Rightarrow> string \<Rightarrow> string \<Rightarrow> json" where
  "malFormedMessage ts message requestId = malFormedMessage_into ts message json_new requestId"

definition notSetResponse_into :: "string \<Rightarrow> string \<Rightarrow> json \<Rightarrow> string \<Rightarrow> json" where
  "notSetResponse_into ts message resp requestId =
     (let error = json_build [(''number'', JStr ''404''), (''reason'', JStr ''unavailable_data''), (''message'', JStr message)];
          r1 = json_set resp ''error'' error;
          r2 = json_set r1 ''requestId'' (JStr requestId);
          r3 = json_set r2 ''ts'' (JStr ts)
      in json_set r3 ''action'' (JStr ''get''))"

definition notSetResponse :: "string \<Rightarrow> string \<Rightarrow> string \<Rightarrow> json" where
  "notSetResponse ts request_id message = notSetResponse_into ts message json_new request_id"

definition pathNotFound_into :: "string \<Rightarrow> string \<Rightarrow> string \<Rightarrow> string \<Rightarrow> json \<Rightarrow> json" where
  "pathNotFound_into ts request_id action path resp =
     (let r1 = json_set resp ''action'' (JStr action);
          r2 = json_set r1 ''requestId'' (JStr request_id);
          error = json_build [(''number'', JStr ''404''), (''reason'', JStr ''Path not found''),
                              (''message'', JStr (''I can not find '' @ path @ '' in my db''))];
          r3 = json_set r2 ''error'' error
      in json_set r3 ''ts'' (JStr ts))"

definition pathNotFound :: "string \<Rightarrow> string \<Rightarrow> string \<Rightarrow> string \<Rightarrow> json" where
  "pathNotFound ts request_id action path = pathNotFound_into ts request_id action path json_new"

definition noAccess_into :: "string \<Rightarrow> string \<Rightarrow> string \<Rightarrow> string \<Rightarrow> json \<Rightarrow> json" where
  "noAccess_into ts request_id action message resp =
     (let r1 = json_set resp ''action'' (JStr action);
          r2 = json_set r1 ''requestId'' (JStr request_id);
          error = json_build [(''number'', JStr ''403''), (''reason'', JStr ''Forbidden''), (''message'', JStr message)];
          r3 = json_set r2 ''error'' error
      in json_set r3 ''ts'' (JStr ts))"

definition noAccess :: "string \<Rightarrow> string \<Rightarrow> string \<Rightarrow> string \<Rightarrow> json" where
  "noAccess ts request_id action message = noAccess_into ts request_id action message json_new"

definition valueOutOfBounds_into :: "string \<Rightarrow> string \<Rightarrow> string \<Rightarrow> string \<Rightarrow> json \<Rightarrow> json" where
  "valueOutOfBounds_into ts request_id action message resp =
     (let r1 = json_set resp ''action'' (JStr action);
          r2 = json_set r1 ''requestId'' (JStr request_id);
          error = json_build [(''number'', JStr ''400''), (''reason'', JStr ''Value passed is out of bounds''), (''message'', JStr message)];
          r3 = json_set r2 ''error'' error
      in json_set r3 ''ts'' (JStr ts))"

definition valueOutOfBounds :: "string \<Rightarrow> string \<Rightarrow> string \<Rightarrow> string \<Rightarrow> json" where
  "valueOutOfBounds ts request_id action message = valueOutOfBounds_into ts request_id action message json_new"

lemmas response_defs =
  malFormedRequest_into_def malFormedRequest_def malFormedMessage_into_def malFormedMessage_def
  notSetResponse_into_def notSetResponse_def pathNotFound_into_def pathNotFound_def
  noAccess_into_def noAccess_def valueOutOfBounds_into_def valueOutOfBounds_def Let_def

text \<open>
  What a client can rely on: an answer to a request is an object that names the request and
  either carries an \<open>error\<close> with the three members or does not.
\<close>

definition error_answer :: "string \<Rightarrow> string \<Rightarrow> string \<Rightarrow> json \<Rightarrow> bool" where
  "error_answer request_id number reason j \<longleftrightarrow>
     json_lookup j ''requestId'' = Some (JStr request_id)
   \<and> (\<exists>e m. json_lookup j ''error'' = Some e \<and> json_lookup e ''number'' = Some (JStr number)
        \<and> json_lookup e ''reason'' = Some (JStr reason) \<and> json_lookup e ''message'' = Some (JStr m))
   \<and> (\<exists>t. json_lookup j ''ts'' = Some (JStr t))"

lemma error_answers [simp]:
  "error_answer rid ''400'' ''Bad Request'' (malFormedRequest ts rid a m)"
  "error_answer rid ''400'' ''Bad Request'' (malFormedMessage ts m rid)"
  "error_answer rid ''404'' ''unavailable_data'' (notSetResponse ts rid m)"
  "error_answer rid ''404'' ''Path not found'' (pathNotFound ts rid a p)"
  "error_answer rid ''403'' ''Forbidden'' (noAccess ts rid a m)"
  "error_answer rid ''400'' ''Value passed is out of bounds'' (valueOutOfBounds ts rid a m)"
  by (simp_all add: error_answer_def response_defs json_build_def)

section \<open>Time stamps in data points\<close>

text \<open>\<open>addTimeStampToJSON\<close>, with the reading \<open>(tv_sec, tv_nsec)\<close> of \<open>timespec_get\<close>.\<close>

definition addTimeStampToJSON :: "int \<times> int \<Rightarrow> json \<Rightarrow> string \<Rightarrow> json" where
  "addTimeStampToJSON clock jsontarget sfx =
     (let j1 = json_set jsontarget (''ts_s'' @ sfx) (JInt (fst clock))
      in json_set j1 (''ts_ns'' @ sfx) (JInt (snd clock)))"

text \<open>
  The year \<open>gmtime\<close> can represent fits an \<open>int\<close> counted from 1900; beyond it returns a null
  pointer, which \<open>strftime\<close> dereferences.
\<close>

definition gmtime_fits :: "int \<Rightarrow> bool" where
  "gmtime_fits t \<longleftrightarrow> - (2 ^ 31) \<le> tm_year (gmtime t) - 1900 \<and> tm_year (gmtime t) - 1900 < 2 ^ 31"

fun int_of_num :: "numval \<Rightarrow> int" where
  "int_of_num (IVal i) = i"
| "int_of_num (FVal f) = 0"

definition convertJSONTimeStampToISO8601 :: "'a lib_scheme \<Rightarrow> json \<Rightarrow> exn + json" where
  "convertJSONTimeStampToISO8601 L jsontarget =
     (if \<not> (json_contains jsontarget ''ts_s'' \<and> json_contains jsontarget ''ts_ns'') then
        (let j1 = json_set jsontarget ''ts'' (JStr getTimeStampZero);
             j2 = (if json_contains j1 ''ts_s'' then json_erase j1 ''ts_s'' else j1);
             j3 = (if json_contains j2 ''ts_ns'' then json_erase j2 ''ts_ns'' else j2)
         in Inr j3)
      else
        bindE (json_at jsontarget ''ts_s'') (\<lambda>s.
        bindE (j_num L U64 s) (\<lambda>s'.
        bindE (json_at jsontarget ''ts_ns'') (\<lambda>ns.
        bindE (j_num L U32 ns) (\<lambda>ns'.
          let tv_sec = sint (word_of_int (int_of_num s') :: 64 word);
              tv_nsec = int_of_num ns'
          in if \<not> gmtime_fits tv_sec then Inl Undefined
             else
               let j1 = json_erase jsontarget ''ts_s'';
                   j2 = json_erase j1 ''ts_ns'';
                   iso8601time = format_FT_T (gmtime tv_sec) @ ''.''
               in Inr (json_set j2 ''ts'' (JStr (iso8601time @ show_int tv_nsec @ ''Z''))))))))"

text \<open>The number a decimal fraction denotes.\<close>

definition fraction_value :: "string \<Rightarrow> rat" where
  "fraction_value s = of_nat (read_nat s) / 10 ^ length s"

lemma show_int_nonneg: "0 \<le> i \<Longrightarrow> show_int i = show_nat (nat i)"
  by (simp add: show_int_def)

lemma fraction_value_show:
  assumes "n < 10 ^ 9"
  shows "fraction_value (show_nat n) = of_nat n / 10 ^ 9 \<longleftrightarrow> n = 0 \<or> 10 ^ 8 \<le> n"
proof (cases "n = 0")
  case True
  then show ?thesis by (simp add: fraction_value_def read_show_nat)
next
  case False
  then have n: "0 < n" by simp
  have "fraction_value (show_nat n) = of_nat n / 10 ^ 9 \<longleftrightarrow> (10::rat) ^ length (show_nat n) = 10 ^ 9"
    using n by (simp add: fraction_value_def read_show_nat field_simps)
  also have "\<dots> \<longleftrightarrow> length (show_nat n) = 9"
    using power_inject_exp[of "10::rat" "length (show_nat n)" 9] by simp
  also have "\<dots> \<longleftrightarrow> 10 ^ 8 \<le> n"
    using show_nat_length_eq[OF n, of 8] assms by simp
  finally show ?thesis using n by simp
qed

lemma fraction_value_bounds:
  assumes "n < 10 ^ 9"
  shows "fraction_value (show_nat n) < 1" "0 < n \<Longrightarrow> n < 10 ^ 8 \<Longrightarrow> of_nat n / 10 ^ 9 < fraction_value (show_nat n)"
proof -
  have "of_nat n < (10 ^ length (show_nat n) :: rat)" using show_nat_bound[of n] by (metis of_nat_less_iff of_nat_power of_nat_numeral)
  then show "fraction_value (show_nat n) < 1" by (simp add: fraction_value_def read_show_nat)
  assume n: "0 < n" "n < 10 ^ 8"
  obtain l where l: "length (show_nat n) = Suc l" by (metis show_nat_not_Nil length_0_conv nat.exhaust)
  then have "10 ^ l \<le> n" using show_nat_length_eq[OF n(1), of l] by simp
  from this n(2) have "(10::nat) ^ l < 10 ^ 8" by (rule le_less_trans)
  then have "length (show_nat n) < 9" using l by (simp only: power_strict_increasing_iff)
  then have "(10::rat) ^ length (show_nat n) < 10 ^ 9" by (intro power_strict_increasing) simp_all
  then show "of_nat n / 10 ^ 9 < fraction_value (show_nat n)"
    unfolding fraction_value_def read_show_nat using n(1) by (intro divide_strict_left_mono) simp_all
qed

lemma sint_word64: "0 \<le> i \<Longrightarrow> i < 2 ^ 63 \<Longrightarrow> sint (word_of_int i :: 64 word) = i"
  by (simp add: sint_word_ariths signed_take_bit_int_eq_self sint_sbintrunc')

lemma convert_with_stamps:
  assumes L: "num_doc L" and obj: "json_lookup j ''ts_s'' = Some (JInt s)" "json_lookup j ''ts_ns'' = Some (JInt ns)"
    and s: "0 \<le> s" "s < 2 ^ 63" "gmtime_fits s" and ns: "0 \<le> ns" "ns < 10 ^ 9"
  shows "convertJSONTimeStampToISO8601 L j
    = Inr (json_set (json_erase (json_erase j ''ts_s'') ''ts_ns'') ''ts''
             (JStr (format_FT_T (gmtime s) @ ''.'' @ show_nat (nat ns) @ ''Z'')))"
proof -
  have t: "num_typed U64 (IVal s)" "num_typed U32 (IVal ns)"
    using s ns by (simp_all add: num_min_def num_max_def)
  show ?thesis
    using obj s ns
    by (simp add: convertJSONTimeStampToISO8601_def json_contains_lookup json_at_lookup
        num_doc_int[OF L t(1)] num_doc_int[OF L t(2)] sint_word64 show_int_nonneg Let_def)
qed

end
