(* ===== verification/AccessChecker.thy ===== *)
theory AccessChecker
  imports VSSPath Channel
begin

text \<open>
  \<open>src/AccessChecker.cpp\<close>: may a channel read, or write, a path? The permissions of a channel are
  the JSON text the authenticator stored, an object from path patterns to permission strings.
  \<open>effective_permission\<close> is the abstract policy: the entry of the path itself, else the last
  pattern in key order that matches it.
\<close>

section \<open>The checker\<close>

text \<open>\<open>get_with_default(path, "")\<close> with a string default.\<close>

fun get_with_default :: "'a lib_scheme \<Rightarrow> json \<Rightarrow> string \<Rightarrow> string \<Rightarrow> exn + string" where
  "get_with_default L (JObj kvs) k d = (case map_of kvs k of None \<Rightarrow> Inr d | Some v \<Rightarrow> Inr (as_string L v))"
| "get_with_default L JNull k d = Inr d"
| "get_with_default L _ k d = Inl NotAnObject"

text \<open>\<open>regex_replace(s, "\\*", ".*")\<close>: every star becomes a dot and a star.\<close>

definition star_to_any :: "string \<Rightarrow> string" where
  "star_to_any s = concat (map (\<lambda>c. if c = CHR ''*'' then ''.*'' else [c]) s)"

text \<open>The loop over the permissions; \<open>permissionValue\<close> is its accumulator.\<close>

fun match_permissions :: "'a lib_scheme \<Rightarrow> string \<Rightarrow> (string \<times> json) list \<Rightarrow> string \<Rightarrow> exn + string" where
  "match_permissions L path [] permissionValue = Inr permissionValue"
| "match_permissions L path ((pathString, value) # rest) permissionValue =
     bindE (re_match L (star_to_any pathString) path) (\<lambda>matches.
       match_permissions L path rest (if matches then as_string L value else permissionValue))"

definition checkSignalAccess :: "'a lib_scheme \<Rightarrow> KuksaChannel \<Rightarrow> string \<Rightarrow> string \<Rightarrow> exn + bool" where
  "checkSignalAccess L channel path requiredPermission =
     bindE (if \<not> json_empty (getPermissions channel) then j_parse L (as_string L (getPermissions channel))
            else j_parse L ''{}'') (\<lambda>permissions.
     bindE (get_with_default L permissions path []) (\<lambda>exact.
     bindE (if exact = [] then
              bindE (j_members L permissions) (\<lambda>members. match_permissions L path members exact)
            else Inr exact) (\<lambda>permissionValue.
     Inr (contains_sub permissionValue requiredPermission))))"

definition checkReadAccess :: "'a lib_scheme \<Rightarrow> KuksaChannel \<Rightarrow> VSSPath \<Rightarrow> exn + bool" where
  "checkReadAccess L channel path = checkSignalAccess L channel (getVSSGen1Path path) ''r''"

definition checkWriteAccess :: "'a lib_scheme \<Rightarrow> KuksaChannel \<Rightarrow> VSSPath \<Rightarrow> exn + bool" where
  "checkWriteAccess L channel path = checkSignalAccess L channel (getVSSGen1Path path) ''w''"

text \<open>
  \<open>checkPathWriteAccess\<close>: the first path without write access ends the loop. A value that is
  not an array has no \<open>[i]\<close>; \<open>paths.size()\<close> is then 0 except for an object, whose elements
  cannot be indexed.
\<close>

fun check_write_items :: "'a lib_scheme \<Rightarrow> KuksaChannel \<Rightarrow> json list \<Rightarrow> exn + bool" where
  "check_write_items L channel [] = Inr True"
| "check_write_items L channel (item # items) =
     bindE (json_at item ''path'') (\<lambda>jp.
     let path = fromJSON L (as_string L jp) False in
     bindE (checkWriteAccess L channel path) (\<lambda>ok.
     if \<not> ok then Inr False else check_write_items L channel items))"

definition checkPathWriteAccess :: "'a lib_scheme \<Rightarrow> KuksaChannel \<Rightarrow> json \<Rightarrow> exn + bool" where
  "checkPathWriteAccess L channel paths =
     (case paths of JArr items \<Rightarrow> check_write_items L channel items
      | _ \<Rightarrow> if json_size paths = 0 then Inr True else Inl BadIndex)"

section \<open>The policy\<close>

text \<open>A permission object within the regular-expression fragment.\<close>

definition pattern_items :: "string \<Rightarrow> rx_item list option" where
  "pattern_items k = rx_items (star_to_any k)"

definition pattern_matches :: "string \<Rightarrow> string \<Rightarrow> bool" where
  "pattern_matches k path = (case pattern_items k of None \<Rightarrow> False | Some items \<Rightarrow> rx_match items path)"

type_synonym policy = "(string \<times> string) list"

definition good_policy :: "policy \<Rightarrow> bool" where
  "good_policy ps \<longleftrightarrow> sorted_keys ps \<and> list_all (\<lambda>(k, v). pattern_items k \<noteq> None) ps"

definition policy_json :: "policy \<Rightarrow> json" where
  "policy_json ps = JObj (map (\<lambda>(k, v). (k, JStr v)) ps)"

text \<open>The channel of a client whose token resolved to these permissions.\<close>

definition holds_policy :: "'a lib_scheme \<Rightarrow> KuksaChannel \<Rightarrow> policy \<Rightarrow> bool" where
  "holds_policy L channel ps \<longleftrightarrow>
     (if json_empty (getPermissions channel) then ps = []
      else j_parse L (as_string L (getPermissions channel)) = Inr (policy_json ps))"

definition last_match :: "policy \<Rightarrow> string \<Rightarrow> string" where
  "last_match ps path =
     (case filter (\<lambda>(k, v). pattern_matches k path) ps of [] \<Rightarrow> [] | ms \<Rightarrow> snd (last ms))"

definition effective_permission :: "policy \<Rightarrow> string \<Rightarrow> string" where
  "effective_permission ps path =
     (case map_of ps path of
        Some v \<Rightarrow> if v = [] then last_match ps path else v
      | None \<Rightarrow> last_match ps path)"

lemma map_of_policy_json: "map_of (map (\<lambda>(k, v). (k, JStr v)) ps) k = map_option JStr (map_of ps k)"
  by (induction ps) auto

lemma match_permissions_filter:
  assumes "regex_doc L" "list_all (\<lambda>(k, v). pattern_items k \<noteq> None) ps"
  shows "match_permissions L path (map (\<lambda>(k, v). (k, JStr v)) ps) d
    = Inr (case filter (\<lambda>(k, v). pattern_matches k path) ps of [] \<Rightarrow> d | ms \<Rightarrow> snd (last ms))"
  using assms(2)
proof (induction ps arbitrary: d)
  case (Cons kv ps)
  obtain k v where kv: "kv = (k, v)" by (cases kv)
  with Cons.prems obtain items where items: "rx_items (star_to_any k) = Some items"
    by (auto simp: pattern_items_def)
  with regex_docD[OF assms(1) items] Cons kv show ?case
    by (auto simp: pattern_matches_def pattern_items_def split: list.splits)
qed simp

lemma checkSignalAccess_policy:
  assumes "regex_doc L" "json_doc L" "good_policy ps" "holds_policy L channel ps"
  shows "checkSignalAccess L channel path req = Inr (contains_sub (effective_permission ps path) req)"
proof -
  have parse: "(if \<not> json_empty (getPermissions channel) then j_parse L (as_string L (getPermissions channel))
      else j_parse L ''{}'') = Inr (policy_json ps)"
    using assms(2,4) by (auto simp: holds_policy_def policy_json_def doc_simps)
  have loop: "bindE (j_members L (policy_json ps)) (\<lambda>members. match_permissions L path members [])
      = Inr (last_match ps path)"
    using match_permissions_filter[OF assms(1), of ps path "[]"] assms(2,3)
    by (simp add: policy_json_def json_docD last_match_def good_policy_def)
  have exact: "get_with_default L (policy_json ps) path [] = Inr (case map_of ps path of None \<Rightarrow> [] | Some v \<Rightarrow> v)"
    by (auto simp: policy_json_def map_of_policy_json split: option.splits)
  show ?thesis
    unfolding checkSignalAccess_def parse
    using loop by (simp add: exact effective_permission_def split: option.splits)
qed

lemma effective_permission_source:
  assumes "effective_permission ps path \<noteq> []"
  obtains k where "(k, effective_permission ps path) \<in> set ps" "k = path \<or> pattern_matches k path"
proof -
  have last: "\<exists>k. (k, last_match ps path) \<in> set ps \<and> pattern_matches k path" if ne: "last_match ps path \<noteq> []"
  proof -
    define ms where "ms = filter (\<lambda>(k, v). pattern_matches k path) ps"
    from ne have "ms \<noteq> []" by (auto simp: last_match_def ms_def)
    then have "last ms \<in> set ms" "last_match ps path = snd (last ms)"
      by (simp_all add: last_match_def ms_def [symmetric] split: list.split)
    moreover from this(1) have "last ms \<in> set ps \<and> (case last ms of (k, v) \<Rightarrow> pattern_matches k path)"
      by (simp only: ms_def set_filter mem_Collect_eq)
    ultimately show ?thesis by (cases "last ms") auto
  qed
  show ?thesis
  proof (cases "map_of ps path")
    case (Some v)
    show ?thesis
    proof (cases "v = []")
      case True
      with Some assms last that show ?thesis by (auto simp: effective_permission_def)
    next
      case False
      with Some that[of path] show ?thesis by (auto simp: effective_permission_def dest: map_of_SomeD)
    qed
  next
    case None
    with assms last that show ?thesis by (auto simp: effective_permission_def)
  qed
qed

text \<open>
  An entry without a star fits paths of its own length only: one that names a branch says nothing of the
  signals below it.
\<close>

lemma rx_items_plain:
  "CHR ''*'' \<notin> set (c # p) \<Longrightarrow> rx_items (c # p) =
    (if c = CHR ''.'' then map_option ((#) AnyChar) (rx_items p) else if c \<in> rx_special then None else map_option ((#) (Lit c)) (rx_items p))"
  by (cases p) auto

lemma rx_items_length:
  "rx_items p = Some items \<Longrightarrow> CHR ''*'' \<notin> set p \<Longrightarrow> AnyStar \<notin> set items \<and> length items = length p"
proof (induction p arbitrary: items)
  case (Cons c p)
  from Cons.prems rx_items_plain[OF Cons.prems(2)] obtain x r where "items = x # r" "x \<noteq> AnyStar" "rx_items p = Some r"
    by (auto simp del: rx_items.simps split: if_splits)
  with Cons show ?case by auto
qed simp

lemma rx_match_length: "AnyStar \<notin> set items \<Longrightarrow> rx_match items s \<Longrightarrow> length s = length items"
proof (induction items arbitrary: s)
  case (Cons x items)
  then show ?case by (cases x) (auto split: list.splits)
qed simp

lemma star_to_any_plain: "CHR ''*'' \<notin> set k \<Longrightarrow> star_to_any k = k"
  by (induction k) (auto simp: star_to_any_def)

lemma pattern_matches_plain: "pattern_matches k path \<Longrightarrow> CHR ''*'' \<notin> set k \<Longrightarrow> length k = length path"
  using rx_items_length[of k] rx_match_length[of _ path]
  by (fastforce simp: pattern_matches_def pattern_items_def star_to_any_plain split: option.splits)

lemma branch_entries:
  assumes "\<And>k v. (k, v) \<in> set ps \<Longrightarrow> CHR ''*'' \<notin> set k \<and> strict_prefix k path"
  shows "effective_permission ps path = []"
proof (rule ccontr)
  assume "effective_permission ps path \<noteq> []"
  from effective_permission_source[OF this] obtain k where k: "(k, effective_permission ps path) \<in> set ps" "k = path \<or> pattern_matches k path" .
  from assms[OF k(1)] have "CHR ''*'' \<notin> set k" "length k < length path" "k \<noteq> path" by (auto dest: prefix_length_less)
  with k(2) pattern_matches_plain show False by fastforce
qed

lemma effective_permission_empty [simp]: "effective_permission [] path = []"
  by (simp add: effective_permission_def last_match_def)

lemma effective_permission_exact:
  "map_of ps path = Some v \<Longrightarrow> v \<noteq> [] \<Longrightarrow> effective_permission ps path = v"
  by (simp add: effective_permission_def)

lemma contains_sub_Nil [simp]: "contains_sub [] (c # p) = False"
  by (simp add: contains_sub_iff)

lemma check_write_items_iff:
  assumes "\<And>item. item \<in> set items \<Longrightarrow> \<exists>s. json_lookup item ''path'' = Some (JStr s) \<and> good s item"
    and "\<And>s item. good s item \<Longrightarrow> checkWriteAccess L channel (fromJSON L s False) = Inr (ok item)"
  shows "check_write_items L channel items = Inr (list_all ok items)"
  using assms
proof (induction items)
  case (Cons item items)
  from Cons.prems(1)[of item] obtain s where "json_lookup item ''path'' = Some (JStr s)" "good s item"
    by auto
  with Cons show ?case by (auto simp: json_at_lookup)
qed simp

end
