(* ===== verification/MQTTPublisher.thy ===== *)
theory MQTTPublisher
  imports AccessChecker
begin

text \<open>
  \<open>src/MQTTPublisher.cpp\<close>: values of selected paths are sent to an MQTT broker. The mosquitto
  client library is the record \<open>mosquitto\<close>: the return codes of its calls, by the number of calls
  made so far (0 is \<open>MOSQ_ERR_SUCCESS\<close>). \<open>connects\<close> and \<open>sent\<close> are the calls the object has made.
\<close>

record mosquitto =
  m_insecure :: int
  m_connect :: "nat \<Rightarrow> int"
  m_publish :: "nat \<Rightarrow> int"
  m_userpw :: "string \<Rightarrow> string \<Rightarrow> int"

text \<open>The options of \<open>getOptions\<close>; a \<open>None\<close> is an option without a default that was not given.\<close>

record mqtt_options =
  opt_insecure :: bool
  opt_username :: "string option"
  opt_password :: "string option"
  opt_address :: string
  opt_port :: int
  opt_qos :: int
  opt_keepalive :: int
  opt_retry :: int
  opt_topic_prefix :: string
  opt_publish :: string

definition mqtt_getOptions :: mqtt_options where
  "mqtt_getOptions =
     \<lparr>opt_insecure = False, opt_username = None, opt_password = None, opt_address = ''localhost'',
      opt_port = 1883, opt_qos = 0, opt_keepalive = 60, opt_retry = 3, opt_topic_prefix = ''vss'',
      opt_publish = []\<rparr>"

record MQTTPublisher =
  paths :: "string list"
  keepalive :: int
  qos :: int
  connection_retry :: int
  isConnected :: bool
  mqtt_prefix :: string
  host :: string
  port :: int
  connects :: nat
  sent :: "(string \<times> string \<times> int) list"

section \<open>Operations\<close>

text \<open>
  The constructor, with the calls it makes to set the library up. \<open>init\<close> releases the library again
  when the insecure option is given, whether it could be set or not. \<open>setUsernamePassword\<close> reports whether the library took the credentials; the constructor ignores
  it. \<open>typed\<close> is what the user types when no password is configured.
\<close>

datatype mosq_call = LibInit | NewClient string | TlsInsecure | LibCleanup | UserPw string string
  | MDisconnect | LoopStop | DestroyClient

definition mqtt_init :: "mosquitto \<Rightarrow> string \<Rightarrow> bool \<Rightarrow> mosq_call list" where
  "mqtt_init M cid insecure =
     [LibInit, NewClient cid] @
     (if insecure then
        (let rc = m_insecure M in if rc \<noteq> 0 then [TlsInsecure, LibCleanup] else [TlsInsecure, LibCleanup])
      else [])"

definition setUsernamePassword :: "mosquitto \<Rightarrow> string \<Rightarrow> string \<Rightarrow> bool \<times> mosq_call list" where
  "setUsernamePassword M username password = (m_userpw M username password = 0, [UserPw username password])"

definition new_MQTTPublisher :: "mqtt_options \<Rightarrow> MQTTPublisher" where
  "new_MQTTPublisher config =
     \<lparr>paths = [], keepalive = opt_keepalive config, qos = opt_qos config, connection_retry = opt_retry config,
      isConnected = False, mqtt_prefix = opt_topic_prefix config, host = opt_address config,
      port = opt_port config, connects = 0, sent = []\<rparr>"

definition mqtt_credentials :: "mqtt_options \<Rightarrow> string \<Rightarrow> (string \<times> string) option" where
  "mqtt_credentials config typed =
     (case opt_username config of None \<Rightarrow> None
      | Some u \<Rightarrow> Some (u, case opt_password config of None \<Rightarrow> typed | Some p \<Rightarrow> p))"

definition mqtt_setup :: "mosquitto \<Rightarrow> string \<Rightarrow> mqtt_options \<Rightarrow> string \<Rightarrow> mosq_call list" where
  "mqtt_setup M cid config typed =
     mqtt_init M cid (opt_insecure config) @
     (case mqtt_credentials config typed of None \<Rightarrow> [] | Some (u, pw) \<Rightarrow> snd (setUsernamePassword M u pw))"

definition mqtt_destroy :: "MQTTPublisher \<Rightarrow> mosq_call list" where
  "mqtt_destroy p = (if isConnected p then [MDisconnect, LoopStop] else []) @ [DestroyClient, LibCleanup]"

text \<open>The loop of \<open>start\<close>, for the number of rounds left.\<close>

fun mqtt_connect_loop :: "mosquitto \<Rightarrow> nat \<Rightarrow> MQTTPublisher \<Rightarrow> MQTTPublisher" where
  "mqtt_connect_loop M 0 p = p"
| "mqtt_connect_loop M (Suc n) p =
     (let rc = m_connect M (connects p); p1 = p\<lparr>connects := Suc (connects p)\<rparr>
      in if rc \<noteq> 0 then mqtt_connect_loop M n (p1\<lparr>isConnected := False\<rparr>)
         else p1\<lparr>isConnected := True\<rparr>)"

definition mqtt_start :: "mosquitto \<Rightarrow> MQTTPublisher \<Rightarrow> bool \<times> MQTTPublisher" where
  "mqtt_start M p =
     (if isConnected p \<or> paths p = [] then (isConnected p, p)
      else (let p' = mqtt_connect_loop M (nat (connection_retry p)) p in (isConnected p', p')))"

definition addPublishPath :: "string \<Rightarrow> MQTTPublisher \<Rightarrow> MQTTPublisher" where
  "addPublishPath path p = p\<lparr>paths := paths p @ [path]\<rparr>"

definition topic_of :: "MQTTPublisher \<Rightarrow> string \<Rightarrow> string" where
  "topic_of p topic_path =
     (let topic_name = replace_char CHR ''.'' CHR ''/'' topic_path
      in if mqtt_prefix p \<noteq> [] then mqtt_prefix p @ ''/'' @ topic_name else topic_name)"

text \<open>
  The loop of \<open>sendPathValue\<close> over the patterns: the first that matches decides. A failing publish
  call is only logged. The pattern is compiled for each path, and may be no regular expression.
\<close>

fun send_loop :: "'a lib_scheme \<Rightarrow> mosquitto \<Rightarrow> string \<Rightarrow> json \<Rightarrow> string list \<Rightarrow> MQTTPublisher \<Rightarrow> (exn + bool) \<times> MQTTPublisher" where
  "send_loop L M topic_path value [] p = (Inr False, p)"
| "send_loop L M topic_path value (path # rest) p =
     (case re_match L (star_to_any path) topic_path of
        Inl e \<Rightarrow> (Inl e, p)
      | Inr matches \<Rightarrow>
          if matches then
            (let (ok, p1) = mqtt_start M p
             in if \<not> ok then (Inr False, p1)
                else (Inr True, p1\<lparr>sent := sent p1 @ [(topic_of p1 topic_path, as_string L value, qos p1)]\<rparr>))
          else send_loop L M topic_path value rest p)"

definition sendPathValue :: "'a lib_scheme \<Rightarrow> mosquitto \<Rightarrow> string \<Rightarrow> json \<Rightarrow> MQTTPublisher \<Rightarrow> (exn + bool) \<times> MQTTPublisher" where
  "sendPathValue L M topic_path value p = send_loop L M topic_path value (paths p) p"

section \<open>The life of the library\<close>

text \<open>Whether the library is initialised after some calls.\<close>

definition lib_up :: "mosq_call list \<Rightarrow> bool" where
  "lib_up cs = foldl (\<lambda>up c. if c = LibInit then True else if c = LibCleanup then False else up) False cs"

lemma lib_up_setup: "lib_up (mqtt_setup M cid config typed) \<longleftrightarrow> \<not> opt_insecure config"
  by (auto simp: lib_up_def mqtt_setup_def mqtt_init_def setUsernamePassword_def split: option.splits)

lemma lib_down_destroyed: "\<not> lib_up (cs @ mqtt_destroy p)"
  by (simp add: lib_up_def mqtt_destroy_def)

section \<open>Connecting\<close>

lemma mqtt_connect_loop_frame:
  "\<exists>b n. mqtt_connect_loop M k p = p\<lparr>connects := n, isConnected := b\<rparr> \<and> connects p \<le> n \<and> n \<le> connects p + k"
proof (induction k arbitrary: p)
  case 0
  show ?case by (rule exI[of _ "isConnected p"], rule exI[of _ "connects p"]) simp
next
  case (Suc k)
  show ?case
  proof (cases "m_connect M (connects p) = 0")
    case True
    show ?thesis using True
      by (intro exI[of _ True] exI[of _ "Suc (connects p)"]) (simp add: Let_def)
  next
    case False
    obtain b n where "mqtt_connect_loop M k (p\<lparr>connects := Suc (connects p), isConnected := False\<rparr>)
        = p\<lparr>connects := n, isConnected := b\<rparr>" "Suc (connects p) \<le> n" "n \<le> Suc (connects p) + k"
      using Suc.IH[of "p\<lparr>connects := Suc (connects p), isConnected := False\<rparr>"] by auto
    with False show ?thesis
      by (intro exI[of _ b] exI[of _ n]) (simp add: Let_def)
  qed
qed

lemma mqtt_connect_loop_connected:
  "\<not> isConnected p \<Longrightarrow> isConnected (mqtt_connect_loop M k p) \<longleftrightarrow> (\<exists>i < k. m_connect M (connects p + i) = 0)"
proof (induction k arbitrary: p)
  case (Suc k)
  show ?case
  proof (cases "m_connect M (connects p) = 0")
    case True
    then show ?thesis by (auto simp: Let_def intro: exI[of _ 0])
  next
    case False
    have "(\<exists>i < Suc k. m_connect M (connects p + i) = 0) \<longleftrightarrow> (\<exists>i < k. m_connect M (Suc (connects p) + i) = 0)"
      using False by (auto simp: less_Suc_eq_0_disj)
    with Suc.IH[of "p\<lparr>connects := Suc (connects p), isConnected := False\<rparr>"] False show ?thesis
      by (simp add: Let_def)
  qed
qed simp

lemma mqtt_start_frame:
  assumes "mqtt_start M p = (ok, p')"
  shows "\<exists>n. p' = p\<lparr>connects := n, isConnected := ok\<rparr> \<and> connects p \<le> n \<and> n \<le> connects p + nat (connection_retry p)"
proof (cases "isConnected p \<or> paths p = []")
  case True
  with assms have "p' = p" "ok = isConnected p" by (auto simp: mqtt_start_def)
  then show ?thesis by (intro exI[of _ "connects p"]) simp
next
  case False
  obtain b n where "mqtt_connect_loop M (nat (connection_retry p)) p = p\<lparr>connects := n, isConnected := b\<rparr>"
      "connects p \<le> n" "n \<le> connects p + nat (connection_retry p)"
    using mqtt_connect_loop_frame by blast
  with assms False show ?thesis by (intro exI[of _ n]) (auto simp: mqtt_start_def Let_def)
qed

section \<open>Sending\<close>

text \<open>
  With patterns of the regular-expression fragment: exactly the paths some pattern matches are
  sent, once, when the connection is or can be made.
\<close>

lemma send_loop_result:
  assumes L: "regex_doc L" and pats: "\<And>k. k \<in> set ps \<Longrightarrow> pattern_items k \<noteq> None"
  shows "send_loop L M topic value ps p =
    (if list_ex (\<lambda>k. pattern_matches k topic) ps then
       (let (ok, p1) = mqtt_start M p
        in if \<not> ok then (Inr False, p1)
           else (Inr True, p1\<lparr>sent := sent p1 @ [(topic_of p1 topic, as_string L value, qos p1)]\<rparr>))
     else (Inr False, p))"
  using pats
proof (induction ps)
  case (Cons k ps)
  then obtain items where items: "rx_items (star_to_any k) = Some items"
    by (auto simp: pattern_items_def)
  with regex_docD[OF L items] Cons show ?case
    by (simp add: pattern_matches_def pattern_items_def)
qed simp

lemma send_loop_frame:
  "\<exists>r n b ms. send_loop L M topic value ps p = (r, p\<lparr>connects := n, isConnected := b, sent := sent p @ ms\<rparr>)
     \<and> length ms \<le> 1 \<and> n \<le> connects p + nat (connection_retry p) \<and> (r = Inr True \<longleftrightarrow> ms \<noteq> [])"
proof (induction ps)
  case Nil
  show ?case by (intro exI[of _ "Inr False"] exI[of _ "connects p"] exI[of _ "isConnected p"] exI[of _ "[]"]) simp
next
  case (Cons k ps)
  show ?case
  proof (cases "re_match L (star_to_any k) topic")
    case (Inl e)
    then show ?thesis
      by (intro exI[of _ "Inl e"] exI[of _ "connects p"] exI[of _ "isConnected p"] exI[of _ "[]"]) simp
  next
    case (Inr m)
    obtain ok p1 where start: "mqtt_start M p = (ok, p1)" by fastforce
    from mqtt_start_frame[OF start] obtain n where p1: "p1 = p\<lparr>connects := n, isConnected := ok\<rparr>"
        "n \<le> connects p + nat (connection_retry p)" by auto
    show ?thesis
    proof (cases m)
      case False
      with Inr Cons show ?thesis by simp
    next
      case True
      show ?thesis
      proof (cases ok)
        case True
        with Inr \<open>m\<close> start p1 show ?thesis
          by (intro exI[of _ "Inr True"] exI[of _ n] exI[of _ ok] exI[of _ "[(topic_of p1 topic, as_string L value, qos p1)]"]) simp
      next
        case False
        with Inr \<open>m\<close> start p1 show ?thesis
          by (intro exI[of _ "Inr False"] exI[of _ n] exI[of _ ok] exI[of _ "[]"]) simp
      qed
    qed
  qed
qed

end
