(* ===== verification/Interfaces.thy ===== *)
theory Interfaces
  imports Prelude
begin

text \<open>
  The contracts several components share, as locales: a first-in first-out queue (the notification
  buffer of the subscription handler, the write queue of a web-socket session, the pipeline queue of
  an HTTP session) and a registry of objects by key (the connection maps of the web-socket server,
  the sessions and subscriptions of the gRPC server, the subscribers of a path). The lemmas a client
  needs are proved once here; each component proves the laws for its own operations.
\<close>

section \<open>Queues\<close>

datatype 'a qop = Push 'a | Pop

primrec qop_pushed :: "'a qop \<Rightarrow> 'a list" where
  "qop_pushed (Push a) = [a]"
| "qop_pushed Pop = []"

locale fifo_queue =
  fixes items :: "'s \<Rightarrow> 'a list"
    and inv :: "'s \<Rightarrow> bool"
    and push :: "'a \<Rightarrow> 's \<Rightarrow> 's"
    and pop :: "'s \<Rightarrow> 's"
  assumes push_items: "inv s \<Longrightarrow> items (push a s) = items s @ [a]"
    and push_inv: "inv s \<Longrightarrow> inv (push a s)"
    and pop_items: "inv s \<Longrightarrow> items s \<noteq> [] \<Longrightarrow> items (pop s) = tl (items s)"
    and pop_inv: "inv s \<Longrightarrow> items s \<noteq> [] \<Longrightarrow> inv (pop s)"
begin

text \<open>A client takes an element only from a queue that holds one.\<close>

primrec qstep :: "'a qop \<Rightarrow> 's \<Rightarrow> 's" where
  "qstep (Push a) s = push a s"
| "qstep Pop s = (if items s = [] then s else pop s)"

primrec taken :: "'a qop \<Rightarrow> 's \<Rightarrow> 'a list" where
  "taken (Push a) s = []"
| "taken Pop s = (if items s = [] then [] else [hd (items s)])"

fun qrun :: "'a qop list \<Rightarrow> 's \<Rightarrow> 'a list \<times> 's" where
  "qrun [] s = ([], s)"
| "qrun (c # cs) s = (let (out, s') = qrun cs (qstep c s) in (taken c s @ out, s'))"

lemma qstep_items: "inv s \<Longrightarrow> inv (qstep c s) \<and> taken c s @ items (qstep c s) = items s @ qop_pushed c"
  by (cases c) (auto simp: push_items push_inv pop_items pop_inv)

text \<open>Everything put in is taken out in the order it was put in, and nothing else is.\<close>

lemma fifo_order:
  "inv s \<Longrightarrow> qrun cs s = (out, s') \<Longrightarrow>
   inv s' \<and> out @ items s' = items s @ concat (map qop_pushed cs)"
proof (induction cs arbitrary: s out)
  case (Cons c cs)
  obtain out1 where run: "qrun cs (qstep c s) = (out1, s')" "out = taken c s @ out1"
    using Cons.prems(2) by (auto simp: split: prod.splits)
  note step = qstep_items[OF Cons.prems(1), of c]
  from Cons.IH[OF _ run(1)] step
  have "inv s'" "out1 @ items s' = items (qstep c s) @ concat (map qop_pushed cs)" by auto
  with step run(2) show ?case by (metis append.assoc concat.simps(2) list.map(2))
qed simp

lemma fifo_prefix: "inv s \<Longrightarrow> items s = [] \<Longrightarrow> qrun cs s = (out, s') \<Longrightarrow> prefix out (concat (map qop_pushed cs))"
  using fifo_order[of s cs out s'] by (metis append_Nil prefixI)

end

section \<open>Registries\<close>

datatype ('a, 'k) rop = Add 'a | Remove 'k

locale registry =
  fixes find :: "'s \<Rightarrow> 'k \<Rightarrow> 'v option"
    and add :: "'a \<Rightarrow> 's \<Rightarrow> 's"
    and remove :: "'k \<Rightarrow> 's \<Rightarrow> 's"
    and key :: "'a \<Rightarrow> 'k"
    and val :: "'a \<Rightarrow> 'v"
  assumes find_add: "find (add a s) k = (if k = key a then Some (val a) else find s k)"
    and find_remove: "find (remove k' s) k = (if k = k' then None else find s k)"
begin

primrec rstep :: "('a, 'k) rop \<Rightarrow> 's \<Rightarrow> 's" where
  "rstep (Add a) s = add a s"
| "rstep (Remove k) s = remove k s"

primrec rop_key :: "('a, 'k) rop \<Rightarrow> 'k" where
  "rop_key (Add a) = key a"
| "rop_key (Remove k) = k"

primrec rop_result :: "('a, 'k) rop \<Rightarrow> 'v option" where
  "rop_result (Add a) = Some (val a)"
| "rop_result (Remove k) = None"

text \<open>What is found under a key is decided by the last operation on that key.\<close>

lemma find_history:
  "find (fold rstep cs s) k =
     (case filter (\<lambda>c. rop_key c = k) cs of [] \<Rightarrow> find s k | hs \<Rightarrow> rop_result (last hs))"
proof (induction cs rule: rev_induct)
  case (snoc c cs)
  then show ?case by (cases c) (auto simp: find_add find_remove split: list.splits)
qed simp

lemma find_untouched: "(\<And>c. c \<in> set cs \<Longrightarrow> rop_key c \<noteq> k) \<Longrightarrow> find (fold rstep cs s) k = find s k"
proof -
  assume "\<And>c. c \<in> set cs \<Longrightarrow> rop_key c \<noteq> k"
  then have "filter (\<lambda>c. rop_key c = k) cs = []" by (simp add: filter_empty_conv)
  then show ?thesis by (simp add: find_history)
qed

end

section \<open>Stores of checked values\<close>

text \<open>
  A store that checks a value before it keeps it: \<open>admit\<close> is the form in which a value is kept, or
  \<open>None\<close> for a value that is refused. \<open>known\<close> are the keys the laws speak about.
\<close>

locale checked_store =
  fixes get :: "'s \<Rightarrow> 'k \<Rightarrow> 'v option"
    and put :: "'k \<Rightarrow> 'v \<Rightarrow> 's \<Rightarrow> 's"
    and admit :: "'s \<Rightarrow> 'k \<Rightarrow> 'v \<Rightarrow> 'v option"
    and inv :: "'s \<Rightarrow> bool"
    and known :: "'k \<Rightarrow> bool"
  assumes put_inv: "inv s \<Longrightarrow> known k \<Longrightarrow> inv (put k v s)"
    and get_put: "inv s \<Longrightarrow> known k \<Longrightarrow> known k' \<Longrightarrow> admit s k v = Some v' \<Longrightarrow>
      get (put k v s) k' = (if k' = k then Some v' else get s k')"
    and get_refused: "inv s \<Longrightarrow> known k \<Longrightarrow> known k' \<Longrightarrow> admit s k v = None \<Longrightarrow> get (put k v s) k' = get s k'"
    and admit_put: "inv s \<Longrightarrow> known k \<Longrightarrow> known k' \<Longrightarrow> admit (put k v s) k' w = admit s k' w"
begin

definition puts :: "('k \<times> 'v) list \<Rightarrow> 's \<Rightarrow> 's" where
  "puts ws s = fold (\<lambda>(k, v). put k v) ws s"

lemma puts_inv: "inv s \<Longrightarrow> \<forall>kv \<in> set ws. known (fst kv) \<Longrightarrow>
    inv (puts ws s) \<and> (known k' \<longrightarrow> admit (puts ws s) k' w = admit s k' w)"
proof (induction ws rule: rev_induct)
  case (snoc kv ws)
  obtain k v where kv: "kv = (k, v)" by (cases kv)
  from snoc.prems(2) have "known k" by (auto simp: kv)
  with snoc show ?case by (auto simp: puts_def kv put_inv admit_put)
qed (simp add: puts_def)

text \<open>After any writes, a key holds the last value written to it that was not refused.\<close>

lemma last_write:
  assumes "inv s" "known k" "\<forall>kv \<in> set ws. known (fst kv)"
  shows "get (puts ws s) k =
    (case filter (\<lambda>(k', v). k' = k \<and> admit s k v \<noteq> None) ws of [] \<Rightarrow> get s k | hs \<Rightarrow> admit s k (snd (last hs)))"
  using assms(3)
proof (induction ws rule: rev_induct)
  case (snoc kv ws)
  obtain k1 v1 where kv: "kv = (k1, v1)" by (cases kv)
  have k1: "known k1" and ws: "\<forall>kv \<in> set ws. known (fst kv)" using snoc.prems by (auto simp: kv)
  have i: "inv (puts ws s)" and a: "admit (puts ws s) k1 v1 = admit s k1 v1"
    using puts_inv[OF assms(1) ws] k1 by blast+
  have step: "get (puts (ws @ [kv]) s) k = get (put k1 v1 (puts ws s)) k" by (simp add: puts_def kv)
  show ?case
  proof (cases "admit s k1 v1")
    case None
    with get_refused[OF i k1 assms(2)] a snoc.IH[OF ws] step show ?thesis by (auto simp: kv)
  next
    case (Some v')
    with get_put[OF i k1 assms(2)] a have "get (put k1 v1 (puts ws s)) k = (if k = k1 then Some v' else get (puts ws s) k)" by simp
    with Some snoc.IH[OF ws] step show ?thesis by (auto simp: kv split: list.splits)
  qed
qed (simp add: puts_def)

end

end
