(* ===== verification/Sessions.thy ===== *)
theory Sessions
  imports Interfaces Channel
begin

text \<open>
  The connections of \<open>src/WebSockHttpFlexServer.cpp\<close>: the registry of clients and the web-socket
  session, whose handlers the I/O threads call. A handler returns what it asks the network and the
  timer to do next; reading a frame, writing a buffer and waiting are the library's. A session's
  address is its connection id.
\<close>

section \<open>Completion codes, timers, requests to the library\<close>

datatype error_code = NoError | OperationAborted | Closed | EndOfStream | OtherError string

text \<open>A deadline is a reading of the steady clock in nanoseconds, or the largest time point there is.\<close>

type_synonym deadline = "nat option"

definition TIMEOUT_VALUE :: nat where
  "TIMEOUT_VALUE = (2 ^ 32 - 1) * 10 ^ 9"

definition expired :: "nat \<Rightarrow> deadline \<Rightarrow> bool" where
  "expired now d = (case d of None \<Rightarrow> False | Some t \<Rightarrow> t \<le> now)"

datatype action =
    AsyncAccept | AsyncRead | AsyncWrite string | AsyncPing | AsyncWait | AsyncClose
  | AsyncShutdown | AsyncHandshake | TcpShutdownSend | TcpClose | AsyncHttpWrite string bool
  | StartWebsocket conn_type | StartHttp conn_type | AsyncDetect | AsyncAcceptConnection

section \<open>The connection registry\<close>

record ConnectionHandler =
  connPlainWebSock :: "64 word \<Rightarrow> KuksaChannel option"
  connSslWebSock :: "64 word \<Rightarrow> KuksaChannel option"
  connPlainHttp :: "64 word \<Rightarrow> KuksaChannel option"
  connSslHttp :: "64 word \<Rightarrow> KuksaChannel option"

definition new_ConnectionHandler :: ConnectionHandler where
  "new_ConnectionHandler =
     \<lparr>connPlainWebSock = Map.empty, connSslWebSock = Map.empty, connPlainHttp = Map.empty, connSslHttp = Map.empty\<rparr>"

text \<open>A new client's channel: the two members a default constructor leaves open are set at once.\<close>

definition client_channel :: "conn_type \<Rightarrow> 64 word \<Rightarrow> KuksaChannel" where
  "client_channel kind session = setType kind (setConnID session (new_channel session kind))"

text \<open>The four overloads of \<open>AddClient\<close> and \<open>RemoveClient\<close>, told apart by the kind of session.\<close>

fun AddClient :: "conn_type \<Rightarrow> 64 word \<Rightarrow> ConnectionHandler \<Rightarrow> ConnectionHandler" where
  "AddClient WEBSOCKET_PLAIN session h =
     h\<lparr>connPlainWebSock := (connPlainWebSock h)(session \<mapsto> client_channel WEBSOCKET_PLAIN session)\<rparr>"
| "AddClient WEBSOCKET_SSL session h =
     h\<lparr>connSslWebSock := (connSslWebSock h)(session \<mapsto> client_channel WEBSOCKET_SSL session)\<rparr>"
| "AddClient HTTP_PLAIN session h =
     h\<lparr>connPlainHttp := (connPlainHttp h)(session \<mapsto> client_channel HTTP_PLAIN session)\<rparr>"
| "AddClient HTTP_SSL session h =
     h\<lparr>connSslHttp := (connSslHttp h)(session \<mapsto> client_channel HTTP_SSL session)\<rparr>"
| "AddClient GRPC session h = h"

fun RemoveClient :: "conn_type \<Rightarrow> 64 word \<Rightarrow> ConnectionHandler \<Rightarrow> ConnectionHandler" where
  "RemoveClient WEBSOCKET_PLAIN session h = h\<lparr>connPlainWebSock := (connPlainWebSock h)(session := None)\<rparr>"
| "RemoveClient WEBSOCKET_SSL session h = h\<lparr>connSslWebSock := (connSslWebSock h)(session := None)\<rparr>"
| "RemoveClient HTTP_PLAIN session h = h\<lparr>connPlainHttp := (connPlainHttp h)(session := None)\<rparr>"
| "RemoveClient HTTP_SSL session h = h\<lparr>connSslHttp := (connSslHttp h)(session := None)\<rparr>"
| "RemoveClient GRPC session h = h"

fun client_of :: "ConnectionHandler \<Rightarrow> conn_type \<times> 64 word \<Rightarrow> KuksaChannel option" where
  "client_of h (WEBSOCKET_PLAIN, session) = connPlainWebSock h session"
| "client_of h (WEBSOCKET_SSL, session) = connSslWebSock h session"
| "client_of h (HTTP_PLAIN, session) = connPlainHttp h session"
| "client_of h (HTTP_SSL, session) = connSslHttp h session"
| "client_of h (GRPC, session) = None"

text \<open>\<open>fail\<close> for a session: besides a log entry, the client is removed.\<close>

definition fail_session :: "conn_type \<Rightarrow> 64 word \<Rightarrow> ConnectionHandler \<Rightarrow> ConnectionHandler" where
  "fail_session kind session h = RemoveClient kind session h"

lemma client_of_AddClient:
  "kind \<noteq> GRPC \<Longrightarrow> client_of (AddClient kind session h) (kind', session') =
     (if (kind', session') = (kind, session) then Some (client_channel kind session) else client_of h (kind', session'))"
  by (cases kind; cases kind') auto

lemma client_of_RemoveClient:
  "client_of (RemoveClient kind session h) (kind', session') =
     (if (kind', session') = (kind, session) then None else client_of h (kind', session'))"
  by (cases kind; cases kind') auto

text \<open>The session types there are: a client of one of them is never a gRPC connection.\<close>

type_synonym client_key = "conn_type \<times> 64 word"

fun add_client :: "conn_type \<times> 64 word \<Rightarrow> ConnectionHandler \<Rightarrow> ConnectionHandler" where
  "add_client (kind, session) h = AddClient kind session h"

interpretation plain_ws: registry connPlainWebSock "AddClient WEBSOCKET_PLAIN" "RemoveClient WEBSOCKET_PLAIN"
    "\<lambda>session. session" "client_channel WEBSOCKET_PLAIN"
  by unfold_locales simp_all

interpretation ssl_ws: registry connSslWebSock "AddClient WEBSOCKET_SSL" "RemoveClient WEBSOCKET_SSL"
    "\<lambda>session. session" "client_channel WEBSOCKET_SSL"
  by unfold_locales simp_all

interpretation plain_http: registry connPlainHttp "AddClient HTTP_PLAIN" "RemoveClient HTTP_PLAIN"
    "\<lambda>session. session" "client_channel HTTP_PLAIN"
  by unfold_locales simp_all

interpretation ssl_http: registry connSslHttp "AddClient HTTP_SSL" "RemoveClient HTTP_SSL"
    "\<lambda>session. session" "client_channel HTTP_SSL"
  by unfold_locales simp_all

section \<open>Web-socket sessions\<close>

text \<open>
  \<open>WebSocketSession\<close> with the members of its two derived classes; \<open>session_kind\<close> tells them
  apart. \<open>close_\<close> belongs to the plain session and \<open>eof_\<close> to the SSL one.
\<close>

record WsSession =
  session_addr :: "64 word"
  session_kind :: conn_type
  ping_state :: nat
  expiry :: deadline
  session_channel :: KuksaChannel
  bufferRead :: string
  bufferWrite :: string
  writeQueue :: "string list"
  close_flag :: bool
  eof_flag :: bool

definition new_WsSession :: "conn_type \<Rightarrow> 64 word \<Rightarrow> KuksaChannel \<Rightarrow> WsSession" where
  "new_WsSession kind addr some_channel =
     \<lparr>session_addr = addr, session_kind = kind, ping_state = 0, expiry = None, session_channel = some_channel,
      bufferRead = [], bufferWrite = [], writeQueue = [], close_flag = False, eof_flag = False\<rparr>"

text \<open>\<open>timer_.expires_after(seconds(WEBSOCKET_TIMEOUT_VALUE))\<close>, and \<open>activity\<close>.\<close>

definition rearm :: "nat \<Rightarrow> WsSession \<Rightarrow> WsSession" where
  "rearm now s = s\<lparr>expiry := Some (now + TIMEOUT_VALUE)\<rparr>"

definition activity :: "nat \<Rightarrow> WsSession \<Rightarrow> WsSession" where
  "activity now s = rearm now (s\<lparr>ping_state := 0\<rparr>)"

definition on_control_callback :: "nat \<Rightarrow> WsSession \<Rightarrow> WsSession" where
  "on_control_callback now s = activity now s"

text \<open>
  \<open>doTimeout\<close> of the two classes. The SSL session first moves its deadline to the largest time
  point, so that the nested \<open>onTimer\<close> finds it not expired and only waits.
\<close>

definition ws_doEof :: "nat \<Rightarrow> WsSession \<Rightarrow> action list \<times> WsSession" where
  "ws_doEof now s = ([AsyncShutdown], rearm now (s\<lparr>eof_flag := True\<rparr>))"

definition plain_ws_doTimeout :: "nat \<Rightarrow> WsSession \<Rightarrow> action list \<times> WsSession" where
  "plain_ws_doTimeout now s = (if close_flag s then ([], s) else ([AsyncClose], rearm now (s\<lparr>close_flag := True\<rparr>)))"

definition ssl_ws_doTimeout :: "nat \<Rightarrow> WsSession \<Rightarrow> action list \<times> WsSession" where
  "ssl_ws_doTimeout now s =
     (if eof_flag s then ([], s)
      else (let (as, s') = ws_doEof now (s\<lparr>expiry := None\<rparr>) in (AsyncWait # as, s')))"

definition ws_doTimeout :: "nat \<Rightarrow> WsSession \<Rightarrow> action list \<times> WsSession" where
  "ws_doTimeout now s = (if session_kind s = WEBSOCKET_PLAIN then plain_ws_doTimeout now s else ssl_ws_doTimeout now s)"

lemmas doTimeout_defs = ws_doTimeout_def plain_ws_doTimeout_def ssl_ws_doTimeout_def

definition ws_onTimer :: "error_code \<Rightarrow> nat \<Rightarrow> bool \<Rightarrow> WsSession \<Rightarrow> ConnectionHandler \<Rightarrow> action list \<times> WsSession \<times> ConnectionHandler" where
  "ws_onTimer ec now is_open s h =
     (if ec \<noteq> NoError \<and> ec \<noteq> OperationAborted then ([], s, fail_session (session_kind s) (session_addr s) h)
      else if expired now (expiry s) then
        (if is_open \<and> ping_state s = 0 then ([AsyncPing, AsyncWait], rearm now (s\<lparr>ping_state := 1\<rparr>), h)
         else (let (as, s') = ws_doTimeout now s in (as, s', h)))
      else ([AsyncWait], s, h))"

text \<open>\<open>run\<close>: register, start the timer, accept the handshake.\<close>

definition ws_doAccept :: "nat \<Rightarrow> WsSession \<Rightarrow> action list \<times> WsSession" where
  "ws_doAccept now s = ([AsyncAccept], rearm now s)"

definition ws_run :: "nat \<Rightarrow> bool \<Rightarrow> WsSession \<Rightarrow> ConnectionHandler \<Rightarrow> action list \<times> WsSession \<times> ConnectionHandler" where
  "ws_run now is_open s h =
     (let h1 = AddClient (session_kind s) (session_addr s) h;
          s1 = s\<lparr>session_channel := client_channel (session_kind s) (session_addr s)\<rparr>;
          (as, s2, h2) = ws_onTimer NoError now is_open s1 h1;
          (as', s3) = ws_doAccept now s2
      in (as @ as', s3, h2))"

definition ws_onAccept :: "error_code \<Rightarrow> WsSession \<Rightarrow> ConnectionHandler \<Rightarrow> action list \<times> WsSession \<times> ConnectionHandler" where
  "ws_onAccept ec s h =
     (if ec = OperationAborted then ([], s, h)
      else if ec \<noteq> NoError then ([], s, fail_session (session_kind s) (session_addr s) h)
      else ([AsyncRead], s, h))"

text \<open>\<open>onPing\<close>; a failing \<open>BOOST_ASSERT\<close> ends the program.\<close>

definition ws_onPing :: "error_code \<Rightarrow> WsSession \<Rightarrow> ConnectionHandler \<Rightarrow> exn + (WsSession \<times> ConnectionHandler)" where
  "ws_onPing ec s h =
     (if ec = OperationAborted then Inr (s, h)
      else if ec \<noteq> NoError then Inr (s, fail_session (session_kind s) (session_addr s) h)
      else if ping_state s = 1 then Inr (s\<lparr>ping_state := 2\<rparr>, h)
      else if ping_state s = 0 then Inr (s, h)
      else Inl Undefined)"

text \<open>The close handler of the plain session and the shutdown handler of the SSL session.\<close>

definition ws_on_close :: "error_code \<Rightarrow> WsSession \<Rightarrow> ConnectionHandler \<Rightarrow> ConnectionHandler" where
  "ws_on_close ec s h =
     (if ec = OperationAborted then h
      else if ec \<noteq> NoError then fail_session (session_kind s) (session_addr s) h
      else h)"

definition ws_onShutdown :: "error_code \<Rightarrow> WsSession \<Rightarrow> ConnectionHandler \<Rightarrow> ConnectionHandler" where
  "ws_onShutdown ec s h =
     (if ec = OperationAborted then h
      else if ec \<noteq> NoError then fail_session (session_kind s) (session_addr s) h
      else RemoveClient (session_kind s) (session_addr s) h)"

text \<open>
  \<open>write\<close>: at most one buffer is with the library at a time, further messages wait in the queue.
\<close>

definition ws_write :: "string \<Rightarrow> WsSession \<Rightarrow> action list \<times> WsSession" where
  "ws_write message s =
     (let s1 = s\<lparr>writeQueue := writeQueue s @ [message]\<rparr>
      in if length (writeQueue s1) > 1 then ([], s1)
         else (let s2 = s1\<lparr>bufferWrite := bufferWrite s1 @ message\<rparr> in ([AsyncWrite (bufferWrite s2)], s2)))"

text \<open>\<open>onWrite\<close>; \<open>pop_front\<close> on an empty list is undefined.\<close>

definition ws_onWrite :: "error_code \<Rightarrow> nat \<Rightarrow> WsSession \<Rightarrow> ConnectionHandler \<Rightarrow> (exn + action list) \<times> WsSession \<times> ConnectionHandler" where
  "ws_onWrite ec bytesTransferred s h =
     (if ec = OperationAborted then (Inr [], s, h)
      else if ec \<noteq> NoError then (Inr [], s, fail_session (session_kind s) (session_addr s) h)
      else
        let s1 = s\<lparr>bufferWrite := drop bytesTransferred (bufferWrite s)\<rparr>
        in if writeQueue s1 = [] then (Inl Undefined, s1, h)
           else
             let s2 = s1\<lparr>writeQueue := tl (writeQueue s1)\<rparr>
             in if writeQueue s2 \<noteq> [] then
                  (let s3 = s2\<lparr>bufferWrite := bufferWrite s2 @ hd (writeQueue s2)\<rparr>
                   in (Inr [AsyncWrite (bufferWrite s3)], s3, h))
                else (Inr [], s2, h))"

text \<open>
  \<open>onRead\<close>. The request handler is a member of the session: it gets the bytes read and the
  session's channel and may change the rest \<open>w\<close> of the program's state.
\<close>

type_synonym 'w request_handler = "string \<Rightarrow> KuksaChannel \<Rightarrow> 'w \<Rightarrow> (exn + string) \<times> KuksaChannel \<times> 'w"

definition ws_onRead :: "'w request_handler \<Rightarrow> error_code \<Rightarrow> nat \<Rightarrow> nat \<Rightarrow> WsSession \<Rightarrow> ConnectionHandler \<Rightarrow> 'w
    \<Rightarrow> (exn + action list) \<times> WsSession \<times> ConnectionHandler \<times> 'w" where
  "ws_onRead requestHandler ec bytesTransferred now s h w =
     (if ec = OperationAborted then (Inr [], s, h, w)
      else if ec = Closed then (Inr [], s, RemoveClient (session_kind s) (session_addr s) h, w)
      else
        let h1 = (if ec \<noteq> NoError then fail_session (session_kind s) (session_addr s) h else h);
            s1 = activity now s
        in case requestHandler (bufferRead s1) (session_channel s1) w of
             (Inl e, c, w1) \<Rightarrow> (Inl e, s1\<lparr>session_channel := c\<rparr>, h1, w1)
           | (Inr response, c, w1) \<Rightarrow>
               let s2 = s1\<lparr>session_channel := c, bufferRead := drop bytesTransferred (bufferRead s1)\<rparr>;
                   (as, s3) = ws_write response s2
               in (Inr (as @ [AsyncRead]), s3, h1, w1))"

lemmas ws_defs = rearm_def activity_def on_control_callback_def ws_doEof_def doTimeout_defs
  ws_onTimer_def ws_doAccept_def ws_run_def ws_onAccept_def ws_onPing_def ws_on_close_def
  ws_onShutdown_def fail_session_def

section \<open>The write queue\<close>

text \<open>What the library holds when it is given exactly the first message of the queue.\<close>

definition write_ready :: "WsSession \<Rightarrow> bool" where
  "write_ready s \<longleftrightarrow> bufferWrite s = (case writeQueue s of [] \<Rightarrow> [] | m # _ \<Rightarrow> m)"

fun writes :: "action list \<Rightarrow> string list" where
  "writes [] = []"
| "writes (AsyncWrite d # as) = d # writes as"
| "writes (_ # as) = writes as"

lemma writes_append [simp]: "writes (as @ bs) = writes as @ writes bs"
  by (induction as rule: writes.induct) simp_all

lemma ws_write_effect:
  assumes "write_ready s" "ws_write m s = (as, s')"
  shows "write_ready s'" "writeQueue s' = writeQueue s @ [m]"
    "writes as = (if writeQueue s = [] then [m] else [])"
    "s' = s\<lparr>writeQueue := writeQueue s', bufferWrite := bufferWrite s'\<rparr>"
  using assms by (auto simp: ws_write_def write_ready_def Let_def split: if_splits list.splits)

lemma ws_onWrite_effect:
  assumes "write_ready s" "writeQueue s \<noteq> []"
  shows "\<exists>as s'. ws_onWrite NoError (length (bufferWrite s)) s h = (Inr as, s', h)
    \<and> write_ready s' \<and> writeQueue s' = tl (writeQueue s)
    \<and> writes as = (case tl (writeQueue s) of [] \<Rightarrow> [] | m # _ \<Rightarrow> [m])"
proof -
  obtain m q where "writeQueue s = m # q" "bufferWrite s = m"
    using assms by (auto simp: write_ready_def neq_Nil_conv)
  then show ?thesis by (cases q) (auto simp: ws_onWrite_def write_ready_def Let_def)
qed

definition ws_pop :: "WsSession \<Rightarrow> WsSession" where
  "ws_pop s = fst (snd (ws_onWrite NoError (length (bufferWrite s)) s new_ConnectionHandler))"

interpretation ws_queue: fifo_queue writeQueue write_ready "\<lambda>m s. snd (ws_write m s)" ws_pop
proof unfold_locales
  fix s a assume "write_ready s"
  then show "writeQueue (snd (ws_write a s)) = writeQueue s @ [a]" "write_ready (snd (ws_write a s))"
    using ws_write_effect[of s a] by (metis prod.collapse)+
next
  fix s assume "write_ready s" "writeQueue s \<noteq> []"
  then show "writeQueue (ws_pop s) = tl (writeQueue s)" "write_ready (ws_pop s)"
    using ws_onWrite_effect[of s new_ConnectionHandler] by (auto simp: ws_pop_def)
qed

text \<open>
  The traffic of a session: writes from any thread, completions of the outstanding write, with or without an
  error, and handlers that leave the queue alone. \<open>out\<close> are the buffers handed to the library and not
  completed, \<open>don\<close> those written, \<open>wr\<close> the messages written so far, and \<open>err\<close> tells whether a write has ended
  with an error.
\<close>

type_synonym traffic = "WsSession \<times> string list \<times> string list \<times> string list \<times> bool"

inductive ws_traffic :: "traffic \<Rightarrow> traffic \<Rightarrow> bool" where
  written: "ws_write m s = (as, s') \<Longrightarrow> ws_traffic (s, out, don, wr, err) (s', out @ writes as, don, wr @ [m], err)"
| completed: "ws_onWrite NoError (length d) s h = (Inr as, s', h') \<Longrightarrow>
    ws_traffic (s, d # out, don, wr, err) (s', out @ writes as, don @ [d], wr, err)"
| failed: "ec \<noteq> NoError \<Longrightarrow> ws_onWrite ec n s h = (Inr as, s', h') \<Longrightarrow>
    ws_traffic (s, d # out, don, wr, err) (s', out @ writes as, don, wr, True)"
| other: "writeQueue s' = writeQueue s \<Longrightarrow> bufferWrite s' = bufferWrite s \<Longrightarrow>
    ws_traffic (s, out, don, wr, err) (s', out, don, wr, err)"

inductive_cases ws_trafficE: "ws_traffic (s, out, don, wr, err) (s', out', don', wr', err')"

definition traffic_ok :: "traffic \<Rightarrow> bool" where
  "traffic_ok t = (case t of (s, out, don, wr, err) \<Rightarrow>
     write_ready s \<and> don @ writeQueue s = wr
   \<and> (if err then out = [] \<and> writeQueue s \<noteq> [] else out = (case writeQueue s of [] \<Rightarrow> [] | m # _ \<Rightarrow> [m])))"

lemma ws_onWrite_error: "ec \<noteq> NoError \<Longrightarrow> ws_onWrite ec n s h = (r, s', h') \<Longrightarrow> r = Inr [] \<and> s' = s"
  by (auto simp: ws_onWrite_def split: if_splits)

lemma traffic_ok_step: "ws_traffic t t' \<Longrightarrow> traffic_ok t \<Longrightarrow> traffic_ok t'"
proof (induction rule: ws_traffic.induct)
  case (written m s as s' out don wr err)
  from written(2) have "write_ready s" by (simp add: traffic_ok_def)
  from ws_write_effect[OF this written(1)] written(2) show ?case
    by (auto simp: traffic_ok_def split: list.splits if_splits)
next
  case (completed d s h as s' h' out don wr err)
  from completed(2) have s: "write_ready s" "writeQueue s \<noteq> []" "d = bufferWrite s" "out = []" "\<not> err"
      "d = hd (writeQueue s)" "don @ writeQueue s = wr"
    by (auto simp: traffic_ok_def write_ready_def split: list.splits if_splits)
  from ws_onWrite_effect[OF s(1,2), of h] completed(1) s(3)
  have "write_ready s'" "writeQueue s' = tl (writeQueue s)"
      "writes as = (case tl (writeQueue s) of [] \<Rightarrow> [] | m # _ \<Rightarrow> [m])" by auto
  with s show ?case by (cases "writeQueue s") (auto simp: traffic_ok_def)
next
  case (failed ec n s h as s' h' d out don wr err)
  from ws_onWrite_error[OF failed(1,2)] failed(3) show ?case
    by (auto simp: traffic_ok_def split: list.splits if_splits)
next
  case (other s' s out don wr err)
  then show ?case by (simp add: traffic_ok_def write_ready_def)
qed

lemma traffic_ok_reachable: "ws_traffic\<^sup>*\<^sup>* t t' \<Longrightarrow> traffic_ok t \<Longrightarrow> traffic_ok t'"
  by (induction rule: rtranclp_induct) (auto dest: traffic_ok_step)

lemma new_session_traffic: "traffic_ok (new_WsSession kind addr c, [], [], [], False)"
  by (simp add: traffic_ok_def write_ready_def new_WsSession_def)

lemma session_traffic:
  assumes "ws_traffic\<^sup>*\<^sup>* (new_WsSession kind addr c, [], [], [], False) (s, out, don, wr, err)"
  shows "length out \<le> 1" "don @ writeQueue s = wr" "\<not> err \<Longrightarrow> out = [] \<longleftrightarrow> writeQueue s = []"
    "err \<Longrightarrow> out = [] \<and> writeQueue s \<noteq> []" "out = [d] \<Longrightarrow> fst (ws_onWrite NoError (length d) s h) \<noteq> Inl e"
proof -
  from traffic_ok_reachable[OF assms new_session_traffic] have ok: "traffic_ok (s, out, don, wr, err)" .
  then show "length out \<le> 1" "don @ writeQueue s = wr" "\<not> err \<Longrightarrow> out = [] \<longleftrightarrow> writeQueue s = []"
      "err \<Longrightarrow> out = [] \<and> writeQueue s \<noteq> []"
    by (auto simp: traffic_ok_def split: list.splits if_splits)
  assume "out = [d]"
  with ok have "write_ready s" "writeQueue s \<noteq> []" "d = bufferWrite s"
    by (auto simp: traffic_ok_def write_ready_def split: list.splits if_splits)
  with ws_onWrite_effect[of s h] show "fst (ws_onWrite NoError (length d) s h) \<noteq> Inl e" by auto
qed

text \<open>After a write that ended with an error nothing is handed to the library any more.\<close>

lemma failed_traffic_step:
  assumes "ws_traffic t t'" "t = (s, out, don, wr, True)" "traffic_ok t"
  shows "\<exists>s' wr'. t' = (s', [], don, wr', True)"
  using assms
proof (cases rule: ws_traffic.cases)
  case (written m s1 as s' out1 don1 wr1 err)
  with assms(2,3) have "write_ready s" "writeQueue s \<noteq> []" "out = []" by (auto simp: traffic_ok_def)
  with ws_write_effect(3)[of s m as s'] written assms(2) show ?thesis by auto
qed (auto simp: traffic_ok_def)

lemma failed_traffic:
  assumes "ws_traffic\<^sup>*\<^sup>* t t'" "t = (s, out, don, wr, True)" "traffic_ok t"
  shows "\<exists>s' wr'. t' = (s', [], don, wr', True)"
  using assms
proof (induction rule: rtranclp_induct)
  case base
  then show ?case by (simp add: traffic_ok_def)
next
  case (step t1 t2)
  then obtain s' wr' where "t1 = (s', [], don, wr', True)" by blast
  moreover have "traffic_ok t1" using traffic_ok_reachable[OF step(1) step(5)] .
  ultimately show ?case using failed_traffic_step[OF step(2)] by blast
qed

section \<open>Ping state and registration\<close>

lemma ws_ping_bound:
  "ping_state s \<le> 2 \<Longrightarrow> ws_onTimer ec now op s h = (as, s', h') \<Longrightarrow> ping_state s' \<le> 2"
  "ping_state s \<le> 2 \<Longrightarrow> ws_onPing ec s h = Inr (s', h') \<Longrightarrow> ping_state s' \<le> 2"
  by (auto simp: ws_defs Let_def split: if_splits)

text \<open>
  A ping is sent only from state 0; from there two expiries without activity close the session.
\<close>

lemma ws_onTimer_close:
  assumes "session_kind s = WEBSOCKET_PLAIN" "expired now (expiry s)"
  shows "AsyncClose \<in> set (fst (ws_onTimer NoError now op s h)) \<longleftrightarrow> (\<not> op \<or> ping_state s \<noteq> 0) \<and> \<not> close_flag s"
    "AsyncPing \<in> set (fst (ws_onTimer NoError now op s h)) \<longleftrightarrow> op \<and> ping_state s = 0"
  using assms by (auto simp: ws_defs)

lemma activity_not_expired: "now' < now + TIMEOUT_VALUE \<Longrightarrow> \<not> expired now' (expiry (activity now s))"
  by (simp add: ws_defs expired_def)

text \<open>The table of plain web-socket connections after any sequence of calls: the last one for a number decides.\<close>

theorem connection_registry:
  "connPlainWebSock (fold (\<lambda>c h. case c of Add a \<Rightarrow> AddClient WEBSOCKET_PLAIN a h | Remove k \<Rightarrow> RemoveClient WEBSOCKET_PLAIN k h) cs h) k =
     (case filter (\<lambda>c. (case c of Add a \<Rightarrow> a | Remove k' \<Rightarrow> k') = k) cs of
        [] \<Rightarrow> connPlainWebSock h k
      | hs \<Rightarrow> (case last hs of Add a \<Rightarrow> Some (client_channel WEBSOCKET_PLAIN a) | Remove _ \<Rightarrow> None))"
proof -
  have "(\<lambda>c h. case c of Add a \<Rightarrow> AddClient WEBSOCKET_PLAIN a h | Remove k \<Rightarrow> RemoveClient WEBSOCKET_PLAIN k h) = plain_ws.rstep"
    by (auto simp: fun_eq_iff split: rop.splits)
  moreover have "(\<lambda>c. (case c of Add a \<Rightarrow> a | Remove k' \<Rightarrow> k') = k) = (\<lambda>c. plain_ws.rop_key c = k)"
    by (auto simp: fun_eq_iff split: rop.splits)
  moreover have "(case c of Add a \<Rightarrow> Some (client_channel WEBSOCKET_PLAIN a) | Remove _ \<Rightarrow> None) = plain_ws.rop_result c" for c
    by (cases c) auto
  ultimately show ?thesis using plain_ws.find_history[of cs h k] by (simp only:)
qed

end
