(* ===== verification/HttpSessions.thy ===== *)
theory HttpSessions
  imports Sessions
begin

text \<open>
  \<open>src/WebSockHttpFlexServer.cpp\<close>, the part below the web-socket sessions: HTTP sessions with
  their queue of responses, the detection of SSL handshakes, and the listener. A plain HTTP session
  exists only to be upgraded: other requests are read and ignored.
\<close>

section \<open>The queue of responses\<close>

text \<open>An item is a response and whether the connection must be closed after it (\<open>need_eof\<close>).\<close>

type_synonym work = "string \<times> bool"

definition queue_limit :: nat where
  "queue_limit = 8"

definition is_full :: "work list \<Rightarrow> bool" where
  "is_full items \<longleftrightarrow> length items \<ge> queue_limit"

definition start_work :: "work \<Rightarrow> action" where
  "start_work w = AsyncHttpWrite (fst w) (snd w)"

definition queue_onWrite :: "work list \<Rightarrow> exn + (bool \<times> action list \<times> work list)" where
  "queue_onWrite items =
     (if items = [] then Inl Undefined
      else
        let was_full = is_full items; items' = tl items
        in Inr (was_full, (if items' \<noteq> [] then [start_work (hd items')] else []), items'))"

definition queue_send :: "work \<Rightarrow> work list \<Rightarrow> action list \<times> work list" where
  "queue_send msg items =
     (let items' = items @ [msg] in ((if length items' = 1 then [start_work (hd items')] else []), items'))"

interpretation http_queue: fifo_queue "\<lambda>items. items" "\<lambda>items. True" "\<lambda>m items. snd (queue_send m items)"
    "\<lambda>items. (case queue_onWrite items of Inr (_, _, items') \<Rightarrow> items' | Inl _ \<Rightarrow> items)"
  by unfold_locales (auto simp: queue_send_def queue_onWrite_def Let_def)

section \<open>HTTP sessions\<close>

record HttpSession =
  http_addr :: "64 word"
  http_kind :: conn_type
  http_queue :: "work list"
  http_expiry :: deadline
  http_buffer :: string
  http_channel :: KuksaChannel
  http_eof :: bool

definition new_HttpSession :: "conn_type \<Rightarrow> 64 word \<Rightarrow> string \<Rightarrow> KuksaChannel \<Rightarrow> HttpSession" where
  "new_HttpSession kind addr buffer some_channel =
     \<lparr>http_addr = addr, http_kind = kind, http_queue = [], http_expiry = None, http_buffer = buffer,
      http_channel = some_channel, http_eof = False\<rparr>"

definition http_doRead :: "nat \<Rightarrow> HttpSession \<Rightarrow> action list \<times> HttpSession" where
  "http_doRead now s = ([AsyncRead], s\<lparr>http_expiry := Some (now + TIMEOUT_VALUE)\<rparr>)"

text \<open>\<open>doEof\<close> and \<open>doTimeout\<close> of the plain and of the SSL session.\<close>

definition plain_http_doEof :: "HttpSession \<Rightarrow> action list \<times> HttpSession" where
  [simp]: "plain_http_doEof s = ([TcpShutdownSend], s)"

definition ssl_http_doEof :: "nat \<Rightarrow> HttpSession \<Rightarrow> action list \<times> HttpSession" where
  [simp]: "ssl_http_doEof now s = ([AsyncShutdown], s\<lparr>http_eof := True, http_expiry := Some (now + TIMEOUT_VALUE)\<rparr>)"

definition http_doEof :: "nat \<Rightarrow> HttpSession \<Rightarrow> action list \<times> HttpSession" where
  "http_doEof now s = (if http_kind s = HTTP_PLAIN then plain_http_doEof s else ssl_http_doEof now s)"

definition plain_http_doTimeout :: "HttpSession \<Rightarrow> action list \<times> HttpSession" where
  [simp]: "plain_http_doTimeout s = ([TcpClose], s)"

text \<open>The nested \<open>onTimer\<close> finds the largest time point not expired and only waits.\<close>

definition ssl_http_doTimeout :: "HttpSession \<Rightarrow> action list \<times> HttpSession" where
  [simp]: "ssl_http_doTimeout s = (if http_eof s then ([], s) else ([AsyncWait], s\<lparr>http_expiry := None\<rparr>))"

definition http_doTimeout :: "nat \<Rightarrow> HttpSession \<Rightarrow> action list \<times> HttpSession" where
  "http_doTimeout now s = (if http_kind s = HTTP_PLAIN then plain_http_doTimeout s else ssl_http_doTimeout s)"

definition http_onTimer :: "error_code \<Rightarrow> nat \<Rightarrow> HttpSession \<Rightarrow> ConnectionHandler \<Rightarrow> action list \<times> HttpSession \<times> ConnectionHandler" where
  "http_onTimer ec now s h =
     (if ec \<noteq> NoError \<and> ec \<noteq> OperationAborted then ([], s, fail_session (http_kind s) (http_addr s) h)
      else if expired now (http_expiry s) then (let (as, s') = http_doTimeout now s in (as, s', h))
      else ([AsyncWait], s, h))"

text \<open>The session kind a request is upgraded to, by the stream that is handed over.\<close>

definition upgraded :: "conn_type \<Rightarrow> conn_type" where
  "upgraded kind = (if kind = HTTP_PLAIN then WEBSOCKET_PLAIN else WEBSOCKET_SSL)"

text \<open>\<open>onRead\<close>; a read error is logged and otherwise treated like a request.\<close>

definition http_onRead :: "error_code \<Rightarrow> bool \<Rightarrow> nat \<Rightarrow> HttpSession \<Rightarrow> action list \<times> HttpSession" where
  "http_onRead ec is_upgrade now s =
     (if ec = OperationAborted then ([], s)
      else if ec = EndOfStream then http_doEof now s
      else if is_upgrade then ([StartWebsocket (upgraded (http_kind s))], s)
      else if \<not> is_full (http_queue s) then http_doRead now s
      else ([], s))"

definition http_onWrite :: "error_code \<Rightarrow> bool \<Rightarrow> nat \<Rightarrow> HttpSession \<Rightarrow> ConnectionHandler \<Rightarrow> (exn + action list) \<times> HttpSession \<times> ConnectionHandler" where
  "http_onWrite ec close now s h =
     (if ec = OperationAborted then (Inr [], s, h)
      else if ec \<noteq> NoError then (Inr [], s, fail_session (http_kind s) (http_addr s) h)
      else if close then (let (as, s') = http_doEof now s in (Inr as, s', h))
      else case queue_onWrite (http_queue s) of
             Inl e \<Rightarrow> (Inl e, s, h)
           | Inr (was_full, as, q) \<Rightarrow>
               let s1 = s\<lparr>http_queue := q\<rparr>
               in if was_full then (let (as', s2) = http_doRead now s1 in (Inr (as @ as'), s2, h))
                  else (Inr as, s1, h))"

text \<open>A response handed to the session's queue.\<close>

definition http_send :: "work \<Rightarrow> HttpSession \<Rightarrow> action list \<times> HttpSession" where
  "http_send msg s = (let (as, q) = queue_send msg (http_queue s) in (as, s\<lparr>http_queue := q\<rparr>))"

definition plain_http_run :: "nat \<Rightarrow> HttpSession \<Rightarrow> ConnectionHandler \<Rightarrow> action list \<times> HttpSession \<times> ConnectionHandler" where
  "plain_http_run now s h =
     (let h1 = AddClient HTTP_PLAIN (http_addr s) h;
          s1 = s\<lparr>http_channel := client_channel HTTP_PLAIN (http_addr s)\<rparr>;
          (as, s2, h2) = http_onTimer NoError now s1 h1;
          (as', s3) = http_doRead now s2
      in (as @ as', s3, h2))"

definition ssl_http_run :: "nat \<Rightarrow> HttpSession \<Rightarrow> ConnectionHandler \<Rightarrow> action list \<times> HttpSession \<times> ConnectionHandler" where
  "ssl_http_run now s h =
     ([AsyncHandshake],
      s\<lparr>http_channel := client_channel HTTP_SSL (http_addr s), http_expiry := Some (now + TIMEOUT_VALUE)\<rparr>,
      AddClient HTTP_SSL (http_addr s) h)"

definition http_run :: "nat \<Rightarrow> HttpSession \<Rightarrow> ConnectionHandler \<Rightarrow> action list \<times> HttpSession \<times> ConnectionHandler" where
  "http_run now s h = (if http_kind s = HTTP_PLAIN then plain_http_run now s h else ssl_http_run now s h)"

text \<open>The handlers of the SSL session; the failures are only logged there.\<close>

definition http_onHandshake :: "error_code \<Rightarrow> nat \<Rightarrow> nat \<Rightarrow> HttpSession \<Rightarrow> action list \<times> HttpSession" where
  "http_onHandshake ec bytes_used now s =
     (if ec = OperationAborted then ([], s)
      else if ec \<noteq> NoError then ([], s)
      else http_doRead now (s\<lparr>http_buffer := drop bytes_used (http_buffer s)\<rparr>))"

definition http_onShutdown :: "error_code \<Rightarrow> HttpSession \<Rightarrow> ConnectionHandler \<Rightarrow> ConnectionHandler" where
  "http_onShutdown ec s h =
     (if ec = OperationAborted then h
      else if ec \<noteq> NoError then h
      else RemoveClient (http_kind s) (http_addr s) h)"

section \<open>Accepting connections\<close>

datatype tribool = TTrue | TFalse | Indeterminate

text \<open>\<open>DetectSession::onDetect\<close>: the session that is started, if any.\<close>

definition onDetect :: "bool \<Rightarrow> error_code \<Rightarrow> tribool \<Rightarrow> action list" where
  "onDetect allowInsecureConns ec result =
     (if ec \<noteq> NoError then []
      else if result = TTrue then [StartHttp HTTP_SSL]
      else if allowInsecureConns then [StartHttp HTTP_PLAIN]
      else [])"

text \<open>
  The constructor of \<open>BeastListener\<close>: the codes its calls report. \<open>set_option\<close> has no code
  argument; \<open>Some e\<close> is the exception it throws instead.
\<close>

definition failFatal :: "exn + unit" where
  "failFatal = Inl (StdException ''Terminating.'')"

definition new_BeastListener :: "error_code \<Rightarrow> exn option \<Rightarrow> error_code \<Rightarrow> error_code \<Rightarrow> exn + unit" where
  "new_BeastListener open_ec option_exn bind_ec listen_ec =
     (if open_ec \<noteq> NoError then failFatal
      else case option_exn of Some e \<Rightarrow> Inl e
      | None \<Rightarrow> if bind_ec \<noteq> NoError then failFatal
                else if listen_ec \<noteq> NoError then failFatal
                else Inr ())"

definition listener_run :: "bool \<Rightarrow> action list" where
  "listener_run is_open = (if \<not> is_open then [] else [AsyncAcceptConnection])"

text \<open>An accepted socket goes to a \<open>DetectSession\<close>, whose \<open>run\<close> starts the detection.\<close>

definition detect_run :: "action list" where
  "detect_run = [AsyncDetect]"

definition listener_onAccept :: "error_code \<Rightarrow> action list" where
  "listener_onAccept ec = (if ec \<noteq> NoError then [] else detect_run) @ [AsyncAcceptConnection]"

section \<open>Lemmas\<close>

text \<open>Pipelining: at most the limit of responses waits, and reading resumes when there is room again.\<close>

lemma queue_bounded_read:
  "AsyncRead \<in> set (fst (http_onRead NoError False now s)) \<longleftrightarrow> length (http_queue s) < queue_limit"
  by (auto simp: http_onRead_def http_doRead_def is_full_def)

lemma http_onWrite_resume:
  assumes "http_queue s = w # q"
  shows "AsyncRead \<in> (case fst (http_onWrite NoError False now s h) of Inr as \<Rightarrow> set as | Inl _ \<Rightarrow> {})
    \<longleftrightarrow> queue_limit \<le> length (http_queue s)"
  using assms by (auto simp: http_onWrite_def queue_onWrite_def http_doRead_def is_full_def start_work_def Let_def)

text \<open>
  The timer of an SSL session is set and never waited for: an SSL connection that does not finish its
  handshake, or goes silent, starts no timer operation and is never closed by the server.
\<close>

lemma ssl_http_no_timer:
  "AsyncWait \<notin> set (fst (ssl_http_run now s h))"
  "http_kind s = HTTP_SSL \<Longrightarrow> AsyncWait \<notin> set (fst (http_onHandshake ec n now s))"
  "http_kind s = HTTP_SSL \<Longrightarrow> AsyncWait \<notin> set (fst (http_onRead ec up now s))"
  by (auto simp: ssl_http_run_def http_onHandshake_def http_onRead_def http_doRead_def http_doEof_def)

text \<open>No plain connection without the option.\<close>

lemma onDetect_plain: "StartHttp HTTP_PLAIN \<in> set (onDetect allow ec r) \<longleftrightarrow> allow \<and> ec = NoError \<and> r \<noteq> TTrue"
  by (auto simp: onDetect_def)

text \<open>Only an SSL session that is shut down without error removes its client; an end of stream
  on a plain session leaves it registered.\<close>

lemma http_eof_registered:
  "http_kind s = HTTP_PLAIN \<Longrightarrow> http_onRead EndOfStream up now s = ([TcpShutdownSend], s)"
  by (simp add: http_onRead_def http_doEof_def)

end
