(* ===== verification/WebSockServer.thy ===== *)
theory WebSockServer
  imports HttpSessions
begin

text \<open>
  The class \<open>WebSockHttpFlexServer\<close>: dispatching requests to the registered listeners, sending
  messages to connections by id, and starting up. The type of listeners \<open>'p\<close> stands for the command
  processors, objects told apart by identity; their \<open>processQuery\<close> is an argument.
\<close>

datatype ObserverType = OBS_WEBSOCKET | OBS_HTTP | OBS_ALL

record 'p WsServer =
  isInitialized :: bool
  allowInsecureConns :: bool
  connHandler :: ConnectionHandler
  sessions :: "64 word \<Rightarrow> WsSession option"
  listeners :: "(ObserverType \<times> 'p) list"
  ssl_files :: "(string \<times> string) option"
  iocRunners :: nat

definition new_WsServer :: "'p WsServer" where
  "new_WsServer =
     \<lparr>isInitialized = False, allowInsecureConns = False, connHandler = new_ConnectionHandler,
      sessions = Map.empty, listeners = [], ssl_files = None, iocRunners = 0\<rparr>"

section \<open>Listeners and requests\<close>

definition AddListener :: "ObserverType \<Rightarrow> 'p \<Rightarrow> 'p WsServer \<Rightarrow> 'p WsServer" where
  "AddListener ty listener s = s\<lparr>listeners := listeners s @ [(ty, listener)]\<rparr>"

definition RemoveListener :: "ObserverType \<Rightarrow> 'p \<Rightarrow> 'p WsServer \<Rightarrow> 'p WsServer" where
  "RemoveListener ty listener s = s\<lparr>listeners := remove1 (ty, listener) (listeners s)\<rparr>"

definition handler_type :: "conn_type \<Rightarrow> ObserverType" where
  "handler_type ty = (if ty = WEBSOCKET_PLAIN \<or> ty = WEBSOCKET_SSL then OBS_WEBSOCKET else OBS_HTTP)"

text \<open>
  The loop of \<open>HandleRequest\<close>: every listener of the type runs, and the last answer is kept.
\<close>

type_synonym ('p, 'w) processor = "'p \<Rightarrow> string \<Rightarrow> KuksaChannel \<Rightarrow> 'w \<Rightarrow> (exn + json) \<times> KuksaChannel \<times> 'w"

fun handle_loop :: "('p, 'w) processor \<Rightarrow> ObserverType \<Rightarrow> string \<Rightarrow> (ObserverType \<times> 'p) list \<Rightarrow> json \<Rightarrow> KuksaChannel \<Rightarrow> 'w
    \<Rightarrow> (exn + json) \<times> KuksaChannel \<times> 'w" where
  "handle_loop processQuery ty req [] response channel w = (Inr response, channel, w)"
| "handle_loop processQuery ty req ((ty', p) # rest) response channel w =
     (if ty' = OBS_ALL \<or> ty' = ty then
        (case processQuery p req channel w of
           (Inl e, channel', w') \<Rightarrow> (Inl e, channel', w')
         | (Inr response', channel', w') \<Rightarrow> handle_loop processQuery ty req rest response' channel' w')
      else handle_loop processQuery ty req rest response channel w)"

definition HandleRequest :: "'a lib_scheme \<Rightarrow> ('p, 'w) processor \<Rightarrow> (ObserverType \<times> 'p) list \<Rightarrow> string \<Rightarrow> KuksaChannel \<Rightarrow> 'w
    \<Rightarrow> (exn + string) \<times> KuksaChannel \<times> 'w" where
  "HandleRequest L processQuery ls req_json channel w =
     (case handle_loop processQuery (handler_type (getType channel)) req_json ls json_new channel w of
        (Inl e, channel', w') \<Rightarrow> (Inl e, channel', w')
      | (Inr response, channel', w') \<Rightarrow> (Inr (as_string L response), channel', w'))"

section \<open>Sending to a connection\<close>

text \<open>
  \<open>session->write(message)\<close> through the address a registered connection has; \<open>sessions\<close> holds the
  objects alive, and writing through the address of no object is undefined.
\<close>

definition write_to :: "64 word \<Rightarrow> string \<Rightarrow> 'p WsServer \<Rightarrow> (exn + bool) \<times> action list \<times> 'p WsServer" where
  "write_to connID message srv =
     (case sessions srv connID of
        None \<Rightarrow> (Inl Undefined, [], srv)
      | Some s \<Rightarrow>
          (let (as, s') = ws_write message s in (Inr True, as, srv\<lparr>sessions := (sessions srv)(connID \<mapsto> s')\<rparr>)))"

definition SendToConnection :: "64 word \<Rightarrow> string \<Rightarrow> 'p WsServer \<Rightarrow> (exn + bool) \<times> action list \<times> 'p WsServer" where
  "SendToConnection connID message srv =
     (if \<not> isInitialized srv then
        (Inl (StdException ''Cannot send to connection, server not initialized!''), [], srv)
      else if connPlainWebSock (connHandler srv) connID \<noteq> None then write_to connID message srv
      else if connSslWebSock (connHandler srv) connID \<noteq> None then write_to connID message srv
      else if connPlainHttp (connHandler srv) connID \<noteq> None then (Inr True, [], srv)
      else if connSslHttp (connHandler srv) connID \<noteq> None then (Inr True, [], srv)
      else (Inr False, [], srv))"

section \<open>Starting up\<close>

text \<open>The lines \<open>getline\<close> reads: a line end after the last line starts no further one.\<close>

definition getlines :: "string \<Rightarrow> string list" where
  "getlines content =
     (let ws = split_on CHR 0x0A content in if last ws = [] then butlast ws else ws)"

definition read_lines :: "string \<Rightarrow> string" where
  "read_lines content = concat (map (\<lambda>line. line @ [CHR 0x0A]) (getlines content))"

text \<open>
  \<open>LoadCertData\<close>: \<open>file\<close> gives the content of a readable file, \<open>use_cert\<close> whether the SSL context
  takes the certificate and the key. The last character of an empty path is undefined.
\<close>

definition LoadCertData :: "(string \<Rightarrow> string option) \<Rightarrow> (string \<Rightarrow> string \<Rightarrow> exn + unit) \<Rightarrow> string \<Rightarrow> 'p WsServer \<Rightarrow> (exn + unit) \<times> 'p WsServer" where
  "LoadCertData file use_cert certPath srv =
     (if certPath = [] then (Inl Undefined, srv)
      else
        let delimiter = (if last certPath = CHR ''/'' then [] else ''/'')
        in case file (certPath @ delimiter @ ''Server.pem'') of
             None \<Rightarrow> (Inl (StdException ''No certificate.''), srv)
           | Some pem \<Rightarrow>
               (case file (certPath @ delimiter @ ''Server.key'') of
                  None \<Rightarrow> (Inl (StdException ''No key.''), srv)
                | Some key \<Rightarrow>
                    (case use_cert (read_lines pem) (read_lines key) of
                       Inl e \<Rightarrow> (Inl e, srv)
                     | Inr _ \<Rightarrow> (Inr (), srv\<lparr>ssl_files := Some (read_lines pem, read_lines key), isInitialized := True\<rparr>))))"

text \<open>
  \<open>Initialize\<close>; \<open>resolve\<close> is the outcome of resolving host and port, \<open>listen\<close> that of the listener's
  constructor.
\<close>

definition Initialize :: "(string \<Rightarrow> string option) \<Rightarrow> (string \<Rightarrow> string \<Rightarrow> exn + unit) \<Rightarrow> exn + unit \<Rightarrow> exn + unit
    \<Rightarrow> string \<Rightarrow> bool \<Rightarrow> 'p WsServer \<Rightarrow> (exn + unit) \<times> 'p WsServer" where
  "Initialize file use_cert resolve listen certPath allowInsecure srv =
     (let srv1 = srv\<lparr>allowInsecureConns := allowInsecure\<rparr>
      in case resolve of
           Inl e \<Rightarrow> (Inl e, srv1)
         | Inr _ \<Rightarrow>
             (case LoadCertData file use_cert certPath srv1 of
                (Inl e, srv2) \<Rightarrow> (Inl e, srv2)
              | (Inr _, srv2) \<Rightarrow> (case listen of Inl e \<Rightarrow> (Inl e, srv2) | Inr _ \<Rightarrow> (Inr (), srv2))))"

definition NumOfThreads :: nat where
  "NumOfThreads = 1"

definition Start :: "bool \<Rightarrow> 'p WsServer \<Rightarrow> (exn + action list) \<times> 'p WsServer" where
  "Start acceptor_open srv =
     (if \<not> isInitialized srv then (Inl (StdException ''Cannot start server, server not initialized!''), srv)
      else (Inr (listener_run acceptor_open), srv\<lparr>iocRunners := iocRunners srv + NumOfThreads\<rparr>))"

section \<open>Lemmas\<close>

text \<open>The ids that are registered, and the objects that must be alive for them.\<close>

definition registered :: "'p WsServer \<Rightarrow> 64 word \<Rightarrow> bool" where
  "registered srv connID \<longleftrightarrow> (\<exists>kind. client_of (connHandler srv) (kind, connID) \<noteq> None)"

definition ws_registered :: "'p WsServer \<Rightarrow> 64 word \<Rightarrow> bool" where
  "ws_registered srv connID \<longleftrightarrow>
     connPlainWebSock (connHandler srv) connID \<noteq> None \<or> connSslWebSock (connHandler srv) connID \<noteq> None"

definition sessions_alive :: "'p WsServer \<Rightarrow> bool" where
  "sessions_alive srv \<longleftrightarrow> (\<forall>connID. ws_registered srv connID \<longrightarrow> sessions srv connID \<noteq> None)"

lemma registered_cases:
  "registered srv connID \<longleftrightarrow> ws_registered srv connID
     \<or> connPlainHttp (connHandler srv) connID \<noteq> None \<or> connSslHttp (connHandler srv) connID \<noteq> None"
proof -
  have "(\<exists>kind. P kind) \<longleftrightarrow> P WEBSOCKET_PLAIN \<or> P WEBSOCKET_SSL \<or> P HTTP_PLAIN \<or> P HTTP_SSL \<or> P GRPC" for P
    by (metis conn_type.exhaust)
  then show ?thesis by (auto simp: registered_def ws_registered_def)
qed

lemma SendToConnection_result:
  assumes "isInitialized srv" "sessions_alive srv"
  shows "fst (SendToConnection connID m srv) = Inr (registered srv connID)"
  using assms unfolding registered_cases
  by (auto simp: SendToConnection_def write_to_def ws_registered_def sessions_alive_def split: prod.splits)

text \<open>The message is appended to the write queue of that session, and to no other.\<close>

lemma SendToConnection_queue:
  assumes "isInitialized srv" "sessions_alive srv" "SendToConnection connID m srv = (r, as, srv')"
  shows "map_option writeQueue (sessions srv' c) =
      (if c = connID \<and> ws_registered srv connID then map_option (\<lambda>s. writeQueue s @ [m]) (sessions srv c)
       else map_option writeQueue (sessions srv c))"
    "connHandler srv' = connHandler srv" "listeners srv' = listeners srv" "isInitialized srv'" "sessions_alive srv'"
  using assms
  by (auto simp: SendToConnection_def write_to_def ws_registered_def sessions_alive_def ws_write_def Let_def
      split: if_splits option.splits prod.splits)

lemma handle_loop_filter:
  "handle_loop f ty req ls r c w = handle_loop f ty req (filter (\<lambda>(ty', p). ty' = OBS_ALL \<or> ty' = ty) ls) r c w"
  by (induction f ty req ls r c w rule: handle_loop.induct) (auto split: prod.splits sum.splits)

lemma HandleRequest_single:
  assumes "filter (\<lambda>(ty', p). ty' = OBS_ALL \<or> ty' = handler_type (getType c)) ls = [(t, p)]"
  shows "HandleRequest L f ls req c w =
    (case f p req c w of (Inl e, c', w') \<Rightarrow> (Inl e, c', w') | (Inr j, c', w') \<Rightarrow> (Inr (as_string L j), c', w'))"
proof -
  from assms have "(t, p) \<in> set (filter (\<lambda>(ty', p). ty' = OBS_ALL \<or> ty' = handler_type (getType c)) ls)" by simp
  then have "t = OBS_ALL \<or> t = handler_type (getType c)" by simp
  then show ?thesis
    unfolding HandleRequest_def by (subst handle_loop_filter) (auto simp: assms split: prod.splits sum.splits)
qed

text \<open>The text loaded is the file's, ended by a line end.\<close>

lemma getlines_concat: "concat (map (\<lambda>l. l @ [CHR 0x0A]) ws) = (if ws = [] then [] else join_with [CHR 0x0A] ws @ [CHR 0x0A])"
  by (induction ws) (auto simp: join_with_Cons)

lemma join_with_butlast: "ws \<noteq> [] \<Longrightarrow> last ws = [] \<Longrightarrow> butlast ws \<noteq> [] \<Longrightarrow> join_with sep ws = join_with sep (butlast ws) @ sep"
proof (induction ws)
  case (Cons w ws)
  then show ?case
    by (cases "butlast ws = []") (auto simp: join_with_Cons neq_Nil_conv split: if_splits)
qed simp

lemma read_lines_text:
  "read_lines content = (if content = [] \<or> last content = CHR 0x0A then content else content @ [CHR 0x0A])"
proof -
  let ?ws = "split_on CHR 0x0A content"
  note join = join_split[of "CHR 0x0A" content]
  show ?thesis
  proof (cases "last ?ws = []")
    case True
    show ?thesis
    proof (cases "butlast ?ws = []")
      case True
      with \<open>last ?ws = []\<close> have "?ws = [[]]" by (metis append_butlast_last_id append_Nil split_on_not_Nil)
      with join show ?thesis by (simp add: read_lines_def getlines_def Let_def)
    next
      case False
      have "content = join_with [CHR 0x0A] (butlast ?ws) @ [CHR 0x0A]"
        using join_with_butlast[OF split_on_not_Nil True False, of "[CHR 0x0A]"] join by simp
      then have "last content = CHR 0x0A" by (metis last_snoc)
      with join_with_butlast[OF split_on_not_Nil True False, of "[CHR 0x0A]"] join True False show ?thesis
        by (auto simp: read_lines_def getlines_def Let_def getlines_concat)
    qed
  next
    case False
    have "\<not> (content \<noteq> [] \<and> last content = CHR 0x0A)"
    proof
      assume "content \<noteq> [] \<and> last content = CHR 0x0A"
      then have "content = butlast content @ [CHR 0x0A]" by (metis append_butlast_last_id)
      then have "?ws = split_on CHR 0x0A (butlast content) @ [[]]"
        using split_on_append[of "CHR 0x0A" "butlast content" "[]"] by simp
      with False show False by simp
    qed
    moreover have "content \<noteq> []" using False by auto
    ultimately show ?thesis
      using False join by (simp add: read_lines_def getlines_def Let_def getlines_concat)
  qed
qed

end
