(* ===== verification/GrpcStream.thy ===== *)
theory GrpcStream
  imports Channel "HOL-Library.AList"
begin

text \<open>
  The messages of the gRPC interface and the two static functions of \<open>src/grpcHandler.cpp\<close> that
  fill and send them. A stream is an address; \<open>stream_log\<close> is what was written to each. The
  subscription maps that channels share live in \<open>subs_maps\<close>, by address.
\<close>

datatype grpc_val =
    VNotSet | VUint32 int | VInt32 int | VUint64 int | VInt64 int | VBool bool | VFloat fval | VDouble fval | VString string

text \<open>
  A value of \<open>protos/kuksa.proto\<close>. Its time stamp is a \<open>google.protobuf.Timestamp\<close>, whose seconds are an
  \<open>int64\<close> and whose nanoseconds are an \<open>int32\<close>: what is passed to \<open>set_seconds\<close> and \<open>set_nanos\<close> is narrowed.
\<close>

definition int64_of :: "int \<Rightarrow> int" where
  "int64_of i = sint (word_of_int i :: 64 word)"

definition int32_of :: "int \<Rightarrow> int" where
  "int32_of i = sint (word_of_int i :: 32 word)"

record grpc_value =
  v_path :: string
  v_val :: grpc_val
  v_seconds :: int
  v_nanos :: int

definition new_grpc_value :: grpc_value where
  "new_grpc_value = \<lparr>v_path = [], v_val = VNotSet, v_seconds = 0, v_nanos = 0\<rparr>"

record grpc_status =
  statuscode :: int
  statusdescription :: string

definition new_grpc_status :: grpc_status where
  "new_grpc_status = \<lparr>statuscode = 0, statusdescription = []\<rparr>"

record subscribe_response =
  resp_status :: grpc_status
  resp_values :: "grpc_value option"

type_synonym subs_map = "(uuid \<times> nat) list"

record grpc_world =
  subs_maps :: "nat \<Rightarrow> subs_map"
  next_map :: nat
  stream_log :: "nat \<Rightarrow> subscribe_response list"

definition stream_Write :: "nat \<Rightarrow> subscribe_response \<Rightarrow> grpc_world \<Rightarrow> grpc_world" where
  "stream_Write stream resp w = w\<lparr>stream_log := (stream_log w)(stream := stream_log w stream @ [resp])\<rparr>"

section \<open>Filling a value\<close>

text \<open>\<open>data["data"]["dp"][attr]\<close> and \<open>data["data"]["path"]\<close>.\<close>

definition dp_member :: "json \<Rightarrow> string \<Rightarrow> exn + json" where
  "dp_member data attr = bindE (json_at data ''data'') (\<lambda>d. bindE (json_at d ''dp'') (\<lambda>dp. json_at dp attr))"

fun int_num :: "numval \<Rightarrow> int" where
  "int_num (IVal i) = i"
| "int_num (FVal f) = 0"

fun real_num :: "numval \<Rightarrow> fval" where
  "real_num (FVal f) = f"
| "real_num (IVal i) = Fin (of_int i)"

definition grpc_convert :: "'a lib_scheme \<Rightarrow> string \<Rightarrow> json \<Rightarrow> exn + grpc_val" where
  "grpc_convert L vssdatatype j =
     (if vssdatatype = ''uint8'' \<or> vssdatatype = ''uint16'' \<or> vssdatatype = ''uint32'' then
        bindE (j_num L U32 j) (\<lambda>n. Inr (VUint32 (int_num n)))
      else if vssdatatype = ''int8'' \<or> vssdatatype = ''int16'' \<or> vssdatatype = ''int32'' then
        bindE (j_num L I32 j) (\<lambda>n. Inr (VInt32 (int_num n)))
      else if vssdatatype = ''uint64'' then bindE (j_num L U64 j) (\<lambda>n. Inr (VUint64 (int_num n)))
      else if vssdatatype = ''int64'' then bindE (j_num L I64 j) (\<lambda>n. Inr (VInt64 (int_num n)))
      else if vssdatatype = ''float'' then bindE (j_num L F32 j) (\<lambda>n. Inr (VFloat (real_num n)))
      else if vssdatatype = ''double'' then bindE (j_num L F64 j) (\<lambda>n. Inr (VDouble (real_num n)))
      else if vssdatatype = ''boolean'' then bindE (j_bool L j) (\<lambda>b. Inr (VBool b))
      else Inr (VString (as_string L j)))"

text \<open>The fields written before an exception stay written: the value is returned in both cases.\<close>

definition grpc_fill_value :: "'a lib_scheme \<Rightarrow> string \<Rightarrow> json \<Rightarrow> string \<Rightarrow> grpc_value \<Rightarrow> (exn + unit) \<times> grpc_value" where
  "grpc_fill_value L vssdatatype data attr v =
     (case bindE (dp_member data attr) (grpc_convert L vssdatatype) of
        Inl e \<Rightarrow> (Inl e, v)
      | Inr x \<Rightarrow>
          let v1 = v\<lparr>v_val := x\<rparr>
          in case bindE (json_at data ''data'') (\<lambda>d. json_at d ''path'') of
               Inl e \<Rightarrow> (Inl e, v1)
             | Inr p \<Rightarrow> (Inr (), v1\<lparr>v_path := as_string L p\<rparr>))"

text \<open>Always the attribute \<open>value\<close>, the default argument of \<open>grpc_fill_value\<close>.\<close>

definition grpc_send_object_to_stream :: "'a lib_scheme \<Rightarrow> string \<Rightarrow> json \<Rightarrow> nat \<Rightarrow> grpc_world \<Rightarrow> (exn + unit) \<times> grpc_world" where
  "grpc_send_object_to_stream L vssdatatype data stream w =
     (case grpc_fill_value L vssdatatype data ''value'' new_grpc_value of
        (Inl e, _) \<Rightarrow> (Inl e, w)
      | (Inr _, v) \<Rightarrow>
          (Inr (), stream_Write stream \<lparr>resp_status = new_grpc_status\<lparr>statuscode := 200\<rparr>, resp_values = Some v\<rparr> w))"

section \<open>Lemmas\<close>

text \<open>Narrowing keeps what fits; the other unsigned values come out negative.\<close>

lemma sint_of_unsigned:
  assumes "0 \<le> i" "i < 2 ^ LENGTH('a::len)"
  shows "sint (word_of_int i :: 'a word) = (if i < 2 ^ (LENGTH('a) - 1) then i else i - 2 ^ LENGTH('a))"
proof -
  have len: "(2::int) ^ LENGTH('a) = 2 * 2 ^ (LENGTH('a) - 1)" by (simp flip: power_Suc)
  show ?thesis
  proof (cases "i < 2 ^ (LENGTH('a) - 1)")
    case True
    with assms(1) show ?thesis by (simp add: sint_sbintrunc' signed_take_bit_int_eq_self)
  next
    case False
    have "signed_take_bit (LENGTH('a) - 1) i = signed_take_bit (LENGTH('a) - 1) (i - 2 ^ LENGTH('a))"
      by (rule signed_take_bit_eq_iff_take_bit_eq[THEN iffD2]) (simp add: take_bit_eq_mod)
    also have "\<dots> = i - 2 ^ LENGTH('a)"
      using assms False by (intro signed_take_bit_int_eq_self) (simp_all add: len)
    finally show ?thesis using False by (simp add: sint_sbintrunc')
  qed
qed

lemma int64_of_unsigned: "0 \<le> i \<Longrightarrow> i < 2 ^ 64 \<Longrightarrow> int64_of i = (if i < 2 ^ 63 then i else i - 2 ^ 64)"
  using sint_of_unsigned[of i, where 'a = 64] by (simp add: int64_of_def)

lemma int32_of_unsigned: "0 \<le> i \<Longrightarrow> i < 2 ^ 32 \<Longrightarrow> int32_of i = (if i < 2 ^ 31 then i else i - 2 ^ 32)"
  using sint_of_unsigned[of i, where 'a = 32] by (simp add: int32_of_def)

lemma narrow_range: "- (2 ^ 63) \<le> int64_of i" "int64_of i < 2 ^ 63" "- (2 ^ 31) \<le> int32_of i" "int32_of i < 2 ^ 31"
  using sint_greater_eq[of "word_of_int i :: 64 word"] sint_less[of "word_of_int i :: 64 word"]
    sint_greater_eq[of "word_of_int i :: 32 word"] sint_less[of "word_of_int i :: 32 word"]
  by (simp_all add: int64_of_def int32_of_def)

text \<open>The type of the value sent follows from the datatype, and an integer is within its width.\<close>

fun val_fits :: "grpc_val \<Rightarrow> bool" where
  "val_fits (VUint32 i) = (0 \<le> i \<and> i < 2 ^ 32)"
| "val_fits (VInt32 i) = (- (2 ^ 31) \<le> i \<and> i < 2 ^ 31)"
| "val_fits (VUint64 i) = (0 \<le> i \<and> i < 2 ^ 64)"
| "val_fits (VInt64 i) = (- (2 ^ 63) \<le> i \<and> i < 2 ^ 63)"
| "val_fits _ = True"

lemma num_typed_int: "is_int_type t \<Longrightarrow> num_typed t v \<Longrightarrow> num_min t \<le> int_num v \<and> int_num v \<le> num_max t"
  by (cases v) auto

lemma if_InrE: "(if c then a else b) = Inr x \<Longrightarrow> (a = Inr x \<Longrightarrow> P) \<Longrightarrow> (b = Inr x \<Longrightarrow> P) \<Longrightarrow> P"
  by (cases c) auto

lemma bindE_InrE: "bindE m f = Inr x \<Longrightarrow> (\<And>y. m = Inr y \<Longrightarrow> f y = Inr x \<Longrightarrow> P) \<Longrightarrow> P"
  by (cases m) auto

lemma grpc_convert_fits:
  assumes "num_doc L" "grpc_convert L dt j = Inr x"
  shows "val_fits x"
proof -
  have fits: "num_min t \<le> int_num n \<and> int_num n \<le> num_max t" if "j_num L t j = Inr n" "is_int_type t" for t n
    using num_typed_int[OF that(2) num_doc_typed[OF assms(1) that(1)]] .
  have fits32: "j_num L U32 j = Inr n \<Longrightarrow> val_fits (VUint32 (int_num n))"
    "j_num L I32 j = Inr n \<Longrightarrow> val_fits (VInt32 (int_num n))"
    "j_num L U64 j = Inr n \<Longrightarrow> val_fits (VUint64 (int_num n))"
    "j_num L I64 j = Inr n \<Longrightarrow> val_fits (VInt64 (int_num n))" for n
    using fits[of U32 n] fits[of I32 n] fits[of U64 n] fits[of I64 n] by (auto simp: num_min_def num_max_def)
  show ?thesis
    using assms(2)[unfolded grpc_convert_def]
    by (elim if_InrE bindE_InrE) (auto simp del: val_fits.simps(1-4) intro: fits32)
qed

lemma grpc_fill_ok:
  assumes "json_lookup data ''data'' = Some d" "json_lookup d ''dp'' = Some dp" "json_lookup dp attr = Some j"
    "grpc_convert L dt j = Inr x" "json_lookup d ''path'' = Some p"
  shows "grpc_fill_value L dt data attr v = (Inr (), v\<lparr>v_val := x, v_path := as_string L p\<rparr>)"
  using assms by (simp add: grpc_fill_value_def dp_member_def json_at_lookup)

lemma grpc_fill_path:
  "grpc_fill_value L dt data attr v = (Inr (), v') \<Longrightarrow>
   \<exists>d p. json_lookup data ''data'' = Some d \<and> json_lookup d ''path'' = Some p \<and> v_path v' = as_string L p"
  by (auto simp: grpc_fill_value_def bindE_Inr_conv json_at_Inr Let_def split: sum.splits)

lemma grpc_fill_no_attr:
  assumes "json_lookup data ''data'' = Some d" "json_lookup d ''dp'' = Some (JObj kvs)" "map_of kvs attr = None"
  shows "grpc_fill_value L dt data attr v = (Inl (KeyNotFound attr), v)"
  using assms by (simp add: grpc_fill_value_def dp_member_def json_at_lookup)

text \<open>A data point without the attribute \<open>value\<close> cannot be sent: the exception leaves the function.\<close>

lemma grpc_send_needs_value:
  assumes "json_lookup data ''data'' = Some d" "json_lookup d ''dp'' = Some (JObj kvs)" "map_of kvs ''value'' = None"
  shows "grpc_send_object_to_stream L dt data stream w = (Inl (KeyNotFound ''value''), w)"
  by (simp add: grpc_send_object_to_stream_def grpc_fill_no_attr[OF assms])

lemma grpc_send_value:
  assumes "json_lookup data ''data'' = Some d" "json_lookup d ''dp'' = Some dp" "json_lookup dp ''value'' = Some j"
    "grpc_convert L dt j = Inr x" "json_lookup d ''path'' = Some p"
  shows "grpc_send_object_to_stream L dt data stream w = (Inr (), stream_Write stream
    \<lparr>resp_status = new_grpc_status\<lparr>statuscode := 200\<rparr>, resp_values = Some (new_grpc_value\<lparr>v_val := x, v_path := as_string L p\<rparr>)\<rparr> w)"
  by (simp add: grpc_send_object_to_stream_def grpc_fill_ok[OF assms])

end
