(* ===== verification/SubscriptionHandler.thy ===== *)
theory SubscriptionHandler
  imports VssTree JsonResponses MQTTPublisher WebSockServer GrpcStream
begin

text \<open>
  \<open>src/SubscriptionHandler.cpp\<close>: who is notified of a new value. The two nested unordered maps are
  association lists without duplicate keys; the order of a list is the iteration order of the map,
  and the lemmas hold for every order. \<open>buffer\<close> is the queue between the threads that set values and
  the one that sends notifications. The operations run under the mutexes of the class; how their
  threads interleave is the subject of theory \<open>SubscriptionThreads\<close>.
\<close>

type_synonym sub_key = "string \<times> string"
type_synonym subscriptions_t = "(uuid \<times> KuksaChannel) list"
type_synonym notification = "uuid \<times> KuksaChannel \<times> string \<times> json"

record SubscriptionHandler =
  subscriptions :: "(sub_key \<times> subscriptions_t) list"
  publishers :: "(mosquitto \<times> MQTTPublisher) list"
  threadRun :: bool
  buffer :: "notification list"

definition new_SubscriptionHandler :: SubscriptionHandler where
  "new_SubscriptionHandler = \<lparr>subscriptions = [], publishers = [], threadRun = True, buffer = []\<rparr>"

definition addPublisher :: "mosquitto \<times> MQTTPublisher \<Rightarrow> SubscriptionHandler \<Rightarrow> SubscriptionHandler" where
  "addPublisher publisher sh = sh\<lparr>publishers := publishers sh @ [publisher]\<rparr>"

section \<open>Subscribing and unsubscribing\<close>

definition subs_for :: "SubscriptionHandler \<Rightarrow> sub_key \<Rightarrow> subscriptions_t" where
  "subs_for sh key = (case map_of (subscriptions sh) key of None \<Rightarrow> [] | Some m \<Rightarrow> m)"

definition add_subscription :: "sub_key \<Rightarrow> uuid \<Rightarrow> KuksaChannel \<Rightarrow> SubscriptionHandler \<Rightarrow> SubscriptionHandler" where
  "add_subscription subsKey subId channel sh =
     sh\<lparr>subscriptions := AList.update subsKey (AList.update subId channel (subs_for sh subsKey)) (subscriptions sh)\<rparr>"

definition subscribe :: "'a lib_scheme \<Rightarrow> uuid \<Rightarrow> KuksaChannel \<Rightarrow> VssDatabase \<Rightarrow> string \<Rightarrow> string \<Rightarrow> SubscriptionHandler
    \<Rightarrow> (exn + uuid) \<times> SubscriptionHandler" where
  "subscribe L subId channel db path attr sh =
     (let vssPath = fromVSS L path
      in case pathExists L db vssPath of
           Inl e \<Rightarrow> (Inl e, sh)
         | Inr ex \<Rightarrow>
             if \<not> ex then (Inl (NoPathFoundOnTree path), sh) else
             (case pathIsReadable L db vssPath of
                Inl e \<Rightarrow> (Inl e, sh)
              | Inr readable \<Rightarrow>
                  if \<not> readable then
                    (Inl (NoPathFoundOnTree (path @ '' is not a sensor, actor or attribute leaf. Subscribe not supported'')), sh)
                  else
                  (case checkReadAccess L channel vssPath of
                     Inl e \<Rightarrow> (Inl e, sh)
                   | Inr allowed \<Rightarrow>
                       if \<not> allowed then (Inl (NoPermission (''no permission to subscribe to path '' @ path)), sh)
                       else
                         let subsKey = (getVSSPath vssPath, attr)
                         in (Inr subId, add_subscription subsKey subId channel sh))))"

text \<open>\<open>unsubscribe\<close>: the loop over all paths; the result is 0 if any held the id, else -1.\<close>

fun unsub_loop :: "uuid \<Rightarrow> (sub_key \<times> subscriptions_t) list \<Rightarrow> bool \<times> (sub_key \<times> subscriptions_t) list" where
  "unsub_loop sid [] = (False, [])"
| "unsub_loop sid ((key, m) # rest) =
     (let (found, rest') = unsub_loop sid rest
      in if map_of m sid \<noteq> None then (True, (key, AList.delete sid m) # rest') else (found, (key, m) # rest'))"

definition unsubscribe :: "uuid \<Rightarrow> SubscriptionHandler \<Rightarrow> int \<times> SubscriptionHandler" where
  "unsubscribe subscribeID sh =
     (let (found, subs') = unsub_loop subscribeID (subscriptions sh)
      in ((if found then 0 else -1), sh\<lparr>subscriptions := subs'\<rparr>))"

text \<open>\<open>unsubscribeAll\<close>: for each path, \<open>find_if\<close> and \<open>erase\<close> of what it found.\<close>

fun erase_first_of :: "KuksaChannel \<Rightarrow> subscriptions_t \<Rightarrow> subscriptions_t" where
  "erase_first_of channel [] = []"
| "erase_first_of channel ((sid, c) # m) =
     (if same_channel c channel then m else (sid, c) # erase_first_of channel m)"

definition unsubscribeAll :: "KuksaChannel \<Rightarrow> SubscriptionHandler \<Rightarrow> SubscriptionHandler" where
  "unsubscribeAll channel sh =
     sh\<lparr>subscriptions := map (\<lambda>(key, m). (key, erase_first_of channel m)) (subscriptions sh)\<rparr>"

section \<open>Publishing\<close>

fun publish_mqtt :: "'a lib_scheme \<Rightarrow> string \<Rightarrow> json \<Rightarrow> (mosquitto \<times> MQTTPublisher) list \<Rightarrow> (exn + unit) \<times> (mosquitto \<times> MQTTPublisher) list" where
  "publish_mqtt L path value [] = (Inr (), [])"
| "publish_mqtt L path value ((M, p) # rest) =
     (case sendPathValue L M path value p of
        (Inl e, p') \<Rightarrow> (Inl e, (M, p') # rest)
      | (Inr _, p') \<Rightarrow> (let (r, rest') = publish_mqtt L path value rest in (r, (M, p') # rest')))"

definition push_note :: "notification \<Rightarrow> SubscriptionHandler \<Rightarrow> SubscriptionHandler" where
  "push_note n sh = sh\<lparr>buffer := buffer sh @ [n]\<rparr>"

definition pop_note :: "SubscriptionHandler \<Rightarrow> SubscriptionHandler" where
  "pop_note sh = sh\<lparr>buffer := tl (buffer sh)\<rparr>"

definition publishForVSSPath :: "'a lib_scheme \<Rightarrow> VSSPath \<Rightarrow> string \<Rightarrow> string \<Rightarrow> json \<Rightarrow> SubscriptionHandler \<Rightarrow> (exn + int) \<times> SubscriptionHandler" where
  "publishForVSSPath L path vssdatatype attr data sh =
     (case bindE (json_at data ''dp'') (\<lambda>dp. json_at dp attr) of
        Inl e \<Rightarrow> (Inl e, sh)
      | Inr value \<Rightarrow>
          (case publish_mqtt L (getVSSPath path) value (publishers sh) of
             (Inl e, ps) \<Rightarrow> (Inl e, sh\<lparr>publishers := ps\<rparr>)
           | (Inr _, ps) \<Rightarrow>
               let sh1 = sh\<lparr>publishers := ps\<rparr>; subsKey = (getVSSPath path, attr)
               in case map_of (subscriptions sh1) subsKey of
                    None \<Rightarrow> (Inr 0, sh1)
                  | Some handle \<Rightarrow> (Inr 0, fold (\<lambda>(sid, c). push_note (sid, c, vssdatatype, data)) handle sh1)))"

section \<open>The notification thread\<close>

text \<open>
  One notification that was taken from the buffer. For a gRPC channel the shared subscription map
  says which stream to write to; any other channel is a connection of the web-socket server. An
  exception leaves the thread function.
\<close>

definition notification_answer :: "'a lib_scheme \<Rightarrow> uuid \<Rightarrow> json \<Rightarrow> exn + json" where
  "notification_answer L subId data =
     bindE (json_at data ''dp'') (\<lambda>dp.
     bindE (convertJSONTimeStampToISO8601 L dp) (\<lambda>dp'.
     Inr (json_build [(''action'', JStr ''subscription''), (''subscriptionId'', JStr (uuid_show L subId)),
       (''data'', json_set data ''dp'' dp')])))"

definition send_note :: "'a lib_scheme \<Rightarrow> notification \<Rightarrow> 'p WsServer \<Rightarrow> grpc_world \<Rightarrow> (exn + bool) \<times> 'p WsServer \<times> grpc_world" where
  "send_note L note srv gw =
     (case note of (subId, channel, vssdatatype, data) \<Rightarrow>
        case notification_answer L subId data of
          Inl e \<Rightarrow> (Inl e, srv, gw)
        | Inr answer \<Rightarrow>
            let message = j_pretty L answer
            in if getType channel = GRPC then
                 (case grpcSubsMap channel of
                    None \<Rightarrow> (Inl Undefined, srv, gw)
                  | Some addr \<Rightarrow>
                      (case map_of (subs_maps gw addr) subId of
                         None \<Rightarrow> (Inr True, srv, gw)
                       | Some stream \<Rightarrow>
                           (let (r, gw') = grpc_send_object_to_stream L vssdatatype answer stream gw
                            in (map_sum (\<lambda>e. e) (\<lambda>_. True) r, srv, gw'))))
               else
                 (let (r, _, srv') = SendToConnection (getConnID channel) message srv in (r, srv', gw)))"

text \<open>A connection that no longer exists loses its subscriptions.\<close>

definition deliver :: "'a lib_scheme \<Rightarrow> notification \<Rightarrow> SubscriptionHandler \<Rightarrow> 'p WsServer \<Rightarrow> grpc_world
    \<Rightarrow> (exn + unit) \<times> SubscriptionHandler \<times> 'p WsServer \<times> grpc_world" where
  "deliver L note sh srv gw =
     (case send_note L note srv gw of
        (Inl e, srv', gw') \<Rightarrow> (Inl e, sh, srv', gw')
      | (Inr connectionexist, srv', gw') \<Rightarrow>
          (Inr (), if connectionexist then sh else unsubscribeAll (fst (snd note)) sh, srv', gw'))"

text \<open>One round of \<open>subThreadRunner\<close>: take a notification, or wait where there is none.\<close>

definition subThread_round :: "'a lib_scheme \<Rightarrow> SubscriptionHandler \<Rightarrow> 'p WsServer \<Rightarrow> grpc_world
    \<Rightarrow> (exn + unit) \<times> SubscriptionHandler \<times> 'p WsServer \<times> grpc_world" where
  "subThread_round L sh srv gw =
     (if length (buffer sh) > 0 then deliver L (hd (buffer sh)) (pop_note sh) srv gw
      else (Inr (), sh, srv, gw))"

definition isThreadRunning :: "SubscriptionHandler \<Rightarrow> bool" where
  "isThreadRunning sh = threadRun sh"

definition startThread :: "SubscriptionHandler \<Rightarrow> SubscriptionHandler" where
  "startThread sh = sh\<lparr>threadRun := True\<rparr>"

definition stopThread :: "SubscriptionHandler \<Rightarrow> SubscriptionHandler" where
  "stopThread sh = (if isThreadRunning sh then sh\<lparr>threadRun := False\<rparr> else sh)"

interpretation note_queue: fifo_queue buffer "\<lambda>sh. True" push_note pop_note
  by unfold_locales (simp_all add: push_note_def pop_note_def)

end
