(* ===== verification/SubscriptionLaws.thy ===== *)
theory SubscriptionLaws
  imports SubscriptionHandler
begin

text \<open>
  What the operations of the subscription handler do to the abstract view of its state: \<open>subscriber\<close>,
  the partial function from a path with attribute and a subscription id to the subscribed channel.
\<close>

definition subscriber :: "SubscriptionHandler \<Rightarrow> sub_key \<Rightarrow> uuid \<Rightarrow> KuksaChannel option" where
  "subscriber sh key sid = map_of (subs_for sh key) sid"

definition subs_wf :: "SubscriptionHandler \<Rightarrow> bool" where
  "subs_wf sh \<longleftrightarrow> distinct (map fst (subscriptions sh)) \<and> (\<forall>(key, m) \<in> set (subscriptions sh). distinct (map fst m))"

lemma subs_wf_for: "subs_wf sh \<Longrightarrow> distinct (map fst (subs_for sh key))"
  by (auto simp: subs_wf_def subs_for_def split: option.split dest: map_of_SomeD)

lemma new_subs_wf: "subs_wf new_SubscriptionHandler"
  by (simp add: subs_wf_def new_SubscriptionHandler_def)

section \<open>Subscribing\<close>

lemma set_update_subset: "set (AList.update k v kvs) \<subseteq> insert (k, v) (set kvs)"
  by (induction kvs) auto

lemma subscribe_cases:
  assumes "subscribe L subId channel db path attr sh = (r, sh')"
  shows "r = Inr subId \<and> pathExists L db (fromVSS L path) = Inr True \<and> pathIsReadable L db (fromVSS L path) = Inr True
      \<and> checkReadAccess L channel (fromVSS L path) = Inr True
      \<and> sh' = sh\<lparr>subscriptions := AList.update (getVSSPath (fromVSS L path), attr)
             (AList.update subId channel (subs_for sh (getVSSPath (fromVSS L path), attr))) (subscriptions sh)\<rparr>
    \<or> (\<exists>e. r = Inl e) \<and> sh' = sh"
  using assms by (auto simp: subscribe_def add_subscription_def Let_def split: sum.splits if_splits)

lemma subscribe_denied:
  assumes "pathExists L db (fromVSS L path) = Inr True" "pathIsReadable L db (fromVSS L path) = Inr True"
    "checkReadAccess L channel (fromVSS L path) = Inr False"
  shows "subscribe L subId channel db path attr sh = (Inl (NoPermission (''no permission to subscribe to path '' @ path)), sh)"
  using assms by (simp add: subscribe_def Let_def)

lemma subscribe_subscriber:
  assumes "subscribe L subId channel db path attr sh = (Inr u, sh')"
  shows "u = subId" "subscriber sh' key sid =
      (if key = (getVSSPath (fromVSS L path), attr) \<and> sid = subId then Some channel else subscriber sh key sid)"
    "buffer sh' = buffer sh" "publishers sh' = publishers sh" "threadRun sh' = threadRun sh"
  using subscribe_cases[OF assms]
  by (auto simp: subscriber_def subs_for_def update_conv' split: option.splits)

lemma subscribe_wf: "subscribe L subId channel db path attr sh = (r, sh') \<Longrightarrow> subs_wf sh \<Longrightarrow> subs_wf sh'"
proof -
  assume s: "subscribe L subId channel db path attr sh = (r, sh')" and wf: "subs_wf sh"
  have "subs_wf (sh\<lparr>subscriptions := AList.update key (AList.update subId channel (subs_for sh key)) (subscriptions sh)\<rparr>)" for key
    using wf subs_wf_for[OF wf, of key] set_update_subset[of key "AList.update subId channel (subs_for sh key)" "subscriptions sh"]
    by (fastforce simp: subs_wf_def intro: distinct_update)
  with subscribe_cases[OF s] wf show "subs_wf sh'" by auto
qed

section \<open>Unsubscribing\<close>

lemma unsub_loop_map:
  "unsub_loop sid subs = (\<exists>(key, m) \<in> set subs. map_of m sid \<noteq> None, map (\<lambda>(key, m). (key, AList.delete sid m)) subs)"
proof (induction subs)
  case (Cons km subs)
  obtain key m where km: "km = (key, m)" by (cases km)
  have "map_of m sid = None \<Longrightarrow> AList.delete sid m = m"
    by (induction m) (auto split: if_splits)
  with Cons km show ?case by auto
qed simp

lemma map_of_map_snd: "map_of (map (\<lambda>(k, m). (k, f m)) kvs) k = map_option f (map_of kvs k)"
  by (induction kvs) auto

lemma unsubscribe_subscriber:
  assumes "unsubscribe sid sh = (r, sh')"
  shows "subscriber sh' key sid' = (if sid' = sid then None else subscriber sh key sid')"
    "buffer sh' = buffer sh" "publishers sh' = publishers sh"
  using assms
  by (auto simp: unsubscribe_def unsub_loop_map subscriber_def subs_for_def map_of_map_snd delete_conv' split: option.splits)

lemma unsubscribe_wf: "unsubscribe sid sh = (r, sh') \<Longrightarrow> subs_wf sh \<Longrightarrow> subs_wf sh'"
  by (fastforce simp: unsubscribe_def unsub_loop_map subs_wf_def comp_def split_def intro: distinct_delete)

lemma unsubscribe_result:
  assumes "unsubscribe sid sh = (r, sh')" "subs_wf sh"
  shows "r = (if \<exists>key. subscriber sh key sid \<noteq> None then 0 else -1)"
proof -
  have "(\<exists>(key, m) \<in> set (subscriptions sh). map_of m sid \<noteq> None) \<longleftrightarrow> (\<exists>key. subscriber sh key sid \<noteq> None)"
  proof safe
    fix key path attr m c
    assume "((path, attr), m) \<in> set (subscriptions sh)" "map_of m sid = Some c"
    moreover from this(1) assms(2) have "map_of (subscriptions sh) (path, attr) = Some m" by (simp add: subs_wf_def)
    ultimately show "\<exists>key. subscriber sh key sid \<noteq> None"
      by (intro exI[of _ "(path, attr)"]) (simp add: subscriber_def subs_for_def)
  next
    fix path attr c
    assume "subscriber sh (path, attr) sid = Some c"
    then show "\<exists>(key, m) \<in> set (subscriptions sh). map_of m sid \<noteq> None"
      by (fastforce simp: subscriber_def subs_for_def split: option.splits dest: map_of_SomeD)
  qed
  with assms(1) show ?thesis by (auto simp: unsubscribe_def unsub_loop_map split: if_splits)
qed

text \<open>\<open>unsubscribeAll\<close> drops the first subscription of the channel on each path, and nothing else.\<close>

lemma subs_for_unsubscribeAll: "subs_for (unsubscribeAll channel sh) key = erase_first_of channel (subs_for sh key)"
  by (simp add: subs_for_def unsubscribeAll_def map_of_map_snd split: option.splits)

lemma erase_first_filter:
  "filter (\<lambda>(sid, c). \<not> same_channel c channel) (erase_first_of channel m) = filter (\<lambda>(sid, c). \<not> same_channel c channel) m"
  "filter (\<lambda>(sid, c). same_channel c channel) (erase_first_of channel m) = tl (filter (\<lambda>(sid, c). same_channel c channel) m)"
proof -
  show "filter (\<lambda>(sid, c). \<not> same_channel c channel) (erase_first_of channel m) = filter (\<lambda>(sid, c). \<not> same_channel c channel) m"
    by (induction m) auto
  show "filter (\<lambda>(sid, c). same_channel c channel) (erase_first_of channel m) = tl (filter (\<lambda>(sid, c). same_channel c channel) m)"
    by (induction m) auto
qed

definition subs_of_channel :: "KuksaChannel \<Rightarrow> subscriptions_t \<Rightarrow> subscriptions_t" where
  "subs_of_channel channel m = filter (\<lambda>(sid, c). same_channel c channel) m"

definition subs_of_others :: "KuksaChannel \<Rightarrow> subscriptions_t \<Rightarrow> subscriptions_t" where
  "subs_of_others channel m = filter (\<lambda>(sid, c). \<not> same_channel c channel) m"

lemma unsubscribeAll_spec:
  "subs_of_others channel (subs_for (unsubscribeAll channel sh) key) = subs_of_others channel (subs_for sh key)"
  "subs_of_channel channel (subs_for (unsubscribeAll channel sh) key) = tl (subs_of_channel channel (subs_for sh key))"
  "buffer (unsubscribeAll channel sh) = buffer sh" "publishers (unsubscribeAll channel sh) = publishers sh"
  by (simp_all add: subs_of_others_def subs_of_channel_def subs_for_unsubscribeAll erase_first_filter)
    (simp_all add: unsubscribeAll_def)

section \<open>Publishing\<close>

lemma fold_push: "fold (\<lambda>(sid, c). push_note (sid, c, dt, data)) m sh
    = sh\<lparr>buffer := buffer sh @ map (\<lambda>(sid, c). (sid, c, dt, data)) m\<rparr>"
  by (induction m arbitrary: sh) (auto simp: push_note_def)

text \<open>One notification for each subscriber of the path and attribute, none for anyone else.\<close>

lemma publish_buffer:
  assumes "publishForVSSPath L path dt attr data sh = (Inr n, sh')"
  shows "n = 0" "buffer sh' = buffer sh @ map (\<lambda>(sid, c). (sid, c, dt, data)) (subs_for sh (getVSSPath path, attr))"
    "subscriptions sh' = subscriptions sh"
  using assms by (auto simp: publishForVSSPath_def Let_def fold_push subs_for_def split: sum.splits prod.splits option.splits)

lemma publish_error_buffer:
  "publishForVSSPath L path dt attr data sh = (Inl e, sh') \<Longrightarrow> buffer sh' = buffer sh \<and> subscriptions sh' = subscriptions sh"
  by (auto simp: publishForVSSPath_def Let_def split: sum.splits prod.splits option.splits)

lemma publish_no_publishers:
  assumes "publishers sh = []" "json_lookup data ''dp'' = Some dp" "json_lookup dp attr = Some v"
  shows "publishForVSSPath L path dt attr data sh
    = (Inr 0, sh\<lparr>buffer := buffer sh @ map (\<lambda>(sid, c). (sid, c, dt, data)) (subs_for sh (getVSSPath path, attr))\<rparr>)"
proof -
  have "sh\<lparr>publishers := [], buffer := b\<rparr> = sh\<lparr>buffer := b\<rparr>" "sh\<lparr>publishers := []\<rparr> = sh" for b
    using assms(1) by (cases sh; simp)+
  with assms show ?thesis
    by (auto simp: publishForVSSPath_def json_at_lookup fold_push subs_for_def split: option.splits)
qed

section \<open>Delivering\<close>

lemma deliver_websocket:
  assumes "isInitialized srv" "sessions_alive srv" "typeOfConnection c \<noteq> GRPC"
    and answer: "notification_answer L sid data = Inr answer"
  shows "\<exists>sh' srv'. deliver L (sid, c, dt, data) sh srv gw = (Inr (), sh', srv', gw)
    \<and> (registered srv (connectionID c) \<longrightarrow> sh' = sh)
    \<and> (\<not> registered srv (connectionID c) \<longrightarrow> sh' = unsubscribeAll c sh)
    \<and> (\<forall>k. map_option writeQueue (sessions srv' k) =
         (if k = connectionID c \<and> ws_registered srv k then map_option (\<lambda>s. writeQueue s @ [j_pretty L answer]) (sessions srv k)
          else map_option writeQueue (sessions srv k)))"
proof -
  obtain as srv' where send: "SendToConnection (connectionID c) (j_pretty L answer) srv = (Inr (registered srv (connectionID c)), as, srv')"
    using SendToConnection_result[OF assms(1,2)] by (metis prod.collapse)
  from SendToConnection_queue(1)[OF assms(1,2) send] assms(3) answer send show ?thesis
    by (auto simp: deliver_def send_note_def Let_def channel_defs split: prod.splits)
qed

end
