(* ===== verification/TypeSanitizer.thy ===== *)
theory TypeSanitizer
  imports Externals
begin

text \<open>
  \<open>src/VSSTypeSanitizer.cpp\<close>: a value about to be stored is converted to the datatype of the
  node, or refused. A checker returns the converted value or the exception it throws.
\<close>

section \<open>The checkers\<close>

text \<open>\<open>operator<<\<close> on a value of type \<open>T\<close>: the two 8-bit types are character types.\<close>

fun stream_num :: "'a lib_scheme \<Rightarrow> numtype \<Rightarrow> numval \<Rightarrow> string" where
  "stream_num L t (IVal i) = (if t = U8 \<or> t = I8 then [char_of (nat (i mod 256))] else show_int i)"
| "stream_num L t (FVal f) = show_real L t f"

definition has_infinity :: "numtype \<Rightarrow> bool" where
  "has_infinity t = (t = F32 \<or> t = F64)"

definition as_double_text :: "'a lib_scheme \<Rightarrow> json \<Rightarrow> exn + string" where
  "as_double_text L j = bindE (j_num L F64 j) (\<lambda>d. Inr (stream_num L F64 d))"

text \<open>The two limit checks: throw when the value is on the wrong side of the limit given.\<close>

definition check_min :: "'a lib_scheme \<Rightarrow> numtype \<Rightarrow> json \<Rightarrow> numval \<Rightarrow> exn + unit" where
  "check_min L t meta cval =
     (case json_lookup meta ''min'' of None \<Rightarrow> Inr ()
      | Some bound \<Rightarrow>
          bindE (j_num L t bound) (\<lambda>m.
          if num_less cval m then
            bindE (as_double_text L bound) (\<lambda>txt.
              Inl (OutOfBound (''Value '' @ stream_num L t cval @ '' is out of bounds. Allowed minimum is '' @ txt)))
          else Inr ()))"

definition check_max :: "'a lib_scheme \<Rightarrow> numtype \<Rightarrow> json \<Rightarrow> numval \<Rightarrow> exn + unit" where
  "check_max L t meta cval =
     (case json_lookup meta ''max'' of None \<Rightarrow> Inr ()
      | Some bound \<Rightarrow>
          bindE (j_num L t bound) (\<lambda>m.
          if num_less m cval then
            bindE (as_double_text L bound) (\<lambda>txt.
              Inl (OutOfBound (''Value '' @ stream_num L t cval @ '' is out of bounds. Allowed maximum is '' @ txt)))
          else Inr ()))"

definition checkNumTypes :: "'a lib_scheme \<Rightarrow> numtype \<Rightarrow> json \<Rightarrow> json \<Rightarrow> exn + json" where
  "checkNumTypes L t meta val =
     (case j_num L t val of
        Inl e \<Rightarrow>
          bindE (json_at meta ''datatype'') (\<lambda>dt.
            Inl (OutOfBound (''Value '' @ j_dump L val @ '' can not be converted to defined type ''
                 @ as_string L dt @ ''. Reason: '' @ what L e)))
      | Inr cval \<Rightarrow>
          if has_infinity t \<and> (cval = FVal PInf \<or> cval = FVal NInf) then
            Inl (OutOfBound ''Value out of bounds. Reason: Infinity'')
          else
            bindE (check_min L t meta cval) (\<lambda>_.
            bindE (check_max L t meta cval) (\<lambda>_.
            bindE (j_num L t val) (\<lambda>v. Inr (json_of_num v)))))"

definition checkBoolType :: "'a lib_scheme \<Rightarrow> json \<Rightarrow> exn + json" where
  "checkBoolType L val =
     (let v = b_erase_all L (as_string L val) [CHR 0x22]
      in if v = ''true'' then Inr (JBool True)
         else if v = ''false'' then Inr (JBool False)
         else Inl (OutOfBound (as_string L val @ '' is not a bool. Valid values are true and false '')))"

definition array_items :: "'a lib_scheme \<Rightarrow> json \<Rightarrow> exn + json list" where
  "array_items L j =
     (case j of JArr vs \<Rightarrow> Inr vs | _ \<Rightarrow> (case j_not_array L j of None \<Rightarrow> Inr [] | Some e \<Rightarrow> Inl e))"

definition checkEnumType :: "'a lib_scheme \<Rightarrow> json \<Rightarrow> json \<Rightarrow> exn + json" where
  "checkEnumType L enumDefinition val =
     bindE (array_items L enumDefinition) (\<lambda>items.
       if \<exists>item \<in> set items. JStr (as_string L item) = val then Inr val
       else Inl (OutOfBound (as_string L val @ '' is a defined enum value. Valid values are '' @ j_dump L enumDefinition)))"

text \<open>
  \<open>std::string::rfind\<close> and the sizes it is compared with are 64-bit unsigned numbers; \<open>npos\<close> is
  the largest.
\<close>

definition rfind :: "string \<Rightarrow> string \<Rightarrow> 64 word" where
  "rfind s p = (case filter (\<lambda>i. prefix p (drop i s)) (rev [0..<Suc (length s)]) of
                  [] \<Rightarrow> - 1 | i # _ \<Rightarrow> word_of_nat i)"

definition substr0 :: "string \<Rightarrow> 64 word \<Rightarrow> string" where
  "substr0 s n = take (unat n) s"

text \<open>
  \<open>checkAndSanitizeType\<close> and \<open>VssDatabase::checkArrayType\<close>. The elements of an array are
  checked in copies, so a value that passes is stored as it was given.
\<close>

function checkAndSanitizeType :: "'a lib_scheme \<Rightarrow> json \<Rightarrow> json \<Rightarrow> exn + json"
  and checkArrayType :: "'a lib_scheme \<Rightarrow> string \<Rightarrow> json \<Rightarrow> exn + json" where
  "checkAndSanitizeType L meta val =
     bindE (json_at meta ''datatype'') (\<lambda>dtj.
     let dt = as_string L dtj in
     if dt = ''uint8'' then checkNumTypes L U8 meta val
     else if dt = ''int8'' then checkNumTypes L I8 meta val
     else if dt = ''uint16'' then checkNumTypes L U16 meta val
     else if dt = ''int16'' then checkNumTypes L I16 meta val
     else if dt = ''uint32'' then checkNumTypes L U32 meta val
     else if dt = ''int32'' then checkNumTypes L I32 meta val
     else if dt = ''uint64'' then checkNumTypes L U64 meta val
     else if dt = ''int64'' then checkNumTypes L I64 meta val
     else if dt = ''float'' then checkNumTypes L F32 meta val
     else if dt = ''double'' then checkNumTypes L F64 meta val
     else if dt = ''boolean'' then checkBoolType L val
     else if dt = ''string'' then
       bindE (case json_lookup meta ''allowed'' of None \<Rightarrow> Inr val | Some d \<Rightarrow> checkEnumType L d val) (\<lambda>_.
         case json_lookup meta ''enum'' of None \<Rightarrow> Inr val | Some d \<Rightarrow> checkEnumType L d val)
     else if rfind dt ''[]'' = word_of_nat (length dt) - 2 then
       checkArrayType L (substr0 dt (word_of_nat (length dt) - 2)) val
     else Inl (GenException (''The datatype '' @ dt @ '' is not supported '')))"
| "checkArrayType L subdatatype val =
     (let metadata = json_set json_new ''datatype'' (JStr subdatatype) in
      case (case val of
              JArr vs \<Rightarrow> forE (\<lambda>v. bindE (checkAndSanitizeType L metadata v) (\<lambda>_. Inr ())) vs
            | _ \<Rightarrow> (case j_not_array L val of None \<Rightarrow> Inr () | Some e \<Rightarrow> Inl e)) of
        Inr _ \<Rightarrow> Inr val
      | Inl e \<Rightarrow> Inl (OutOfBound (''Value '' @ j_dump L val @ '' can not be converted to defined type ''
                   @ subdatatype @ ''[]. Reason: '' @ what L e)))"
  by pat_completeness auto
termination
proof (relation "measure (\<lambda>x. case x of Inl (L, m, v) \<Rightarrow> Suc (2 * size v) | Inr (L, s, v) \<Rightarrow> 2 * size v)", goal_cases)
  case (3 L sub val metadata vs v)
  then have "size v < size val" by (auto intro: size_list_estimation less_Suc_eq_le[THEN iffD2] simp: size_list_estimation')
  then show ?case by simp
qed auto

declare checkAndSanitizeType.simps [simp del] checkArrayType.simps [simp del]

section \<open>Datatypes\<close>

definition num_of_datatype :: "string \<Rightarrow> numtype option" where
  "num_of_datatype dt = map_of
     [(''uint8'', U8), (''int8'', I8), (''uint16'', U16), (''int16'', I16), (''uint32'', U32), (''int32'', I32),
      (''uint64'', U64), (''int64'', I64), (''float'', F32), (''double'', F64)] dt"

lemma sanitize_num:
  "json_lookup meta ''datatype'' = Some (JStr dt) \<Longrightarrow> num_of_datatype dt = Some t \<Longrightarrow>
   checkAndSanitizeType L meta val = checkNumTypes L t meta val"
  by (subst checkAndSanitizeType.simps)
    (auto simp: json_at_lookup num_of_datatype_def split: if_splits)

lemma sanitize_bool:
  "json_lookup meta ''datatype'' = Some (JStr ''boolean'') \<Longrightarrow>
   checkAndSanitizeType L meta val = checkBoolType L val"
  by (subst checkAndSanitizeType.simps) (simp add: json_at_lookup)

lemma sanitize_string:
  "json_lookup meta ''datatype'' = Some (JStr ''string'') \<Longrightarrow>
   checkAndSanitizeType L meta val =
     bindE (case json_lookup meta ''allowed'' of None \<Rightarrow> Inr val | Some d \<Rightarrow> checkEnumType L d val) (\<lambda>_.
       case json_lookup meta ''enum'' of None \<Rightarrow> Inr val | Some d \<Rightarrow> checkEnumType L d val)"
  by (subst checkAndSanitizeType.simps) (simp add: json_at_lookup)

text \<open>What \<open>rfind\<close> finds.\<close>

lemma rfind_suffix:
  assumes "length s < 2 ^ 64 - 2"
  shows "rfind (s @ ''[]'') ''[]'' = word_of_nat (length s)"
proof -
  have "rev [0..<Suc (length (s @ ''[]''))] = [length s + 2, length s + 1] @ rev [0..<Suc (length s)]"
    by simp
  then show ?thesis by (simp add: rfind_def)
qed

lemma rfind_none:
  assumes "\<not> sublist p s" "p \<noteq> []" shows "rfind s p = - 1"
proof -
  have "\<not> prefix p (drop i s)" for i
    using assms(1) by (metis prefix_imp_sublist sublist_drop sublist_order.order_trans)
  then show ?thesis by (simp add: rfind_def)
qed

definition array_of :: "string \<Rightarrow> string" where
  "array_of dt = dt @ ''[]''"

lemma sanitize_array:
  assumes "json_lookup meta ''datatype'' = Some (JStr (array_of dt))" "length dt < 2 ^ 64 - 2"
  shows "checkAndSanitizeType L meta val = checkArrayType L dt val"
proof -
  let ?n = "word_of_nat (length (array_of dt)) - 2 :: 64 word"
  have n: "?n = word_of_nat (length dt)" by (simp add: array_of_def)
  have "substr0 (array_of dt) ?n = dt"
    using assms(2) by (simp add: n substr0_def array_of_def unat_of_nat take_bit_nat_eq_self)
  moreover have "rfind (array_of dt) ''[]'' = ?n"
    using trans[OF rfind_suffix[OF assms(2)] n [symmetric]] by (simp only: array_of_def)
  moreover have "last (array_of dt) = CHR '']''" by (simp add: array_of_def)
  moreover have "array_of dt \<notin> {''uint8'', ''int8'', ''uint16'', ''int16'', ''uint32'', ''int32'', ''uint64'',
      ''int64'', ''float'', ''double'', ''boolean'', ''string''}"
    using calculation(3) by auto
  ultimately show ?thesis
    by (subst checkAndSanitizeType.simps) (simp add: json_at_lookup assms(1) Let_def)
qed

section \<open>Lemmas\<close>

lemma checkNumTypes_Inr:
  assumes "num_doc L" "checkNumTypes L t meta val = Inr v"
  obtains n where "v = json_of_num n" "j_num L t val = Inr n" "num_typed t n"
    "n \<noteq> FVal PInf" "n \<noteq> FVal NInf"
    "check_min L t meta n = Inr ()" "check_max L t meta n = Inr ()"
proof -
  from assms(2) obtain n where n: "j_num L t val = Inr n"
    by (cases "j_num L t val") (auto simp: checkNumTypes_def bindE_Inr_conv)
  moreover have "num_typed t n" using num_doc_typed[OF assms(1) n] .
  moreover from this have "is_int_type t \<longrightarrow> n \<noteq> FVal PInf \<and> n \<noteq> FVal NInf" by auto
  ultimately show ?thesis
    using assms(2) that[of n]
    by (cases t) (auto simp: checkNumTypes_def has_infinity_def bindE_Inr_conv split: if_splits)
qed

lemma check_min_Inr: "check_min L t meta n = Inr () \<Longrightarrow> json_lookup meta ''min'' = Some b \<Longrightarrow> j_num L t b = Inr m \<Longrightarrow> \<not> num_less n m"
  and check_max_Inr: "check_max L t meta n = Inr () \<Longrightarrow> json_lookup meta ''max'' = Some b \<Longrightarrow> j_num L t b = Inr m \<Longrightarrow> \<not> num_less m n"
  by (auto simp: check_min_def check_max_def bindE_Inr_conv split: if_splits)

lemma sanitize_num_sound:
  assumes L: "num_doc L" and dt: "json_lookup meta ''datatype'' = Some (JStr dt)" "num_of_datatype dt = Some t"
    and ok: "checkAndSanitizeType L meta v = Inr v'"
  shows "\<exists>n. v' = json_of_num n \<and> num_typed t n \<and> n \<noteq> FVal PInf \<and> n \<noteq> FVal NInf
    \<and> (\<forall>b m. json_lookup meta ''min'' = Some b \<longrightarrow> j_num L t b = Inr m \<longrightarrow> \<not> num_less n m)
    \<and> (\<forall>b m. json_lookup meta ''max'' = Some b \<longrightarrow> j_num L t b = Inr m \<longrightarrow> \<not> num_less m n)"
proof -
  from ok have "checkNumTypes L t meta v = Inr v'" by (simp add: sanitize_num[OF dt])
  then show ?thesis
    using check_min_Inr check_max_Inr by (elim checkNumTypes_Inr[OF L]) blast
qed

text \<open>
  A value is accepted exactly if it converts, is not infinite and respects the limits there are; with limits
  that convert, a refusal is always \<open>outOfBoundException\<close>. A value that is not a number passes every limit.
\<close>

definition limits_convert :: "'a lib_scheme \<Rightarrow> numtype \<Rightarrow> json \<Rightarrow> bool" where
  "limits_convert L t meta \<longleftrightarrow>
     (\<forall>k \<in> {''min'', ''max''}. \<forall>b. json_lookup meta k = Some b \<longrightarrow> (\<exists>m d. j_num L t b = Inr m \<and> j_num L F64 b = Inr d))"

definition within_limits :: "'a lib_scheme \<Rightarrow> numtype \<Rightarrow> json \<Rightarrow> numval \<Rightarrow> bool" where
  "within_limits L t meta n \<longleftrightarrow>
     (\<forall>b m. json_lookup meta ''min'' = Some b \<longrightarrow> j_num L t b = Inr m \<longrightarrow> \<not> num_less n m)
   \<and> (\<forall>b m. json_lookup meta ''max'' = Some b \<longrightarrow> j_num L t b = Inr m \<longrightarrow> \<not> num_less m n)"

lemma check_limits:
  assumes "limits_convert L t meta"
  shows "check_min L t meta n = Inr () \<and> check_max L t meta n = Inr () \<longleftrightarrow> within_limits L t meta n"
    "check_min L t meta n = Inr () \<or> (\<exists>m. check_min L t meta n = Inl (OutOfBound m))"
    "check_max L t meta n = Inr () \<or> (\<exists>m. check_max L t meta n = Inl (OutOfBound m))"
proof -
  have min: "json_lookup meta ''min'' = None \<or> (\<exists>b m d. json_lookup meta ''min'' = Some b \<and> j_num L t b = Inr m \<and> j_num L F64 b = Inr d)"
    and max: "json_lookup meta ''max'' = None \<or> (\<exists>b m d. json_lookup meta ''max'' = Some b \<and> j_num L t b = Inr m \<and> j_num L F64 b = Inr d)"
    using assms unfolding limits_convert_def by (cases "json_lookup meta ''min''"; cases "json_lookup meta ''max''"; simp)+
  from min max show "check_min L t meta n = Inr () \<and> check_max L t meta n = Inr () \<longleftrightarrow> within_limits L t meta n"
    by (elim disjE exE conjE) (simp_all add: check_min_def check_max_def within_limits_def as_double_text_def)
  from min show "check_min L t meta n = Inr () \<or> (\<exists>m. check_min L t meta n = Inl (OutOfBound m))"
    by (elim disjE exE conjE) (simp_all add: check_min_def as_double_text_def)
  from max show "check_max L t meta n = Inr () \<or> (\<exists>m. check_max L t meta n = Inl (OutOfBound m))"
    by (elim disjE exE conjE) (simp_all add: check_max_def as_double_text_def)
qed

definition infinite_num :: "numval \<Rightarrow> bool" where
  "infinite_num n \<longleftrightarrow> n = FVal PInf \<or> n = FVal NInf"

lemma sanitize_num_iff:
  assumes L: "num_doc L" and dt: "json_lookup meta ''datatype'' = Some (JStr dt)" "num_of_datatype dt = Some t"
    and lim: "limits_convert L t meta"
  shows "checkAndSanitizeType L meta v = Inr v' \<longleftrightarrow>
      (\<exists>n. j_num L t v = Inr n \<and> \<not> infinite_num n \<and> within_limits L t meta n \<and> v' = json_of_num n)"
    "(\<exists>w. checkAndSanitizeType L meta v = Inr w) \<or> (\<exists>m. checkAndSanitizeType L meta v = Inl (OutOfBound m))"
proof -
  have inf: "has_infinity t \<and> (n = FVal PInf \<or> n = FVal NInf) \<longleftrightarrow> infinite_num n" if "j_num L t v = Inr n" for n
    using num_doc_typed[OF L that] by (cases t) (auto simp: has_infinity_def infinite_num_def)
  note check = check_limits[OF lim]
  show "checkAndSanitizeType L meta v = Inr v' \<longleftrightarrow>
      (\<exists>n. j_num L t v = Inr n \<and> \<not> infinite_num n \<and> within_limits L t meta n \<and> v' = json_of_num n)"
  proof (cases "j_num L t v")
    case (Inr n)
    with inf[OF Inr] check(1)[of n] show ?thesis
      by (auto simp: sanitize_num[OF dt] checkNumTypes_def bindE_Inr_conv)
  qed (auto simp: sanitize_num[OF dt] checkNumTypes_def bindE_Inr_conv)
  show "(\<exists>w. checkAndSanitizeType L meta v = Inr w) \<or> (\<exists>m. checkAndSanitizeType L meta v = Inl (OutOfBound m))"
  proof (cases "j_num L t v")
    case (Inr n)
    with check(2,3)[of n] show ?thesis
      by (elim disjE exE) (auto simp: sanitize_num[OF dt] checkNumTypes_def)
  qed (simp add: sanitize_num[OF dt] checkNumTypes_def json_at_lookup[OF dt(1)])
qed

lemma num_less_NaN: "\<not> num_less (FVal NaN) n" "\<not> num_less n (FVal NaN)"
proof -
  have "\<not> fless f NaN" for f by (cases f) simp_all
  then show "\<not> num_less (FVal NaN) n" "\<not> num_less n (FVal NaN)" by (cases n; simp)+
qed

lemma free_limits:
  assumes "json_lookup meta ''min'' = None" "json_lookup meta ''max'' = None"
  shows "limits_convert L t meta" "within_limits L t meta n"
  using assms by (simp_all add: limits_convert_def within_limits_def)

text \<open>Integers of a datatype without limits: as numbers and as text.\<close>

lemma sanitize_num_int:
  assumes L: "num_doc L" and dt: "json_lookup meta ''datatype'' = Some (JStr dt)" "num_of_datatype dt = Some t"
    and free: "json_lookup meta ''min'' = None" "json_lookup meta ''max'' = None" and ty: "is_int_type t"
    and i: "num_min t \<le> i" "i \<le> num_max t"
  shows "checkAndSanitizeType L meta (JInt i) = Inr (JInt i)"
  using num_doc_int[OF L, of t i] ty i
  by (simp add: sanitize_num_iff(1)[OF L dt free_limits(1)[OF free]] free_limits(2)[OF free] infinite_num_def)

lemma sanitize_num_text:
  assumes L: "num_doc L" and dt: "json_lookup meta ''datatype'' = Some (JStr dt)" "num_of_datatype dt = Some t"
    and free: "json_lookup meta ''min'' = None" "json_lookup meta ''max'' = None" and ty: "is_int_type t"
  shows "if num_min t \<le> i \<and> i \<le> num_max t then checkAndSanitizeType L meta (JStr (show_int i)) = Inr (JInt i)
    else \<exists>m. checkAndSanitizeType L meta (JStr (show_int i)) = Inl (OutOfBound m)"
proof (cases "num_typed t (IVal i)")
  case True
  with num_doc_text(1)[OF L ty True] ty show ?thesis
    by (simp add: sanitize_num_iff(1)[OF L dt free_limits(1)[OF free]] free_limits(2)[OF free] infinite_num_def)
next
  case False
  with num_doc_text(2)[OF L ty False] ty show ?thesis
    by (auto simp: sanitize_num[OF dt] checkNumTypes_def json_at_lookup[OF dt(1)])
qed

lemma checkArrayType_result:
  "checkArrayType L sub val = Inr val \<or> (\<exists>m. checkArrayType L sub val = Inl (OutOfBound m))"
  by (subst (1 2) checkArrayType.simps) (auto simp: Let_def split: sum.splits)

lemma checkArrayType_elements:
  "checkArrayType L sub (JArr vs) = Inr w \<longleftrightarrow>
   w = JArr vs \<and> (\<forall>v \<in> set vs. \<exists>v'. checkAndSanitizeType L (JObj [(''datatype'', JStr sub)]) v = Inr v')"
proof -
  have "forE (\<lambda>v. bindE (checkAndSanitizeType L (JObj [(''datatype'', JStr sub)]) v) (\<lambda>_. Inr ())) vs = Inr ()
    \<longleftrightarrow> (\<forall>v \<in> set vs. \<exists>v'. checkAndSanitizeType L (JObj [(''datatype'', JStr sub)]) v = Inr v')"
    by (auto simp: forE_Inr_conv bindE_Inr_conv)
  moreover have "(\<exists>u. m = Inr u) \<longleftrightarrow> m = Inr ()" for m :: "exn + unit" by auto
  ultimately show ?thesis
    by (subst checkArrayType.simps) (auto simp: Let_def split: sum.splits)
qed

lemma checkBoolType_Inr: "checkBoolType L val = Inr v \<Longrightarrow> \<exists>b. v = JBool b"
  by (auto simp: checkBoolType_def Let_def split: if_splits)

lemma checkEnumType_Inr:
  "checkEnumType L (JArr items) val = Inr v \<longleftrightarrow> v = val \<and> (\<exists>item \<in> set items. val = JStr (as_string L item))"
  by (auto simp: checkEnumType_def array_items_def)

end
