(* ===== verification/VssDatabase.thy ===== *)
theory VssDatabase
  imports SubscriptionLaws TypeSanitizer
begin

text \<open>
  The operations of \<open>VssDatabase\<close> that change or assemble data (\<open>src/VssDatabase.cpp\<close>): defaults,
  updates of the tree, metadata, and setting and getting a signal. Setting a signal publishes it, so
  the state of the subscription handler is threaded through. Every operation is one atomic step;
  \<open>rwMutex_\<close> is held while a signal is checked, stored and published.
\<close>

section \<open>Default values\<close>

lemma size_map_of: "map_of kvs k = Some v \<Longrightarrow> size v < size (JObj kvs)"
  using child_nodes_size[of "Name k" v "Name k" "JObj kvs"] by simp

text \<open>
  \<open>applyDefaultValues\<close>. The path argument of the code only appears in a log entry. Children that
  are not an object are iterated as \<open>object_range\<close> gives them, and their members cannot be reached.
\<close>

function applyDefaultValues :: "'a lib_scheme \<Rightarrow> json \<Rightarrow> exn + json"
  and default_children :: "'a lib_scheme \<Rightarrow> (string \<times> json) list \<Rightarrow> exn + (string \<times> json) list" where
  "applyDefaultValues L tree =
     (if isAttribute tree \<and> json_contains tree ''default'' then
        bindE (json_at tree ''default'') (\<lambda>d. Inr (json_set tree ''value'' (JStr (as_string L d))))
      else
        (case json_lookup tree ''children'' of
           None \<Rightarrow> Inr tree
         | Some (JObj ms) \<Rightarrow> bindE (default_children L ms) (\<lambda>ms'. Inr (json_set tree ''children'' (JObj ms')))
         | Some c \<Rightarrow> bindE (j_members L c) (\<lambda>ms. if ms = [] then Inr tree else Inl NotAnObject)))"
| "default_children L [] = Inr []"
| "default_children L ((k, c) # ms) =
     bindE (applyDefaultValues L c) (\<lambda>c'. bindE (default_children L ms) (\<lambda>ms'. Inr ((k, c') # ms')))"
  by pat_completeness auto
termination
proof (relation "measure (\<lambda>x. case x of Inl (L, t) \<Rightarrow> 2 * size t | Inr (L, ms) \<Rightarrow> 2 * size_list (size_prod (\<lambda>_. 0) size) ms + 1)", goal_cases)
  case (2 L tree v ms)
  then obtain kvs where "tree = JObj kvs" "map_of kvs ''children'' = Some (JObj ms)" by (cases tree) auto
  with size_map_of[OF this(2)] show ?case by simp
qed auto

declare applyDefaultValues.simps [simp del]

text \<open>
  \<open>initJsonTree\<close>, given the text of the file. \<open>throw e\<close> in the handler throws a copy of the static
  type of \<open>e\<close>, so whatever was caught leaves as a plain \<open>std::exception\<close>.
\<close>

definition initJsonTree :: "'a lib_scheme \<Rightarrow> string \<Rightarrow> VssDatabase \<Rightarrow> (exn + unit) \<times> VssDatabase" where
  "initJsonTree L content db =
     (case j_parse L content of
        Inl e \<Rightarrow> (Inl (if is_std_exception e then StdException ''std::exception'' else e), db)
      | Inr tree \<Rightarrow>
          let db1 = db\<lparr>data_tree := tree, meta_tree := tree\<rparr>
          in case bindE (json_at tree ''Vehicle'') (applyDefaultValues L) of
               Inl e \<Rightarrow> (Inl e, db1)
             | Inr vehicle \<Rightarrow> (Inr (), db1\<lparr>data_tree := json_set tree ''Vehicle'' vehicle\<rparr>))"

section \<open>Updating the trees\<close>

text \<open>The loop that keeps the patches other than \<open>remove\<close>.\<close>

fun keep_patches :: "json list \<Rightarrow> exn + json list" where
  "keep_patches [] = Inr []"
| "keep_patches (patch # rest) =
     bindE (json_at patch ''op'') (\<lambda>op.
     bindE (keep_patches rest) (\<lambda>kept. Inr (if op \<noteq> JStr ''remove'' then patch # kept else kept)))"

definition update_source :: "'a lib_scheme \<Rightarrow> json \<Rightarrow> json \<Rightarrow> (exn + unit) \<times> json" where
  "update_source L sourceTree jsonTree =
     (let patches = j_from_diff L sourceTree jsonTree
      in case bindE (array_items L patches) keep_patches of
           Inl e \<Rightarrow> (Inl e, sourceTree)
         | Inr patchArray \<Rightarrow>
             (let (sourceTree', ec) = j_apply_patch L sourceTree (JArr patchArray)
              in case ec of None \<Rightarrow> (Inr (), sourceTree') | Some message \<Rightarrow> (Inl (GenException message), sourceTree')))"

definition updateJsonTree :: "'a lib_scheme \<Rightarrow> KuksaChannel \<Rightarrow> json \<Rightarrow> VssDatabase \<Rightarrow> (exn + unit) \<times> VssDatabase" where
  "updateJsonTree L channel jsonTree db =
     (if \<not> authorizedToModifyTree channel then
        (Inl (NoPermission ''do not have write access for updating json tree or is invalid''), db)
      else
        case (case json_lookup jsonTree ''Vehicle'' of
                None \<Rightarrow> Inr jsonTree
              | Some v \<Rightarrow> bindE (applyDefaultValues L v) (\<lambda>v'. Inr (json_set jsonTree ''Vehicle'' v'))) of
          Inl e \<Rightarrow> (Inl e, db)
        | Inr tree \<Rightarrow>
            (case update_source L (meta_tree db) tree of
               (Inl e, meta) \<Rightarrow> (Inl e, db\<lparr>meta_tree := meta\<rparr>)
             | (Inr _, meta) \<Rightarrow>
                 (case update_source L (data_tree db) tree of
                    (r, dat) \<Rightarrow> (r, db\<lparr>meta_tree := meta, data_tree := dat\<rparr>))))"

text \<open>The single node a query result holds; a query always returns an array.\<close>

definition single_result :: "string \<Rightarrow> json list \<Rightarrow> exn + json" where
  "single_result jPath res = (if length res = 1 then Inr (res ! 0) else Inl (NotValid (jPath @ '' is not a valid path'')))"

definition updateMetaData :: "'a lib_scheme \<Rightarrow> KuksaChannel \<Rightarrow> VSSPath \<Rightarrow> json \<Rightarrow> VssDatabase \<Rightarrow> (exn + unit) \<times> VssDatabase" where
  "updateMetaData L channel path metadata db =
     (if \<not> authorizedToModifyTree channel then
        (Inl (NoPermission ''do not have write access for updating MetaData or is invalid''), db)
      else
        let jPath = getJSONPath path
        in case bindE (j_query L (meta_tree db) jPath) (\<lambda>resMetaTreeArray.
                bindE (j_query L (data_tree db) jPath) (\<lambda>resDataTreeArray.
                bindE (single_result jPath resMetaTreeArray) (\<lambda>resMetaTree.
                bindE (single_result jPath resDataTreeArray) (\<lambda>resDataTree.
                bindE (j_merge_update L resMetaTree metadata) (\<lambda>resMetaTree'.
                bindE (j_merge_update L resDataTree metadata) (\<lambda>resDataTree'.
                bindE (j_replace L (meta_tree db) jPath resMetaTree') (\<lambda>meta. Inr (meta, resDataTree')))))))) of
             Inl e \<Rightarrow> (Inl e, db)
           | Inr (meta, resDataTree') \<Rightarrow>
               (case j_replace L (data_tree db) jPath resDataTree' of
                  Inl e \<Rightarrow> (Inl e, db\<lparr>meta_tree := meta\<rparr>)
                | Inr dat \<Rightarrow> (Inr (), db\<lparr>meta_tree := meta, data_tree := dat\<rparr>)))"

section \<open>Metadata\<close>

text \<open>\<open>getPathTokens\<close> and \<open>getVSSTokens\<close>: \<open>tok\<close> is the token found and the text after it.\<close>

function path_tokens :: "(string \<times> string) option \<Rightarrow> string list" where
  "path_tokens None = []"
| "path_tokens (Some (tok, rest)) = tok # path_tokens (strtok rest ''.'')"
  by pat_completeness auto
termination
  by (relation "measure (\<lambda>t. case t of None \<Rightarrow> 0 | Some (tok, rest) \<Rightarrow> Suc (length rest))")
    (auto split: option.split dest: strtok_shorter)

definition getPathTokens :: "string \<Rightarrow> string list" where
  "getPathTokens path = path_tokens (strtok path ''.'')"

abbreviation open_delims :: string where
  "open_delims \<equiv> [CHR ''['', CHR 0x27]"

abbreviation close_delims :: string where
  "close_delims \<equiv> [CHR 0x27, CHR '']'']"

function vss_tokens :: "nat \<Rightarrow> (string \<times> string) option \<Rightarrow> string list" where
  "vss_tokens cnt None = []"
| "vss_tokens cnt (Some (tok, rest)) =
     (if cnt mod 2 = 0 then tok # vss_tokens (cnt + 1) (strtok rest close_delims)
      else vss_tokens (cnt + 1) (strtok rest open_delims))"
  by pat_completeness auto
termination
  by (relation "measure (\<lambda>(n, t). case t of None \<Rightarrow> 0 | Some (tok, rest) \<Rightarrow> Suc (length rest))")
    (auto split: option.split dest: strtok_shorter)

definition getVSSTokens :: "string \<Rightarrow> string list" where
  "getVSSTokens path = vss_tokens 1 (strtok path open_delims)"

text \<open>\<open>insert_or_assign\<close> on a value that need not be an object.\<close>

definition json_put :: "json \<Rightarrow> string \<Rightarrow> json \<Rightarrow> exn + json" where
  "json_put j k v = (if is_object j then Inr (json_set j k v) else Inl NotAnObject)"

text \<open>
  The first loop of \<open>getMetaData\<close> over the tokens from index \<open>i\<close> on. \<open>parents\<close> are the filled
  entries of \<open>parentArray\<close> and \<open>parentName\<close>, in order; an entry beyond the sixteenth is written
  outside the arrays. \<open>None\<close> as a result is the early \<open>return NULL\<close>.
\<close>

definition parent_slots :: nat where
  "parent_slots = 16"

definition as_text_member :: "'a lib_scheme \<Rightarrow> string \<Rightarrow> json \<Rightarrow> json" where
  "as_text_member L k j = (case json_lookup j k of None \<Rightarrow> j | Some v \<Rightarrow> json_set j k (JStr (as_string L v)))"

fun metadata_loop :: "'a lib_scheme \<Rightarrow> json \<Rightarrow> nat \<Rightarrow> string list \<Rightarrow> string \<Rightarrow> json \<Rightarrow> (json \<times> string) list
    \<Rightarrow> exn + ((json \<times> (json \<times> string) list) option)" where
  "metadata_loop L meta i [] format_path resJson parents = Inr (Some (resJson, parents))"
| "metadata_loop L meta i (token # tokens) format_path resJson parents =
     (let format_path' = format_path @ ''.'' @ token
      in if tokens \<noteq> [] \<and> token = ''children'' then metadata_loop L meta (i + 1) tokens format_path' resJson parents
         else
           bindE (j_query L meta format_path') (\<lambda>resArray.
           if length resArray = 1 then
             (let resJson1 = as_text_member L ''type'' (as_text_member L ''description'' (resArray ! 0));
                  resJson2 = (if tokens = [] \<and> token \<noteq> ''children'' then json_set json_new token resJson1 else resJson1)
              in if length parents \<ge> parent_slots then Inl Undefined
                 else metadata_loop L meta (i + 1) tokens format_path' resJson2 (parents @ [(resJson2, token)]))
           else Inr None))"

text \<open>The second loop, over the parents from the last but one backwards.\<close>

fun nest_parents :: "(json \<times> string) list \<Rightarrow> json \<Rightarrow> exn + json" where
  "nest_parents [] result = Inr result"
| "nest_parents ((element, name) # outer) result =
     bindE (json_put element ''children'' result) (\<lambda>element'.
       nest_parents outer (json_set json_new name element'))"

text \<open>\<open>return NULL\<close> converts the integer constant to a JSON value.\<close>

definition getMetaData :: "'a lib_scheme \<Rightarrow> VSSPath \<Rightarrow> VssDatabase \<Rightarrow> exn + json" where
  "getMetaData L path db =
     bindE (j_query_paths L (meta_tree db) (getJSONPath path)) (\<lambda>pathRes.
     if length pathRes = 0 then Inr (JInt 0) else
     bindE (metadata_loop L (meta_tree db) 0 (getVSSTokens (pathRes ! 0)) ''$'' json_new []) (\<lambda>r.
     case r of
       None \<Rightarrow> Inr (JInt 0)
     | Some (resJson, parents) \<Rightarrow> nest_parents (rev (butlast parents)) resJson))"

section \<open>Signals\<close>

text \<open>
  \<open>setSignal\<close>: the result, the value as it was sanitised in place, the database and the
  subscription handler. A path that does not name exactly one node stores nothing.
\<close>

definition setSignal :: "'a lib_scheme \<Rightarrow> int \<times> int \<Rightarrow> VSSPath \<Rightarrow> string \<Rightarrow> json \<Rightarrow> VssDatabase \<Rightarrow> SubscriptionHandler
    \<Rightarrow> (exn + json) \<times> json \<times> VssDatabase \<times> SubscriptionHandler" where
  "setSignal L clock path attr value db sh =
     (let data = json_set json_new ''path'' (JStr (to_string path))
      in case j_query L (data_tree db) (getJSONPath path) of
           Inl e \<Rightarrow> (Inl e, value, db, sh)
         | Inr res \<Rightarrow>
             if length res \<noteq> 1 then (Inr data, value, db, sh)
             else
               let resJson = res ! 0
               in if \<not> json_contains resJson ''datatype'' then (Inl (GenException (getVSSPath path @ ''is invalid for set'')), value, db, sh)
                  else
                    (case checkAndSanitizeType L resJson value of
                       Inl e \<Rightarrow> (Inl e, value, db, sh)
                     | Inr value' \<Rightarrow>
                         let resJson1 = addTimeStampToJSON clock (json_set resJson attr value') (''-'' @ attr)
                         in case j_replace L (data_tree db) (getJSONPath path) resJson1 of
                              Inl e \<Rightarrow> (Inl e, value', db, sh)
                            | Inr tree \<Rightarrow>
                                let db' = db\<lparr>data_tree := tree\<rparr>
                                in case bindE (json_at resJson1 (''ts_s-'' @ attr)) (\<lambda>s.
                                        bindE (json_at resJson1 (''ts_ns-'' @ attr)) (\<lambda>ns.
                                        bindE (json_at resJson1 ''datatype'') (\<lambda>dt. Inr (s, ns, dt)))) of
                                     Inl e \<Rightarrow> (Inl e, value', db', sh)
                                   | Inr (s, ns, dt) \<Rightarrow>
                                       let datapoint = json_build [(attr, value'), (''ts_s'', s), (''ts_ns'', ns)];
                                           data' = json_set data ''dp'' datapoint
                                       in (case publishForVSSPath L path (as_string L dt) attr data' sh of
                                             (Inl e, sh') \<Rightarrow> (Inl e, value', db', sh')
                                           | (Inr _, sh') \<Rightarrow> (Inr data', value', db', sh'))))"

definition getSignal :: "'a lib_scheme \<Rightarrow> VSSPath \<Rightarrow> string \<Rightarrow> bool \<Rightarrow> VssDatabase \<Rightarrow> exn + json" where
  "getSignal L path attr as_str db =
     bindE (j_query L (data_tree db) (getJSONPath path)) (\<lambda>resArray.
     bindE (elem_at resArray 0) (\<lambda>result.
     case json_lookup result attr of
       None \<Rightarrow> Inl (NotSet (''Attribute '' @ attr @ '' on '' @ getVSSPath path @ '' has not been set yet.''))
     | Some v \<Rightarrow>
         let datapoint = json_set json_new attr (if as_str then JStr (as_string L v) else v)
         in bindE (case (json_lookup result (''ts_s-'' @ attr), json_lookup result (''ts_ns-'' @ attr)) of
                     (Some s, Some ns) \<Rightarrow>
                        bindE (j_num L U64 s) (\<lambda>s'. bindE (j_num L U32 ns) (\<lambda>ns'. Inr (json_of_num s', json_of_num ns')))
                   | _ \<Rightarrow> Inr (JInt 0, JInt 0)) (\<lambda>(s, ns).
            let dp = json_set (json_set datapoint ''ts_s'' s) ''ts_ns'' ns
            in bindE (if as_str then convertJSONTimeStampToISO8601 L dp else Inr dp) (\<lambda>dp'.
               Inr (json_set (json_set json_new ''path'' (JStr (to_string path))) ''dp'' dp')))))"

end
