(* ===== verification/DatabaseLaws.thy ===== *)
theory DatabaseLaws
  imports VssDatabase
begin

text \<open>
  The contract of the signal store: what was set is what is read, other signals are left alone, a
  value that is refused changes nothing, and a set publishes to the subscribers. \<open>stored\<close> is the node
  a successful set leaves in the tree.
\<close>

section \<open>Publishers that do not throw\<close>

definition publishers_ok :: "'a lib_scheme \<Rightarrow> (mosquitto \<times> MQTTPublisher) list \<Rightarrow> bool" where
  "publishers_ok L ps \<longleftrightarrow> regex_doc L \<and> (\<forall>(M, p) \<in> set ps. \<forall>k \<in> set (paths p). pattern_items k \<noteq> None)"

lemma publish_mqtt_ok:
  "publishers_ok L ps \<Longrightarrow> \<exists>ps'. publish_mqtt L path value ps = (Inr (), ps') \<and> publishers_ok L ps'"
proof (induction ps)
  case (Cons Mp ps)
  obtain M p where Mp: "Mp = (M, p)" by (cases Mp)
  from Cons.prems have reg: "regex_doc L" and pats: "\<And>k. k \<in> set (paths p) \<Longrightarrow> pattern_items k \<noteq> None"
    and rest: "publishers_ok L ps" by (auto simp: publishers_ok_def Mp)
  obtain b p' where send: "sendPathValue L M path value p = (Inr b, p')"
    using send_loop_result[OF reg pats, of "paths p" M path "value" p]
    by (auto simp: sendPathValue_def split: prod.splits if_splits)
  obtain r n c ms where "send_loop L M path value (paths p) p = (r, p\<lparr>connects := n, isConnected := c, sent := sent p @ ms\<rparr>)"
    using send_loop_frame by blast
  with send have "paths p' = paths p" by (auto simp: sendPathValue_def)
  with Cons.IH[OF rest] send pats show ?case by (auto simp: Mp publishers_ok_def)
qed (simp add: publishers_ok_def)

lemma publish_ok:
  assumes "publishers_ok L (publishers sh)" "json_lookup data ''dp'' = Some dp" "json_lookup dp attr = Some v"
  shows "\<exists>sh'. publishForVSSPath L path dt attr data sh = (Inr 0, sh') \<and> publishers_ok L (publishers sh')
    \<and> buffer sh' = buffer sh @ map (\<lambda>(sid, c). (sid, c, dt, data)) (subs_for sh (getVSSPath path, attr))
    \<and> subscriptions sh' = subscriptions sh"
proof -
  obtain ps' where ps: "publish_mqtt L (getVSSPath path) v (publishers sh) = (Inr (), ps')" "publishers_ok L ps'"
    using publish_mqtt_ok[OF assms(1)] by blast
  have val: "bindE (json_at data ''dp'') (\<lambda>dp. json_at dp attr) = Inr v"
    using assms(2,3) by (simp add: json_at_lookup)
  show ?thesis
    using ps by (auto simp: publishForVSSPath_def val Let_def fold_push subs_for_def split: option.splits)
qed

section \<open>The node a set leaves\<close>

definition stored :: "int \<times> int \<Rightarrow> string \<Rightarrow> json \<Rightarrow> json \<Rightarrow> json" where
  "stored clock attr value node = addTimeStampToJSON clock (json_set node attr value) (''-'' @ attr)"

lemma stored_object: "is_object (stored clock attr value node) = is_object node"
  by (simp add: stored_def addTimeStampToJSON_def Let_def)

text \<open>The attributes a request can set.\<close>

definition signal_attr :: "string \<Rightarrow> bool" where
  "signal_attr attr \<longleftrightarrow> attr = ''value'' \<or> attr = ''targetValue''"

lemma stored_lookup:
  assumes "is_object node"
  shows "json_lookup (stored clock attr value node) k =
    (if k = ''ts_ns-'' @ attr then Some (JInt (snd clock)) else if k = ''ts_s-'' @ attr then Some (JInt (fst clock))
     else if k = attr then Some value else json_lookup node k)"
  using assms by (auto simp: stored_def addTimeStampToJSON_def Let_def json_lookup_set)

lemma stored_meta:
  assumes "is_object node" "signal_attr attr" "k \<in> {''datatype'', ''min'', ''max'', ''allowed'', ''enum'', ''type''}"
  shows "json_lookup (stored clock attr value node) k = json_lookup node k"
  using assms by (auto simp: stored_lookup signal_attr_def)

text \<open>The check of a value only reads the metadata members of its node.\<close>

lemma check_meta_cong:
  assumes obj: "is_object m" "is_object m'"
    and same: "\<And>k. k \<in> {''datatype'', ''min'', ''max'', ''allowed'', ''enum''} \<Longrightarrow> json_lookup m k = json_lookup m' k"
  shows "checkAndSanitizeType L m v = checkAndSanitizeType L m' v"
proof -
  have at: "json_at m ''datatype'' = json_at m' ''datatype''"
    using obj same[of "''datatype''"] by (cases m; cases m') auto
  have "check_min L t m = check_min L t m'" "check_max L t m = check_max L t m'" for t
    using same[of "''min''"] same[of "''max''"] by (simp_all add: fun_eq_iff check_min_def check_max_def)
  with at have num: "checkNumTypes L t m v = checkNumTypes L t m' v" for t
    by (simp only: checkNumTypes_def)
  have "json_lookup m ''allowed'' = json_lookup m' ''allowed''" "json_lookup m ''enum'' = json_lookup m' ''enum''"
    using same by simp_all
  then show ?thesis by (simp only: checkAndSanitizeType.simps at num)
qed

section \<open>Setting\<close>

text \<open>The point a set answers with and publishes.\<close>

definition data_point :: "VSSPath \<Rightarrow> int \<times> int \<Rightarrow> string \<Rightarrow> json \<Rightarrow> json" where
  "data_point path clock attr value =
     json_set (json_set json_new ''path'' (JStr (to_string path))) ''dp''
       (json_build [(attr, value), (''ts_s'', JInt (fst clock)), (''ts_ns'', JInt (snd clock))])"

lemma data_point_lookup:
  "json_lookup (data_point path clock attr value) ''path'' = Some (JStr (to_string path))"
  "\<exists>dp. json_lookup (data_point path clock attr value) ''dp'' = Some dp \<and> is_object dp
     \<and> json_lookup dp ''ts_s'' = (if attr = ''ts_s'' then json_lookup dp ''ts_s'' else Some (JInt (fst clock)))
     \<and> (signal_attr attr \<longrightarrow> json_lookup dp attr = Some value \<and> json_lookup dp ''ts_ns'' = Some (JInt (snd clock)))"
  by (simp_all add: data_point_def json_lookup_set json_build_lookup signal_attr_def)

lemma setSignal_stores:
  assumes L: "jsonpath_doc L" and path: "denotes path ss" and node: "path_nodes ss (data_tree db) = [(q, node)]"
    and dt: "json_lookup node ''datatype'' = Some dt" and attr: "signal_attr attr"
    and check: "checkAndSanitizeType L node value = Inr value'" and pubs: "publishers_ok L (publishers sh)"
  shows "\<exists>sh'. setSignal L clock path attr value db sh =
      (Inr (data_point path clock attr value'), value',
       db\<lparr>data_tree := path_replace ss (stored clock attr value' node) (data_tree db)\<rparr>, sh')
    \<and> publishers_ok L (publishers sh') \<and> subscriptions sh' = subscriptions sh
    \<and> buffer sh' = buffer sh @ map (\<lambda>(sid, c). (sid, c, as_string L dt, data_point path clock attr value'))
        (subs_for sh (getVSSPath path, attr))"
proof -
  have obj: "is_object node" using dt by (rule lookup_is_object)
  let ?n = "stored clock attr value' node"
  have q: "j_query L (data_tree db) (getJSONPath path) = Inr [node]"
    using query_denotes[OF L path] node by simp
  have r: "j_replace L (data_tree db) (getJSONPath path) ?n = Inr (path_replace ss ?n (data_tree db))"
    using path jsonpath_replace[OF L] by (simp add: denotes_def)
  have at: "json_at ?n (''ts_s-'' @ attr) = Inr (JInt (fst clock))" "json_at ?n (''ts_ns-'' @ attr) = Inr (JInt (snd clock))"
      "json_at ?n ''datatype'' = Inr dt"
    using stored_meta[OF obj attr, of "''datatype''"] dt by (simp_all add: json_at_Inr stored_lookup[OF obj])
  obtain dp where "json_lookup (data_point path clock attr value') ''dp'' = Some dp" "json_lookup dp attr = Some value'"
    using data_point_lookup(2)[of path clock attr value'] attr by auto
  from publish_ok[OF pubs this, of path "as_string L dt"] obtain sh' where
    pub: "publishForVSSPath L path (as_string L dt) attr (data_point path clock attr value') sh = (Inr 0, sh')"
      "publishers_ok L (publishers sh')" "subscriptions sh' = subscriptions sh"
      "buffer sh' = buffer sh @ map (\<lambda>(sid, c). (sid, c, as_string L dt, data_point path clock attr value'))
        (subs_for sh (getVSSPath path, attr))" by blast
  show ?thesis
    using q r at dt check pub
    unfolding data_point_def stored_def setSignal_def Let_def
    by (simp add: json_contains_lookup del: json_set.simps)
qed

lemma setSignal_refused:
  assumes L: "jsonpath_doc L" and path: "denotes path ss" and node: "path_nodes ss (data_tree db) = [(q, node)]"
    and dt: "json_lookup node ''datatype'' = Some dt" and check: "checkAndSanitizeType L node value = Inl e"
  shows "setSignal L clock path attr value db sh = (Inl e, value, db, sh)"
  using query_denotes[OF L path] node dt check by (simp add: setSignal_def Let_def json_contains_lookup)

lemma setSignal_no_single:
  assumes L: "jsonpath_doc L" and path: "denotes path ss" and "length (path_nodes ss (data_tree db)) \<noteq> 1"
  shows "setSignal L clock path attr value db sh = (Inr (json_set json_new ''path'' (JStr (to_string path))), value, db, sh)"
  using query_denotes[OF L path] assms(3) by (simp add: setSignal_def Let_def)

section \<open>Getting\<close>

text \<open>Time stamps of an attribute that can be read: numbers of the widths they are read at.\<close>

definition clock_ok :: "int \<times> int \<Rightarrow> bool" where
  "clock_ok clock \<longleftrightarrow> num_typed U64 (IVal (fst clock)) \<and> num_typed U32 (IVal (snd clock))"

definition stamps_ok :: "json \<Rightarrow> string \<Rightarrow> bool" where
  "stamps_ok node attr \<longleftrightarrow>
     json_lookup node (''ts_s-'' @ attr) = None \<and> json_lookup node (''ts_ns-'' @ attr) = None
   \<or> (\<exists>clock. clock_ok clock \<and> json_lookup node (''ts_s-'' @ attr) = Some (JInt (fst clock))
        \<and> json_lookup node (''ts_ns-'' @ attr) = Some (JInt (snd clock)))"

lemma stored_stamps_ok:
  assumes "is_object node" "clock_ok clock" "signal_attr attr" "signal_attr attr'" "stamps_ok node attr'"
  shows "stamps_ok (stored clock attr value node) attr'"
  using assms by (auto simp: stamps_ok_def stored_lookup signal_attr_def)

text \<open>The value read back is the member of the node; what is missing is reported as not set.\<close>

definition point_value :: "string \<Rightarrow> exn + json \<Rightarrow> json option" where
  "point_value attr r = (case r of Inl e \<Rightarrow> None
     | Inr j \<Rightarrow> (case json_lookup j ''dp'' of None \<Rightarrow> None | Some dp \<Rightarrow> json_lookup dp attr))"

lemma getSignal_unset:
  assumes "jsonpath_doc L" "denotes path ss" "path_nodes ss (data_tree db) = (q, node) # rest" "json_lookup node attr = None"
  shows "getSignal L path attr as_str db = Inl (NotSet (''Attribute '' @ attr @ '' on '' @ getVSSPath path @ '' has not been set yet.''))"
  using assms by (simp add: getSignal_def query_denotes[OF assms(1,2)])

lemma getSignal_reads:
  assumes L: "jsonpath_doc L" "num_doc L" and path: "denotes path ss" and node: "path_nodes ss (data_tree db) = (q, node) # rest"
    and v: "json_lookup node attr = Some v" and ts: "stamps_ok node attr" and attr: "signal_attr attr"
  shows "\<exists>j. getSignal L path attr False db = Inr j \<and> point_value attr (Inr j) = Some v
    \<and> json_lookup j ''path'' = Some (JStr (to_string path))"
proof -
  have num: "j_num L U64 (JInt (fst c)) = Inr (IVal (fst c))" "j_num L U32 (JInt (snd c)) = Inr (IVal (snd c))"
    if "clock_ok c" for c
    using that num_doc_int[OF L(2)] by (simp_all only: clock_ok_def)
  have other: "attr \<noteq> ''ts_s''" "attr \<noteq> ''ts_ns''" using attr by (auto simp: signal_attr_def)
  from ts show ?thesis
    unfolding stamps_ok_def
  proof (elim disjE conjE exE)
    assume "json_lookup node (''ts_s-'' @ attr) = None" "json_lookup node (''ts_ns-'' @ attr) = None"
    with node v other show ?thesis
      by (simp add: getSignal_def query_denotes[OF L(1) path] point_value_def json_lookup_set Let_def)
  next
    fix c assume "clock_ok c" "json_lookup node (''ts_s-'' @ attr) = Some (JInt (fst c))"
      "json_lookup node (''ts_ns-'' @ attr) = Some (JInt (snd c))"
    with node v other num show ?thesis
      by (simp add: getSignal_def query_denotes[OF L(1) path] point_value_def json_lookup_set Let_def)
  qed
qed

text \<open>What a \<open>set\<close> stored comes back as the data point it published.\<close>

lemma getSignal_data_point:
  assumes L: "jsonpath_doc L" "num_doc L" and path: "denotes path ss"
    and node: "path_nodes ss (data_tree db) = [(q, stored clock attr v node)]"
    and obj: "is_object node" "clock_ok clock" "signal_attr attr"
  shows "getSignal L path attr False db = Inr (data_point path clock attr v)"
proof -
  have num: "j_num L U64 (JInt (fst clock)) = Inr (IVal (fst clock))" "j_num L U32 (JInt (snd clock)) = Inr (IVal (snd clock))"
    using obj(2) num_doc_int[OF L(2)] by (simp_all only: clock_ok_def)
  have "attr \<noteq> ''ts_s''" "attr \<noteq> ''ts_ns''" using obj(3) by (auto simp: signal_attr_def)
  with num obj(3) show ?thesis
    by (simp add: getSignal_def query_denotes[OF L(1) path] node stored_lookup[OF obj(1)] Let_def data_point_def json_build_def signal_attr_def)
qed

section \<open>The database as a store\<close>

text \<open>A signal is a path with an attribute; a fixed set of paths, none of which continues another.\<close>

type_synonym signal_key = "seg list \<times> string"
type_synonym db_state = "VssDatabase \<times> SubscriptionHandler"

definition key_path :: "'a lib_scheme \<Rightarrow> signal_key \<Rightarrow> VSSPath" where
  "key_path L k = fromJSON L (render_path (fst k)) False"

definition db_get :: "'a lib_scheme \<Rightarrow> db_state \<Rightarrow> signal_key \<Rightarrow> json option" where
  "db_get L s k = point_value (snd k) (getSignal L (key_path L k) (snd k) False (fst s))"

definition db_put :: "'a lib_scheme \<Rightarrow> int \<times> int \<Rightarrow> signal_key \<Rightarrow> json \<Rightarrow> db_state \<Rightarrow> db_state" where
  "db_put L clock k v s = snd (snd (setSignal L clock (key_path L k) (snd k) v (fst s) (snd s)))"

definition node_at :: "db_state \<Rightarrow> seg list \<Rightarrow> json" where
  "node_at s q = snd (hd (path_nodes q (data_tree (fst s))))"

definition db_admit :: "'a lib_scheme \<Rightarrow> db_state \<Rightarrow> signal_key \<Rightarrow> json \<Rightarrow> json option" where
  "db_admit L s k v = (case checkAndSanitizeType L (node_at s (fst k)) v of Inl e \<Rightarrow> None | Inr v' \<Rightarrow> Some v')"

definition db_known :: "seg list set \<Rightarrow> signal_key \<Rightarrow> bool" where
  "db_known Q k \<longleftrightarrow> fst k \<in> Q \<and> signal_attr (snd k)"

definition signal_node :: "json \<Rightarrow> bool" where
  "signal_node node \<longleftrightarrow> json_contains node ''datatype'' \<and> (\<forall>attr. signal_attr attr \<longrightarrow> stamps_ok node attr)"

definition db_ok :: "'a lib_scheme \<Rightarrow> int \<times> int \<Rightarrow> seg list set \<Rightarrow> db_state \<Rightarrow> bool" where
  "db_ok L clock Q s \<longleftrightarrow>
     jsonpath_doc L \<and> num_doc L \<and> clock_ok clock \<and> publishers_ok L (publishers (snd s))
   \<and> (\<forall>q \<in> Q. \<forall>r \<in> Q. q \<noteq> r \<longrightarrow> apart q r)
   \<and> (\<forall>q \<in> Q. plain_path q \<and> path_nodes q (data_tree (fst s)) = [(q, node_at s q)] \<and> signal_node (node_at s q))"

lemma db_ok_node:
  assumes "db_ok L clock Q s" "db_known Q k"
  obtains dt where "denotes (key_path L k) (fst k)" "path_nodes (fst k) (data_tree (fst s)) = [(fst k, node_at s (fst k))]"
    "json_lookup (node_at s (fst k)) ''datatype'' = Some dt" "is_object (node_at s (fst k))"
    "signal_attr (snd k)" "stamps_ok (node_at s (fst k)) (snd k)"
proof -
  from assms have q: "fst k \<in> Q" "signal_attr (snd k)" "plain_path (fst k)"
      "path_nodes (fst k) (data_tree (fst s)) = [(fst k, node_at s (fst k))]" "signal_node (node_at s (fst k))"
    by (auto simp: db_ok_def db_known_def)
  then obtain dt where dt: "json_lookup (node_at s (fst k)) ''datatype'' = Some dt"
    by (auto simp: signal_node_def json_contains_lookup)
  with q that[OF _ q(4) dt lookup_is_object[OF dt] q(2)] fromJSON_denotes[OF q(3), of L False] show ?thesis
    by (auto simp: key_path_def signal_node_def)
qed

lemma db_put_node:
  assumes ok: "db_ok L clock Q s" and k: "db_known Q k" and r: "r \<in> Q"
  shows "node_at (db_put L clock k v s) r =
      (case db_admit L s k v of None \<Rightarrow> node_at s r
       | Some v' \<Rightarrow> if r = fst k then stored clock (snd k) v' (node_at s r) else node_at s r)"
    "path_nodes r (data_tree (fst (db_put L clock k v s))) = [(r, node_at (db_put L clock k v s) r)]"
    "publishers_ok L (publishers (snd (db_put L clock k v s)))"
proof -
  from db_ok_node[OF ok k] obtain dt where node: "denotes (key_path L k) (fst k)"
      "path_nodes (fst k) (data_tree (fst s)) = [(fst k, node_at s (fst k))]"
      "json_lookup (node_at s (fst k)) ''datatype'' = Some dt" "signal_attr (snd k)" by blast
  from ok have L: "jsonpath_doc L" and pubs: "publishers_ok L (publishers (snd s))"
    and single: "path_nodes r (data_tree (fst s)) = [(r, node_at s r)]"
    and ap: "r \<noteq> fst k \<Longrightarrow> apart (fst k) r"
    using r k by (auto simp: db_ok_def db_known_def)
  have "(case db_admit L s k v of None \<Rightarrow> db_put L clock k v s = s
      | Some v' \<Rightarrow> data_tree (fst (db_put L clock k v s)) =
            path_replace (fst k) (stored clock (snd k) v' (node_at s (fst k))) (data_tree (fst s))
          \<and> publishers_ok L (publishers (snd (db_put L clock k v s))))"
  proof (cases "checkAndSanitizeType L (node_at s (fst k)) v")
    case (Inl e)
    from setSignal_refused[OF L node(1,2,3) Inl] Inl show ?thesis by (simp add: db_admit_def db_put_def)
  next
    case (Inr v')
    from setSignal_stores[OF L node(1,2,3,4) Inr pubs, of clock] Inr show ?thesis
      by (auto simp: db_admit_def db_put_def)
  qed
  moreover have "path_nodes r (path_replace (fst k) x (data_tree (fst s))) = [(r, if r = fst k then x else node_at s r)]" for x
    using path_nodes_replace[of "fst k" x "data_tree (fst s)"] path_nodes_replace_apart[OF node(2) single ap] node(2)
    by (cases "r = fst k") auto
  ultimately show "node_at (db_put L clock k v s) r =
      (case db_admit L s k v of None \<Rightarrow> node_at s r
       | Some v' \<Rightarrow> if r = fst k then stored clock (snd k) v' (node_at s r) else node_at s r)"
    "path_nodes r (data_tree (fst (db_put L clock k v s))) = [(r, node_at (db_put L clock k v s) r)]"
    "publishers_ok L (publishers (snd (db_put L clock k v s)))"
    using single pubs by (auto simp: node_at_def split: option.splits)
qed

lemma db_get_node:
  assumes "db_ok L clock Q s" "db_known Q k"
  shows "db_get L s k = json_lookup (node_at s (fst k)) (snd k)"
proof -
  from db_ok_node[OF assms] have node: "denotes (key_path L k) (fst k)"
      "path_nodes (fst k) (data_tree (fst s)) = [(fst k, node_at s (fst k))]"
      "signal_attr (snd k)" "stamps_ok (node_at s (fst k)) (snd k)" by blast+
  from assms(1) have L: "jsonpath_doc L" "num_doc L" by (auto simp: db_ok_def)
  show ?thesis
  proof (cases "json_lookup (node_at s (fst k)) (snd k)")
    case None
    from getSignal_unset[OF L(1) node(1,2) None] None show ?thesis by (simp add: db_get_def point_value_def)
  next
    case (Some v)
    from getSignal_reads[OF L node(1,2) Some node(4,3)] Some show ?thesis by (auto simp: db_get_def)
  qed
qed

lemma db_put_ok:
  assumes ok: "db_ok L clock Q s" and k: "db_known Q k"
  shows "db_ok L clock Q (db_put L clock k v s)"
proof -
  have "signal_node (node_at (db_put L clock k v s) r)" if "r \<in> Q" for r
  proof -
    from ok that have sr: "signal_node (node_at s r)" by (auto simp: db_ok_def)
    then have obj: "is_object (node_at s r)" by (auto simp: signal_node_def json_contains_lookup intro: lookup_is_object)
    from ok have "clock_ok clock" by (simp add: db_ok_def)
    with sr obj k have "signal_node (stored clock (snd k) v' (node_at s r))" for v'
      using stored_meta[OF obj, of "snd k" "''datatype''"] stored_stamps_ok[OF obj]
      by (auto simp: signal_node_def json_contains_lookup db_known_def)
    with sr db_put_node(1)[OF ok k that] show ?thesis by (auto split: option.splits)
  qed
  moreover have "publishers_ok L (publishers (snd (db_put L clock k v s)))"
    using db_put_node(3)[OF ok k, of "fst k"] k by (simp add: db_known_def)
  ultimately show ?thesis
    using ok db_put_node(2)[OF ok k] by (auto simp: db_ok_def)
qed

lemma db_admit_put:
  assumes ok: "db_ok L clock Q s" and k: "db_known Q k" "db_known Q k'"
  shows "db_admit L (db_put L clock k v s) k' w = db_admit L s k' w"
proof -
  from k(2) have r: "fst k' \<in> Q" by (simp add: db_known_def)
  from db_ok_node[OF ok k(2)] have obj: "is_object (node_at s (fst k'))" by blast
  have "checkAndSanitizeType L (stored clock (snd k) v' (node_at s (fst k'))) w = checkAndSanitizeType L (node_at s (fst k')) w" for v'
    by (rule check_meta_cong) (use obj k(1) in \<open>auto simp: stored_object db_known_def intro!: stored_meta\<close>)
  with db_put_node(1)[OF ok k(1) r] show ?thesis by (auto simp: db_admit_def split: option.splits)
qed

interpretation vss_store: checked_store "db_get L" "db_put L clock" "db_admit L" "db_ok L clock Q" "db_known Q"
  for L :: "'a lib_scheme" and clock Q
proof (unfold_locales, goal_cases)
  case (1 s k v)
  then show ?case by (rule db_put_ok)
next
  case (2 s k k' v v')
  from 2(3) have r: "fst k' \<in> Q" "signal_attr (snd k')" by (simp_all add: db_known_def)
  from db_ok_node[OF 2(1,2)] have "is_object (node_at s (fst k))" "signal_attr (snd k)" by blast+
  with 2(4) r(2) show ?case
    by (auto simp: db_get_node[OF db_put_ok[OF 2(1,2)] 2(3)] db_get_node[OF 2(1,3)] db_put_node(1)[OF 2(1,2) r(1)]
        stored_lookup signal_attr_def prod_eq_iff)
next
  case (3 s k k' v)
  then have r: "fst k' \<in> Q" by (simp add: db_known_def)
  from 3(4) show ?case
    by (simp add: db_get_node[OF db_put_ok[OF 3(1,2)] 3(3)] db_get_node[OF 3(1,3)] db_put_node(1)[OF 3(1,2) r])
next
  case (4 s k k' v w)
  then show ?case by (rule db_admit_put)
qed

end
