(* ===== verification/RecordDatabase.thy ===== *)
theory RecordDatabase
  imports DatabaseLaws
begin

text \<open>
  \<open>src/VssDatabase_Record.cpp\<close>: the database that also writes a record of what is set (and read).
  \<open>record_log\<close> holds the messages given to the logging library, \<open>sink\<close> the settings of the one sink the
  class adds to it, and \<open>record_file\<close> the lines the sink's formatter makes of the messages.
\<close>

record file_sink =
  file_name :: string
  target_file_name :: string
  target_dir :: string
  auto_flush :: bool

record VssDatabase_Record =
  logMode :: string
  dir :: string
  logfile_name :: string
  sink :: "file_sink option"
  record_log :: "string list"

definition logger_init :: "VssDatabase_Record \<Rightarrow> VssDatabase_Record" where
  "logger_init rec =
     rec\<lparr>sink := Some \<lparr>file_name = logfile_name rec, target_file_name = logfile_name rec, target_dir = dir rec, auto_flush = True\<rparr>\<rparr>"

definition new_VssDatabase_Record :: "string \<Rightarrow> string \<Rightarrow> VssDatabase_Record" where
  "new_VssDatabase_Record recordPath mode =
     (let workingDir = (if recordPath = ''.'' then recordPath @ ''/logs'' else recordPath)
      in logger_init \<lparr>logMode = mode, dir = workingDir, logfile_name = ''record-%Y%m%d_%H%M%S.log.csv'', sink = None, record_log = []\<rparr>)"

text \<open>
  The format \<open>%1%;%2%;%3%\<close> of the sink. The texts of the two attributes, the local clock and the
  counter, are those of the library for the \<open>i\<close>-th message.
\<close>

definition record_line :: "string \<Rightarrow> string \<Rightarrow> string \<Rightarrow> string" where
  "record_line TimeStamp RecordID smessage = TimeStamp @ '';'' @ RecordID @ '';'' @ smessage"

definition record_file :: "(nat \<Rightarrow> string) \<Rightarrow> (nat \<Rightarrow> string) \<Rightarrow> VssDatabase_Record \<Rightarrow> string list" where
  "record_file stamps ids rec = map (\<lambda>(i, m). record_line (stamps i) (ids i) m) (enumerate 0 (record_log rec))"

definition log_record :: "string \<Rightarrow> VssDatabase_Record \<Rightarrow> VssDatabase_Record" where
  "log_record m rec = rec\<lparr>record_log := record_log rec @ [m]\<rparr>"

definition rec_setSignal :: "'a lib_scheme \<Rightarrow> int \<times> int \<Rightarrow> VSSPath \<Rightarrow> string \<Rightarrow> json \<Rightarrow> VssDatabase \<Rightarrow> SubscriptionHandler
    \<Rightarrow> VssDatabase_Record \<Rightarrow> ((exn + json) \<times> json \<times> VssDatabase \<times> SubscriptionHandler) \<times> VssDatabase_Record" where
  "rec_setSignal L clock path attr value db sh rec =
     (let json_val = j_pretty L value
      in (setSignal L clock path attr value db sh,
          log_record (''set;'' @ attr @ '';'' @ to_string path @ '';'' @ json_val) rec))"

text \<open>\<open>getSignal\<close> of this class passes on the path and the attribute only.\<close>

definition rec_getSignal :: "'a lib_scheme \<Rightarrow> VSSPath \<Rightarrow> string \<Rightarrow> bool \<Rightarrow> VssDatabase \<Rightarrow> VssDatabase_Record
    \<Rightarrow> (exn + json) \<times> VssDatabase_Record" where
  "rec_getSignal L path attr as_str db rec =
     (let rec' = (if logMode rec = ''recordSetAndGet'' then log_record (''get;'' @ attr @ '';'' @ to_string path) rec else rec)
      in (getSignal L path attr False db, rec'))"

section \<open>Lemmas\<close>

text \<open>Recording changes nothing of what the database does.\<close>

lemma rec_setSignal_set:
  "fst (rec_setSignal L clock path attr v db sh rec) = setSignal L clock path attr v db sh"
  "record_log (snd (rec_setSignal L clock path attr v db sh rec)) =
     record_log rec @ [''set;'' @ attr @ '';'' @ to_string path @ '';'' @ j_pretty L v]"
  by (simp_all add: rec_setSignal_def log_record_def)

text \<open>The file grows by one line for each set, with the value the client sent; what it held stays.\<close>

lemma record_file_set:
  "record_file stamps ids (snd (rec_setSignal L clock path attr v db sh rec)) =
     record_file stamps ids rec @ [record_line (stamps (length (record_log rec))) (ids (length (record_log rec)))
       (''set;'' @ attr @ '';'' @ to_string path @ '';'' @ j_pretty L v)]"
  by (simp add: record_file_def rec_setSignal_set enumerate_append_eq)

definition rec_put :: "'a lib_scheme \<Rightarrow> int \<times> int \<Rightarrow> signal_key \<Rightarrow> json \<Rightarrow> db_state \<times> VssDatabase_Record \<Rightarrow> db_state \<times> VssDatabase_Record" where
  "rec_put L clock k v s =
     (let (r, rec') = rec_setSignal L clock (key_path L k) (snd k) v (fst (fst s)) (snd (fst s)) (snd s)
      in (snd (snd r), rec'))"

definition rec_get :: "'a lib_scheme \<Rightarrow> db_state \<times> VssDatabase_Record \<Rightarrow> signal_key \<Rightarrow> json option" where
  "rec_get L s k = point_value (snd k) (fst (rec_getSignal L (key_path L k) (snd k) False (fst (fst s)) (snd s)))"

lemma rec_put_db: "fst (rec_put L clock k v s) = db_put L clock k v (fst s)"
  by (simp add: rec_put_def rec_setSignal_def db_put_def)

lemma rec_get_db: "rec_get L s k = db_get L (fst s) k"
  by (simp add: rec_get_def rec_getSignal_def db_get_def)

interpretation rec_store: checked_store "rec_get L" "rec_put L clock" "\<lambda>s. db_admit L (fst s)"
    "\<lambda>s. db_ok L clock Q (fst s)" "db_known Q"
  for L :: "'a lib_scheme" and clock Q
  by (unfold_locales; unfold rec_put_db rec_get_db)
    (erule (3) vss_store.get_put vss_store.get_refused
     | erule (2) vss_store.admit_put | erule (1) vss_store.put_inv)+

text \<open>A read through this class never converts: the flag is lost.\<close>

lemma rec_getSignal_flag: "fst (rec_getSignal L path attr True db rec) = getSignal L path attr False db"
  by (simp add: rec_getSignal_def)

text \<open>After any sequence of recorded sets a recorded get returns the last admitted value.\<close>

theorem record_last_write:
  assumes "db_ok L clock Q (fst s)" "db_known Q k" "\<forall>kv \<in> set ws. db_known Q (fst kv)"
  shows "rec_get L (fold (\<lambda>(k, v). rec_put L clock k v) ws s) k =
    (case filter (\<lambda>(k', v). k' = k \<and> db_admit L (fst s) k v \<noteq> None) ws of
       [] \<Rightarrow> rec_get L s k | hs \<Rightarrow> db_admit L (fst s) k (snd (last hs)))"
  using rec_store.last_write[OF assms] by (simp add: rec_store.puts_def)

end
