(* ===== verification/TreeUpdates.thy ===== *)
theory TreeUpdates
  imports VssDatabase
begin

text \<open>
  What the other operations of the database do: defaults along the children of a tree, the guard of
  the updates, and the nested answer of \<open>getMetaData\<close> with the bound of its local arrays.
\<close>

section \<open>Defaults\<close>

text \<open>The node that names below \<open>children\<close> lead to.\<close>

fun descend :: "json \<Rightarrow> string list \<Rightarrow> json option" where
  "descend t [] = Some t"
| "descend t (k # ks) =
     (case json_lookup t ''children'' of
        Some (JObj ms) \<Rightarrow> (case map_of ms k of None \<Rightarrow> None | Some c \<Rightarrow> descend c ks)
      | _ \<Rightarrow> None)"

definition has_default :: "json \<Rightarrow> bool" where
  "has_default t \<longleftrightarrow> isAttribute t \<and> json_contains t ''default''"

fun undefaulted :: "json \<Rightarrow> string list \<Rightarrow> bool" where
  "undefaulted t [] = True"
| "undefaulted t (k # ks) \<longleftrightarrow> \<not> has_default t \<and> (case descend t [k] of None \<Rightarrow> True | Some c \<Rightarrow> undefaulted c ks)"

lemma default_children_map:
  "default_children L ms = Inr ms' \<Longrightarrow>
   (case map_of ms k of None \<Rightarrow> map_of ms' k = None
    | Some c \<Rightarrow> \<exists>c'. map_of ms' k = Some c' \<and> applyDefaultValues L c = Inr c')"
proof (induction ms arbitrary: ms')
  case (Cons kc ms)
  obtain k1 c1 where "kc = (k1, c1)" by (cases kc)
  with Cons show ?case by (fastforce simp: bindE_Inr_conv split: option.splits)
qed auto

lemma apply_no_default:
  assumes "applyDefaultValues L t = Inr t'" "\<not> has_default t"
  shows "t' = t \<and> (\<forall>ms. json_lookup t ''children'' \<noteq> Some (JObj ms))
    \<or> (\<exists>ms ms'. json_lookup t ''children'' = Some (JObj ms) \<and> default_children L ms = Inr ms'
          \<and> t' = json_set t ''children'' (JObj ms'))"
  using assms
  by (subst (asm) applyDefaultValues.simps)
    (auto simp: has_default_def bindE_Inr_conv split: option.splits json.splits if_splits)

lemma apply_default: "has_default t \<Longrightarrow> json_lookup t ''default'' = Some d \<Longrightarrow>
    applyDefaultValues L t = Inr (json_set t ''value'' (JStr (as_string L d)))"
  by (subst applyDefaultValues.simps) (simp add: has_default_def json_at_lookup)

text \<open>Every node below is the node that was there with defaults applied; none appears or vanishes.\<close>

lemma defaults_descend:
  "applyDefaultValues L t = Inr t' \<Longrightarrow> undefaulted t ks \<Longrightarrow>
   (case descend t ks of None \<Rightarrow> descend t' ks = None
    | Some c \<Rightarrow> \<exists>c'. descend t' ks = Some c' \<and> applyDefaultValues L c = Inr c')"
proof (induction ks arbitrary: t t')
  case (Cons k ks)
  from Cons.prems(2) have nd: "\<not> has_default t" by simp
  from apply_no_default[OF Cons.prems(1) nd] show ?case
  proof (elim disjE conjE exE)
    assume "t' = t" "\<forall>ms. json_lookup t ''children'' \<noteq> Some (JObj ms)"
    then have "descend t (k # ks) = None" "descend t' (k # ks) = None"
      by (auto split: option.splits json.splits)
    then show ?thesis by (simp only: option.case)
  next
    fix ms ms'
    assume ms: "json_lookup t ''children'' = Some (JObj ms)" "default_children L ms = Inr ms'"
      "t' = json_set t ''children'' (JObj ms')"
    have t': "json_lookup t' ''children'' = Some (JObj ms')"
      using ms(3) lookup_is_object[OF ms(1)] by (simp add: json_lookup_set)
    show ?thesis
    proof (cases "map_of ms k")
      case None
      with default_children_map[OF ms(2), of k] ms(1) t' show ?thesis by simp
    next
      case (Some c)
      with default_children_map[OF ms(2), of k] obtain c' where
        c': "map_of ms' k = Some c'" "applyDefaultValues L c = Inr c'" by auto
      from Some ms(1) Cons.prems(2) have "undefaulted c ks" by simp
      note IH = Cons.IH[OF c'(2) this]
      have "descend t (k # ks) = descend c ks" "descend t' (k # ks) = descend c' ks"
        using c'(1) ms(1) t' Some by simp_all
      with IH show ?thesis by (simp only:)
    qed
  qed
qed simp

text \<open>So an attribute with a default that no defaulted attribute encloses gets its value.\<close>

lemma default_applied:
  assumes "applyDefaultValues L t = Inr t'" "undefaulted t ks" "descend t ks = Some c" "has_default c"
    "json_lookup c ''default'' = Some d"
  shows "descend t' ks = Some (json_set c ''value'' (JStr (as_string L d)))"
  using defaults_descend[OF assms(1,2)] apply_default[OF assms(4,5), of L] assms(3) by auto

section \<open>The guard of updates\<close>

lemma update_guard:
  "\<not> authorizedToModifyTree channel \<Longrightarrow> \<exists>m. updateJsonTree L channel j db = (Inl (NoPermission m), db)"
  "\<not> authorizedToModifyTree channel \<Longrightarrow> \<exists>m. updateMetaData L channel path j db = (Inl (NoPermission m), db)"
  by (simp_all add: updateJsonTree_def updateMetaData_def)

lemma updateMetaData_single:
  assumes L: "jsonpath_doc L" and path: "denotes path ss" and auth: "authorizedToModifyTree channel"
    and meta: "path_nodes ss (meta_tree db) = [(q, m)]" and dat: "path_nodes ss (data_tree db) = [(r, d)]"
    and merge: "j_merge_update L m metadata = Inr m'" "j_merge_update L d metadata = Inr d'"
  shows "updateMetaData L channel path metadata db =
    (Inr (), db\<lparr>meta_tree := path_replace ss m' (meta_tree db), data_tree := path_replace ss d' (data_tree db)\<rparr>)"
proof -
  have "j_replace L t (getJSONPath path) x = Inr (path_replace ss x t)" for t x
    using path jsonpath_replace[OF L] by (simp add: denotes_def)
  then show ?thesis
    using auth query_denotes[OF L path] meta dat merge
    by (simp add: updateMetaData_def single_result_def Let_def)
qed

section \<open>Tokens\<close>

text \<open>A name without brackets and quotes survives the alternating \<open>strtok\<close> calls.\<close>

definition token_name :: "string \<Rightarrow> bool" where
  "token_name k \<longleftrightarrow> k \<noteq> [] \<and> set k \<inter> {CHR ''['', CHR '']'', CHR 0x27} = {}"

lemma strtok_word:
  assumes "w \<noteq> []" "set w \<inter> set delims = {}" "d \<in> set delims" "set pre \<subseteq> set delims"
  shows "strtok (pre @ w @ d # rest) delims = Some (w, rest)"
proof -
  have "dropWhile (\<lambda>c. c \<in> set delims) (pre @ w @ d # rest) = w @ d # rest"
    using assms by (cases w) (auto simp: dropWhile_append subset_iff)
  moreover have "takeWhile (\<lambda>c. c \<notin> set delims) (w @ d # rest) = w"
    "dropWhile (\<lambda>c. c \<notin> set delims) (w @ d # rest) = d # rest"
    using assms by (auto simp: takeWhile_append dropWhile_append)
  ultimately show ?thesis using assms(1) by (simp add: strtok_def)
qed

lemma strtok_none: "set s \<subseteq> set delims \<Longrightarrow> strtok s delims = None"
  by (simp add: strtok_def subset_iff)

lemma vss_tokens_names:
  assumes "list_all token_name ks" "n mod 2 = 0" "set pre \<subseteq> set open_delims" "ks \<noteq> []"
  shows "vss_tokens n (strtok (pre @ hd ks @ CHR 0x27 # CHR '']'' # concat (map (render_seg \<circ> Name) (tl ks))) open_delims) = ks"
  using assms
proof (induction ks arbitrary: n pre)
  case (Cons k ks)
  let ?r = "concat (map (render_seg \<circ> Name) ks)"
  have k: "strtok (pre @ k @ CHR 0x27 # CHR '']'' # ?r) open_delims = Some (k, CHR '']'' # ?r)"
    by (rule strtok_word) (use Cons.prems in \<open>auto simp: token_name_def\<close>)
  show ?case
  proof (cases ks)
    case Nil
    have "strtok [CHR '']''] close_delims = None" by (rule strtok_none) simp
    with k Cons.prems(2) Nil show ?thesis by simp
  next
    case (Cons k' ks')
    let ?r' = "k' @ CHR 0x27 # CHR '']'' # concat (map (render_seg \<circ> Name) ks')"
    have r: "CHR '']'' # ?r = [CHR '']''] @ ''['' @ CHR 0x27 # ?r'" by (simp add: Cons)
    have br: "strtok (CHR '']'' # ?r) close_delims = Some (''['', ?r')"
      unfolding r by (rule strtok_word) auto
    have "vss_tokens (Suc (Suc n)) (strtok ([] @ hd ks @ CHR 0x27 # CHR '']'' # concat (map (render_seg \<circ> Name) (tl ks))) open_delims) = ks"
      by (rule Cons.IH) (use Cons.prems Cons in \<open>auto simp: mod_Suc\<close>)
    with k br Cons.prems(2) Cons show ?thesis by (simp add: mod_Suc comp_def)
  qed
qed simp

lemma getVSSTokens_names:
  assumes "list_all token_name ks"
  shows "getVSSTokens (render_path (map Name ks)) = ks"
proof (cases ks)
  case Nil
  have "strtok ''$'' open_delims = Some (''$'', [])" "strtok [] open_delims = None" by (simp_all add: strtok_def)
  with Nil show ?thesis by (simp add: getVSSTokens_def render_path_def)
next
  case (Cons k ks')
  let ?r = "CHR 0x27 # k @ CHR 0x27 # CHR '']'' # concat (map (render_seg \<circ> Name) ks')"
  have "render_path (map Name ks) = [] @ ''$'' @ CHR ''['' # ?r"
    by (simp add: render_path_def Cons comp_def)
  moreover have "strtok ([] @ ''$'' @ CHR ''['' # ?r) open_delims = Some (''$'', ?r)"
    by (rule strtok_word) auto
  moreover have "vss_tokens 2 (strtok ([CHR 0x27] @ hd ks @ CHR 0x27 # CHR '']'' # concat (map (render_seg \<circ> Name) (tl ks))) open_delims) = ks"
    by (rule vss_tokens_names) (use assms Cons in auto)
  ultimately show ?thesis by (simp add: getVSSTokens_def Cons numeral_2_eq_2 comp_def)
qed

section \<open>Metadata\<close>

text \<open>The tokens of a path of names below \<open>children\<close>, and the nodes on the way.\<close>

fun spine :: "string list \<Rightarrow> string list" where
  "spine [] = []"
| "spine [n] = [n]"
| "spine (n # m # ns) = n # ''children'' # spine (m # ns)"

fun has_spine :: "json \<Rightarrow> string list \<Rightarrow> bool" where
  "has_spine t [] = True"
| "has_spine t [n] = (json_lookup t n \<noteq> None)"
| "has_spine t (n # m # ns) =
     (case json_lookup t n of None \<Rightarrow> False
      | Some v \<Rightarrow> (case json_lookup v ''children'' of None \<Rightarrow> False | Some c \<Rightarrow> has_spine c (m # ns)))"

definition clean :: "'a lib_scheme \<Rightarrow> json \<Rightarrow> json" where
  "clean L v = as_text_member L ''type'' (as_text_member L ''description'' v)"

definition the_json :: "json option \<Rightarrow> json" where
  "the_json j = (case j of None \<Rightarrow> JNull | Some v \<Rightarrow> v)"

text \<open>The answer: each node on the way with nothing but the next one as its children.\<close>

fun metadata_view :: "'a lib_scheme \<Rightarrow> json \<Rightarrow> string list \<Rightarrow> json" where
  "metadata_view L t [] = json_new"
| "metadata_view L t [n] = json_set json_new n (clean L (the_json (json_lookup t n)))"
| "metadata_view L t (n # m # ns) =
     (let v = the_json (json_lookup t n)
      in json_set json_new n (json_set (clean L v) ''children''
           (metadata_view L (the_json (json_lookup v ''children'')) (m # ns))))"

fun chain :: "'a lib_scheme \<Rightarrow> json \<Rightarrow> string list \<Rightarrow> (json \<times> string) list" where
  "chain L t [] = []"
| "chain L t [n] = [(json_set json_new n (clean L (the_json (json_lookup t n))), n)]"
| "chain L t (n # m # ns) =
     (let v = the_json (json_lookup t n)
      in (clean L v, n) # chain L (the_json (json_lookup v ''children'')) (m # ns))"

lemma chain_length [simp]: "length (chain L t ns) = length ns"
  by (induction L t ns rule: chain.induct) (simp_all add: Let_def)

lemma chain_not_Nil [simp]: "ns \<noteq> [] \<Longrightarrow> chain L t ns \<noteq> []"
  by (metis chain_length length_0_conv)

lemma nest_append: "nest_parents (a @ b) r = bindE (nest_parents a r) (nest_parents b)"
  by (induction a r rule: nest_parents.induct) (auto simp: bindE_def split: sum.splits)

lemma is_object_clean: "is_object (clean L v) = is_object v"
  by (simp add: clean_def as_text_member_def split: option.split)

lemma nest_chain:
  "has_spine t ns \<Longrightarrow> ns \<noteq> [] \<Longrightarrow>
   nest_parents (rev (butlast (chain L t ns))) (fst (last (chain L t ns))) = Inr (metadata_view L t ns)"
proof (induction L t ns rule: chain.induct)
  case (3 L t n m ns)
  from "3.prems"(1) obtain v c where v: "json_lookup t n = Some v" "json_lookup v ''children'' = Some c" "has_spine c (m # ns)"
    by (auto split: option.splits)
  with "3.IH"[of v] have IH: "nest_parents (rev (butlast (chain L c (m # ns)))) (fst (last (chain L c (m # ns))))
      = Inr (metadata_view L c (m # ns))" by (simp add: the_json_def)
  have "is_object (clean L v)" using lookup_is_object[OF v(2)] by (simp add: is_object_clean)
  with v IH show ?case by (simp add: the_json_def nest_append json_put_def Let_def)
qed simp_all

lemma render_dots_snoc: "render_dots ks @ ''.'' @ k = render_dots (ks @ [k])"
  by (simp add: render_dots_def)

lemma path_nodes_name: "path_nodes (map Name (ks @ [k])) t =
    concat (map (\<lambda>(p, v). case json_lookup v k of None \<Rightarrow> [] | Some c \<Rightarrow> [(p @ [Name k], c)]) (path_nodes (map Name ks) t))"
proof -
  have "child_nodes (Name k) v = (case json_lookup v k of None \<Rightarrow> [] | Some c \<Rightarrow> [(Name k, c)])" for v
    by (cases v) auto
  then show ?thesis
    by (auto simp: path_nodes_append split_def intro!: arg_cong[of _ _ concat] split: option.splits)
qed

lemma ident_children: "ident ''children''"
  by (simp add: ident_def)

lemma metadata_loop_spine:
  assumes L: "dotpath_doc L"
  shows "path_nodes (map Name ks) meta = [(q, t)] \<Longrightarrow> list_all ident ks \<Longrightarrow> list_all ident ns \<Longrightarrow> ''children'' \<notin> set ns \<Longrightarrow>
    has_spine t ns \<Longrightarrow> ns \<noteq> [] \<Longrightarrow> length parents \<le> parent_slots \<Longrightarrow>
    metadata_loop L meta i (spine ns) (render_dots ks) r parents =
      (if length parents + length ns \<le> parent_slots then Inr (Some (fst (last (chain L t ns)), parents @ chain L t ns))
       else Inl Undefined)"
proof (induction ns arbitrary: ks q t i r parents rule: spine.induct)
  case (2 n)
  then obtain v where v: "json_lookup t n = Some v" by auto
  have "list_all ident (ks @ [n])" using "2.prems" by simp
  from dotpath_query[OF L _ this, of meta] path_nodes_name[of ks n meta] "2.prems"(1) v
  have "j_query L meta (render_dots (ks @ [n])) = Inr [v]" by simp
  with "2.prems" v show ?case
    by (simp add: Let_def clean_def the_json_def render_dots_snoc[simplified])
next
  case (3 n m ns)
  from "3.prems"(5) obtain v c where v: "json_lookup t n = Some v" "json_lookup v ''children'' = Some c" "has_spine c (m # ns)"
    by (auto split: option.splits)
  have id: "list_all ident (ks @ [n])" "list_all ident (ks @ [n] @ [''children''])"
    using "3.prems"(2,3) ident_children by simp_all
  have n1: "path_nodes (map Name (ks @ [n])) meta = [(q @ [Name n], v)]"
    using path_nodes_name[of ks n meta] "3.prems"(1) v by simp
  have n2: "path_nodes (map Name (ks @ [n] @ [''children''])) meta = [(q @ [Name n, Name ''children''], c)]"
    using path_nodes_name[of "ks @ [n]" "''children''" meta] n1 v by simp
  from dotpath_query[OF L _ id(1), of meta] n1 have qv: "j_query L meta (render_dots (ks @ [n])) = Inr [v]" by simp
  have ne: "n \<noteq> ''children''" "spine (m # ns) \<noteq> []" using "3.prems" by (auto) (cases ns; simp)
  have dots: "render_dots ks @ CHR ''.'' # n = render_dots (ks @ [n])"
      "render_dots (ks @ [n]) @ ''.children'' = render_dots (ks @ [n, ''children''])"
    by (simp_all add: render_dots_def)
  show ?case
  proof (cases "length parents < parent_slots")
    case True
    have "metadata_loop L meta (Suc (Suc i)) (spine (m # ns)) (render_dots (ks @ [n] @ [''children''])) (clean L v) (parents @ [(clean L v, n)])
        = (if length (parents @ [(clean L v, n)]) + length (m # ns) \<le> parent_slots
           then Inr (Some (fst (last (chain L c (m # ns))), (parents @ [(clean L v, n)]) @ chain L c (m # ns)))
           else Inl Undefined)"
      by (rule "3.IH"[OF n2 id(2)]) (use "3.prems" v True in auto)
    moreover have "metadata_loop L meta i (spine (n # m # ns)) (render_dots ks) r parents
        = metadata_loop L meta (Suc (Suc i)) (spine (m # ns)) (render_dots (ks @ [n] @ [''children''])) (clean L v) (parents @ [(clean L v, n)])"
      using True qv ne by (simp add: Let_def clean_def dots)
    ultimately show ?thesis using v by (simp add: the_json_def)
  next
    case False
    with qv ne show ?thesis by (simp add: Let_def dots)
  qed
qed simp

text \<open>A valid identifier is a plain name and a token of its own.\<close>

lemma ident_token: "ident k \<Longrightarrow> token_name k \<and> plain_name k"
proof -
  assume k: "ident k"
  have "c \<noteq> CHR ''['' \<and> c \<noteq> CHR '']'' \<and> c \<noteq> CHR 0x27 \<and> c \<noteq> CHR 0x5C \<and> of_char c \<ge> (32::nat)" if "c \<in> set k" for c
  proof -
    from k that have "c \<in> set ''abcdefghijklmnopqrstuvwxyzABCDEFGHIJKLMNOPQRSTUVWXYZ0123456789_''"
      by (auto simp only: ident_def)
    then show ?thesis by (elim set_ConsD[THEN disjE] emptyE) auto
  qed
  with k show ?thesis by (auto simp: ident_def token_name_def plain_name_def)
qed

lemma spine_ident: "list_all ident ns \<Longrightarrow> list_all ident (spine ns)"
  by (induction ns rule: spine.induct) (auto simp: ident_children)

lemma plain_names: "list_all ident ks \<Longrightarrow> plain_path (map Name ks)"
  by (induction ks) (auto simp: ident_token)

lemma spine_nodes:
  "has_spine t ns \<Longrightarrow> \<exists>v. path_nodes (map Name (spine ns)) t = [(map Name (spine ns), v)]"
proof (induction ns arbitrary: t rule: spine.induct)
  case (2 n)
  then show ?case by (cases t) auto
next
  case (3 n m ns)
  from "3.prems" obtain v c where v: "json_lookup t n = Some v" "json_lookup v ''children'' = Some c" "has_spine c (m # ns)"
    by (auto split: option.splits)
  from "3.IH"[OF v(3)] obtain w where "path_nodes (map Name (spine (m # ns))) c = [(map Name (spine (m # ns)), w)]" by blast
  with v(1,2) show ?case by (cases t; cases v) auto
qed simp

text \<open>
  The answer for a path of names: its nodes, each with nothing but the next as children. The local
  arrays hold sixteen; a longer path writes outside them.
\<close>

lemma getMetaData_names:
  assumes L: "jsonpath_doc L" "dotpath_doc L" and path: "getJSONPath path = render_path (map Name (spine ns))"
    and ns: "list_all ident ns" "''children'' \<notin> set ns" "ns \<noteq> []" "has_spine (meta_tree db) ns"
  shows "getMetaData L path db =
    (if length ns \<le> parent_slots then Inr (metadata_view L (meta_tree db) ns) else Inl Undefined)"
proof -
  let ?ss = "map Name (spine ns)"
  have plain: "plain_path ?ss" by (rule plain_names[OF spine_ident[OF ns(1)]])
  obtain v where v: "path_nodes ?ss (meta_tree db) = [(?ss, v)]" using spine_nodes[OF ns(4)] by blast
  with jsonpath_paths[OF L(1) plain, of "meta_tree db"] plain
  have paths: "j_query_paths L (meta_tree db) (getJSONPath path) = Inr [render_path ?ss]"
    by (simp add: path)
  have "list_all token_name (spine ns)"
    using spine_ident[OF ns(1)] ident_token by (auto simp: list_all_iff)
  then have tokens: "getVSSTokens (render_path ?ss) = spine ns" by (rule getVSSTokens_names)
  have "metadata_loop L (meta_tree db) 0 (spine ns) (render_dots []) json_new [] =
      (if length ns \<le> parent_slots then Inr (Some (fst (last (chain L (meta_tree db) ns)), chain L (meta_tree db) ns))
       else Inl Undefined)"
    using metadata_loop_spine[OF L(2), of "[]" "meta_tree db" "[]" "meta_tree db" ns "[]" 0 json_new] ns
    by (simp del: metadata_loop.simps)
  then show ?thesis
    using paths tokens nest_chain[OF ns(4,3), of L]
    by (simp add: getMetaData_def render_dots_def)
qed

end
