(* ===== verification/RequestValidator.thy ===== *)
theory RequestValidator
  imports Externals
begin

text \<open>
  \<open>src/VSSRequestValidator.cpp\<close> and the schemas of \<open>include/VSSRequestJsonSchema.hpp\<close>, as the JSON
  values they parse to. The validator itself is the library's; with its documented behaviour on the
  keywords used, each operation accepts exactly the requests listed by its lemma.
\<close>

section \<open>The schemas\<close>

definition SCHEMA_GET :: json where
  "SCHEMA_GET =
     JObj [(''$schema'', JStr ''http://json-schema.org/draft-04/schema#''),
           (''description'', JStr ''Get the value of one or more vehicle signals and data attributes''),
           (''properties'', JObj [(''action'', JObj [(''description'', JStr ''The identifier for the get request''),
                           (''enum'', JArr [JStr ''get'', JStr ''getMetaData''])]),
                   (''attribute'', JObj [(''description'', JStr ''The attributes to be fetched for the get request''),
                           (''enum'', JArr [JStr ''targetValue'', JStr ''value''])]),
                   (''path'', JObj [(''$ref'', JStr ''viss#/definitions/path'')]),
                   (''requestId'', JObj [(''$ref'', JStr ''viss#/definitions/requestId'')])]),
           (''required'', JArr [JStr ''action'', JStr ''path'', JStr ''requestId'']),
           (''title'', JStr ''Get Request''),
           (''type'', JStr ''object'')]"

definition SCHEMA_SET :: json where
  "SCHEMA_SET =
     JObj [(''$schema'', JStr ''http://json-schema.org/draft-04/schema#''),
           (''description'', JStr ''Enables the client to set one or more values once.''),
           (''properties'', JObj [(''action'', JObj [(''description'', JStr ''The identifier for the set request''),
                           (''enum'', JArr [JStr ''set''])]),
                   (''attribute'', JObj [(''description'', JStr ''The attributes to be fetched for the get request''),
                           (''enum'', JArr [JStr ''targetValue'', JStr ''value''])]),
                   (''path'', JObj [(''$ref'', JStr ''viss#/definitions/path'')]),
                   (''requestId'', JObj [(''$ref'', JStr ''viss#/definitions/requestId'')])]),
           (''required'', JArr [JStr ''action'', JStr ''path'', JStr ''requestId'']),
           (''title'', JStr ''Set Request''),
           (''type'', JStr ''object'')]"

definition SCHEMA_SUBSCRIBE :: json where
  "SCHEMA_SUBSCRIBE =
     JObj [(''$schema'', JStr ''http://json-schema.org/draft-04/schema#''),
           (''description'', JStr ''Allows the client to subscribe to time-varying signal notifications on the server.''),
           (''properties'', JObj [(''action'', JObj [(''description'', JStr ''The identifier for the subscription request''),
                           (''enum'', JArr [JStr ''subscribe''])]),
                   (''attribute'', JObj [(''description'', JStr ''The attributes to be fetched for the get request''),
                           (''enum'', JArr [JStr ''targetValue'', JStr ''value''])]),
                   (''filters'', JObj [(''$ref'', JStr ''viss#/definitions/filters'')]),
                   (''path'', JObj [(''$ref'', JStr ''viss#/definitions/path'')]),
                   (''requestId'', JObj [(''$ref'', JStr ''viss#/definitions/requestId'')])]),
           (''required'', JArr [JStr ''action'', JStr ''path'', JStr ''requestId'']),
           (''title'', JStr ''Subscribe Request''),
           (''type'', JStr ''object'')]"

definition SCHEMA_UNSUBSCRIBE :: json where
  "SCHEMA_UNSUBSCRIBE =
     JObj [(''$schema'', JStr ''http://json-schema.org/draft-04/schema#''),
           (''description'', JStr ''Allows the client to unsubscribe to time-varying signal notifications on the server.''),
           (''properties'', JObj [(''action'', JObj [(''description'', JStr ''The identifier for the unsubscribe request''),
                           (''enum'', JArr [JStr ''unsubscribe''])]),
                   (''requestId'', JObj [(''$ref'', JStr ''viss#/definitions/requestId'')]),
                   (''subscriptionId'', JObj [(''$ref'', JStr ''viss#/definitions/subscriptionId'')])]),
           (''required'', JArr [JStr ''action'', JStr ''subscriptionId'', JStr ''requestId'']),
           (''title'', JStr ''Unsubscribe Request''),
           (''type'', JStr ''object'')]"

definition SCHEMA_UPDATE_VSS_TREE :: json where
  "SCHEMA_UPDATE_VSS_TREE =
     JObj [(''$schema'', JStr ''http://json-schema.org/draft-04/schema#''),
           (''description'', JStr ''Enables the client to update data model''),
           (''properties'', JObj [(''action'', JObj [(''description'', JStr ''The identifier for the set request''),
                           (''enum'', JArr [JStr ''updateVSSTree''])]),
                   (''metadata'', JObj [(''$ref'', JStr ''viss#/definitions/metadata'')]),
                   (''requestId'', JObj [(''$ref'', JStr ''viss#/definitions/requestId'')])]),
           (''required'', JArr [JStr ''action'', JStr ''metadata'', JStr ''requestId'']),
           (''title'', JStr ''Update tree Request''),
           (''type'', JStr ''object'')]"

definition SCHEMA_UPDATE_METADATA :: json where
  "SCHEMA_UPDATE_METADATA =
     JObj [(''$schema'', JStr ''http://json-schema.org/draft-04/schema#''),
           (''description'', JStr ''Enables the client to update data model''),
           (''properties'', JObj [(''action'', JObj [(''description'', JStr ''The identifier for the set request''),
                           (''enum'', JArr [JStr ''updateMetaData''])]),
                   (''metadata'', JObj [(''$ref'', JStr ''viss#/definitions/metadata'')]),
                   (''path'', JObj [(''$ref'', JStr ''viss#/definitions/path'')]),
                   (''requestId'', JObj [(''$ref'', JStr ''viss#/definitions/requestId'')])]),
           (''required'', JArr [JStr ''action'', JStr ''path'', JStr ''metadata'', JStr ''requestId'']),
           (''title'', JStr ''Update tree Request''),
           (''type'', JStr ''object'')]"

definition SCHEMA :: json where
  "SCHEMA =
     JObj [(''definitions'', JObj [(''action'', JObj [(''description'', JStr ''The type of action requested by the client and/or delivered by the server''),
                           (''enum'', JArr [JStr ''authorize'', JStr ''getMetaData'', JStr ''updateMetaData'', JStr ''get'', JStr ''set'', JStr ''subscribe'', JStr ''subscription'', JStr ''unsubscribe'', JStr ''unsubscribeAll''])]),
                   (''error'', JObj [(''description'', JStr ''Server response for error cases''),
                           (''properties'', JObj [(''message'', JObj [(''description'', JStr ''Message text describing the cause in more detail''),
                                           (''type'', JStr ''string'')]),
                                   (''number'', JObj [(''description'', JStr ''HTTP Status Code Number''), (''type'', JStr ''integer'')]),
                                   (''reason'', JObj [(''description'', JStr ''Pre-defined string value that can be used to distinguish between errors that have the same code''),
                                           (''type'', JStr ''string'')])]),
                           (''type'', JStr ''object'')]),
                   (''filters'', JObj [(''description'', JStr ''May be specified in order to throttle the demands of subscriptions on the server.''),
                           (''properties'', JObj [(''interval'', JObj [(''description'', JStr ''The server is requested to provide notifications with a period equal to this field's value.''),
                                           (''type'', JStr ''integer'')]),
                                   (''minChange'', JObj [(''description'', JStr ''The subscription will provide notifications when a value has changed by the amount specified in this field.''),
                                           (''type'', JStr ''integer'')]),
                                   (''range'', JObj [(''description'', JStr ''The server is requested to provide notifications only whilst a value is within a given range.''),
                                           (''properties'', JObj [(''above'', JObj [(''description'', JStr ''The server is requested to provide notifications when the value is greater than or equal to this field's value.''),
                                                           (''type'', JStr ''integer'')]),
                                                   (''below'', JObj [(''description'', JStr ''The server is requested to provide notifications when the value is less than or equal to this field's value.''),
                                                           (''type'', JStr ''integer'')])]),
                                           (''type'', JStr ''object'')])]),
                           (''type'', JArr [JStr ''object'', JStr ''null''])]),
                   (''metadata'', JObj [(''description'', JStr ''Metadata describing the potentially available signal tree.''),
                           (''type'', JStr ''object'')]),
                   (''path'', JObj [(''description'', JStr ''The path to the desired vehicle signal(s), as defined by the metadata schema.''),
                           (''type'', JStr ''string'')]),
                   (''requestId'', JObj [(''description'', JStr ''Returned by the server in the response and used by the client to link the request and response messages.''),
                           (''type'', JStr ''string'')]),
                   (''subscriptionId'', JObj [(''description'', JStr ''Integer handle value which is used to uniquely identify the subscription.''),
                           (''type'', JStr ''string'')]),
                   (''timestamp'', JObj [(''description'', JStr ''The Coordinated Universal Time (UTC) time that the server returned the response (expressed as number of milliseconds).''),
                           (''type'', JStr ''integer'')]),
                   (''value'', JObj [(''description'', JStr ''The data value returned by the server. This could either be a basic type, or a complex type comprised of nested name/value pairs in JSON format.''),
                           (''type'', JArr [JStr ''number'', JStr ''string'', JStr ''array''])])])]"

section \<open>Validation\<close>

text \<open>The resolver for the document the schemas refer to; the program's other documents fail to load.\<close>

definition vss_resolver :: "string \<Rightarrow> exn + json" where
  "vss_resolver uri =
     (if uri = ''/viss'' then Inr SCHEMA
      else Inl (SchemaError (''Could not open '' @ uri @ '' for schema loading'' @ [CHR 0x0A])))"

definition report_line :: "string \<times> string \<Rightarrow> string" where
  "report_line r = fst r @ '': '' @ snd r @ [CHR 0x0A]"

definition validate_message :: "'a lib_scheme \<Rightarrow> json \<Rightarrow> json \<Rightarrow> exn + unit" where
  "validate_message L schema request =
     bindE (j_validate L vss_resolver schema request) (\<lambda>reports.
       if reports \<noteq> [] then Inl (SchemaError (concat (map report_line reports))) else Inr ())"

definition validateGet :: "'a lib_scheme \<Rightarrow> json \<Rightarrow> exn + unit" where
  "validateGet L request = validate_message L SCHEMA_GET request"

definition validateSet :: "'a lib_scheme \<Rightarrow> json \<Rightarrow> exn + unit" where
  "validateSet L request = validate_message L SCHEMA_SET request"

definition validateSubscribe :: "'a lib_scheme \<Rightarrow> json \<Rightarrow> exn + unit" where
  "validateSubscribe L request = validate_message L SCHEMA_SUBSCRIBE request"

definition validateUnsubscribe :: "'a lib_scheme \<Rightarrow> json \<Rightarrow> exn + unit" where
  "validateUnsubscribe L request = validate_message L SCHEMA_UNSUBSCRIBE request"

definition validateUpdateMetadata :: "'a lib_scheme \<Rightarrow> json \<Rightarrow> exn + unit" where
  "validateUpdateMetadata L request = validate_message L SCHEMA_UPDATE_METADATA request"

definition validateUpdateVSSTree :: "'a lib_scheme \<Rightarrow> json \<Rightarrow> exn + unit" where
  "validateUpdateVSSTree L request = validate_message L SCHEMA_UPDATE_VSS_TREE request"

text \<open>\<open>get_value_or<std::string>("requestId", "UNKNOWN")\<close>.\<close>

fun tryExtractRequestId :: "'a lib_scheme \<Rightarrow> json \<Rightarrow> exn + string" where
  "tryExtractRequestId L (JObj kvs) =
     (case map_of kvs ''requestId'' of None \<Rightarrow> Inr ''UNKNOWN'' | Some v \<Rightarrow> Inr (as_string L v))"
| "tryExtractRequestId L JNull = Inr ''UNKNOWN''"
| "tryExtractRequestId L _ = Inl NotAnObject"

section \<open>What is accepted\<close>

lemma validate_message_iff:
  assumes "schema_doc L" "fragment_schema schema_depth schema" "fragment_document vss_resolver"
  shows "validate_message L schema j = Inr () \<longleftrightarrow> conforms vss_resolver schema j"
    "\<not> conforms vss_resolver schema j \<Longrightarrow> \<exists>m. validate_message L schema j = Inl (SchemaError m)"
proof -
  from assms obtain reports where "j_validate L vss_resolver schema j = Inr reports"
      "reports = [] \<longleftrightarrow> conforms vss_resolver schema j"
    unfolding schema_doc_def by blast
  then show "validate_message L schema j = Inr () \<longleftrightarrow> conforms vss_resolver schema j"
    "\<not> conforms vss_resolver schema j \<Longrightarrow> \<exists>m. validate_message L schema j = Inl (SchemaError m)"
    by (auto simp: validate_message_def)
qed

lemma fragment_schemas [simp]:
  "fragment_schema schema_depth SCHEMA_GET" "fragment_schema schema_depth SCHEMA_SET"
  "fragment_schema schema_depth SCHEMA_SUBSCRIBE" "fragment_schema schema_depth SCHEMA_UNSUBSCRIBE"
  "fragment_schema schema_depth SCHEMA_UPDATE_METADATA" "fragment_schema schema_depth SCHEMA_UPDATE_VSS_TREE"
  "fragment_document vss_resolver"
  by code_simp+

lemma resolve_path: "resolve_ref vss_resolver (JObj [(''$ref'', JStr ''viss#/definitions/path'')])
    = JObj [(''description'', JStr ''The path to the desired vehicle signal(s), as defined by the metadata schema.''), (''type'', JStr ''string'')]"
  by code_simp

lemma resolve_requestId: "resolve_ref vss_resolver (JObj [(''$ref'', JStr ''viss#/definitions/requestId'')])
    = JObj [(''description'', JStr ''Returned by the server in the response and used by the client to link the request and response messages.''),
        (''type'', JStr ''string'')]"
  by code_simp

lemma resolve_subscriptionId: "resolve_ref vss_resolver (JObj [(''$ref'', JStr ''viss#/definitions/subscriptionId'')])
    = JObj [(''description'', JStr ''Integer handle value which is used to uniquely identify the subscription.''), (''type'', JStr ''string'')]"
  by code_simp

lemma resolve_metadata: "resolve_ref vss_resolver (JObj [(''$ref'', JStr ''viss#/definitions/metadata'')])
    = JObj [(''description'', JStr ''Metadata describing the potentially available signal tree.''), (''type'', JStr ''object'')]"
  by code_simp

lemma resolve_plain: "json_lookup s ''$ref'' = None \<Longrightarrow> resolve_ref r s = s"
  by (simp add: resolve_ref_def)

lemmas resolve_refs = resolve_path resolve_requestId resolve_subscriptionId resolve_metadata resolve_plain

definition has_string :: "json \<Rightarrow> string \<Rightarrow> bool" where
  "has_string j k \<longleftrightarrow> (\<exists>s. json_lookup j k = Some (JStr s))"

definition action_in :: "json \<Rightarrow> string set \<Rightarrow> bool" where
  "action_in j acts \<longleftrightarrow> (\<exists>a \<in> acts. json_lookup j ''action'' = Some (JStr a))"

definition attribute_ok :: "json \<Rightarrow> bool" where
  "attribute_ok j \<longleftrightarrow> (case json_lookup j ''attribute'' of None \<Rightarrow> True
     | Some a \<Rightarrow> a = JStr ''value'' \<or> a = JStr ''targetValue'')"

lemma type_named_string [simp]: "type_named ''string'' j \<longleftrightarrow> (\<exists>s. j = JStr s)"
  and type_named_object [simp]: "type_named ''object'' j \<longleftrightarrow> is_object j"
  by (simp_all add: type_named_def split: json.splits)

lemma flat_ok_depth: "flat_ok schema_depth (JObj kvs) j \<longleftrightarrow>
     type_ok (JObj kvs) j \<and> enum_ok (JObj kvs) j \<and> required_ok (JObj kvs) j
     \<and> (case map_of kvs ''properties'' of
           Some (JObj ps) \<Rightarrow> list_all (\<lambda>(k, s). case json_lookup j k of None \<Rightarrow> True | Some v \<Rightarrow> flat_ok 3 s v) ps
         | _ \<Rightarrow> True)"
  using flat_ok.simps(2)[of 3 "JObj kvs" j] by (simp add: schema_depth_def)

lemmas schema_simps = conforms_def type_ok_def enum_ok_def required_ok_def flat_ok_depth
  json_contains_lookup resolve_refs has_string_def action_in_def attribute_ok_def

lemma conforms_get:
  "conforms vss_resolver SCHEMA_GET j \<longleftrightarrow> is_object j \<and> action_in j {''get'', ''getMetaData''}
     \<and> has_string j ''path'' \<and> has_string j ''requestId'' \<and> attribute_ok j"
  by (auto simp: SCHEMA_GET_def schema_simps split: option.splits)

lemma conforms_set:
  "conforms vss_resolver SCHEMA_SET j \<longleftrightarrow> is_object j \<and> action_in j {''set''}
     \<and> has_string j ''path'' \<and> has_string j ''requestId'' \<and> attribute_ok j"
  by (auto simp: SCHEMA_SET_def schema_simps split: option.splits)

lemma conforms_unsubscribe:
  "conforms vss_resolver SCHEMA_UNSUBSCRIBE j \<longleftrightarrow> is_object j \<and> action_in j {''unsubscribe''}
     \<and> has_string j ''subscriptionId'' \<and> has_string j ''requestId''"
  by (auto simp: SCHEMA_UNSUBSCRIBE_def schema_simps split: option.splits)

lemma conforms_update_tree:
  "conforms vss_resolver SCHEMA_UPDATE_VSS_TREE j \<longleftrightarrow> is_object j \<and> action_in j {''updateVSSTree''}
     \<and> (\<exists>m. json_lookup j ''metadata'' = Some m \<and> is_object m) \<and> has_string j ''requestId''"
  by (auto simp: SCHEMA_UPDATE_VSS_TREE_def schema_simps split: option.splits)

lemma conforms_update_metadata:
  "conforms vss_resolver SCHEMA_UPDATE_METADATA j \<longleftrightarrow> is_object j \<and> action_in j {''updateMetaData''}
     \<and> has_string j ''path'' \<and> (\<exists>m. json_lookup j ''metadata'' = Some m \<and> is_object m) \<and> has_string j ''requestId''"
  by (auto simp: SCHEMA_UPDATE_METADATA_def schema_simps split: option.splits)

text \<open>The filters of a subscription: absent, null, or an object whose members are integers.\<close>

definition int_if_there :: "json \<Rightarrow> string \<Rightarrow> bool" where
  "int_if_there j k \<longleftrightarrow> (case json_lookup j k of None \<Rightarrow> True | Some v \<Rightarrow> \<exists>i. v = JInt i)"

definition filters_value :: "json \<Rightarrow> bool" where
  "filters_value f \<longleftrightarrow> f = JNull
     \<or> is_object f \<and> int_if_there f ''interval'' \<and> int_if_there f ''minChange''
       \<and> (case json_lookup f ''range'' of None \<Rightarrow> True | Some r \<Rightarrow> is_object r \<and> int_if_there r ''above'' \<and> int_if_there r ''below'')"

definition filters_ok :: "json \<Rightarrow> bool" where
  "filters_ok j \<longleftrightarrow> (case json_lookup j ''filters'' of None \<Rightarrow> True | Some f \<Rightarrow> filters_value f)"

lemma type_named_integer [simp]: "type_named ''integer'' j \<longleftrightarrow> (\<exists>i. j = JInt i)"
  and type_named_null [simp]: "type_named ''null'' j \<longleftrightarrow> j = JNull"
  by (simp_all add: type_named_def split: json.splits)

lemma resolve_filters: "resolve_ref vss_resolver (JObj [(''$ref'', JStr ''viss#/definitions/filters'')]) =
   JObj [(''description'', JStr ''May be specified in order to throttle the demands of subscriptions on the server.''),
         (''properties'', JObj [(''interval'', JObj [(''description'', JStr ''The server is requested to provide notifications with a period equal to this field's value.''),
                         (''type'', JStr ''integer'')]),
                 (''minChange'', JObj [(''description'', JStr ''The subscription will provide notifications when a value has changed by the amount specified in this field.''),
                         (''type'', JStr ''integer'')]),
                 (''range'', JObj [(''description'', JStr ''The server is requested to provide notifications only whilst a value is within a given range.''),
                         (''properties'', JObj [(''above'', JObj [(''description'', JStr ''The server is requested to provide notifications when the value is greater than or equal to this field's value.''),
                                         (''type'', JStr ''integer'')]),
                                 (''below'', JObj [(''description'', JStr ''The server is requested to provide notifications when the value is less than or equal to this field's value.''),
                                         (''type'', JStr ''integer'')])]),
                         (''type'', JStr ''object'')])]),
         (''type'', JArr [JStr ''object'', JStr ''null''])]"
  by code_simp

lemma flat_integer: "flat_ok (Suc n) (JObj [(''description'', d), (''type'', JStr ''integer'')]) v \<longleftrightarrow> (\<exists>i. v = JInt i)"
  by (simp add: type_ok_def enum_ok_def required_ok_def)

lemma flat_integers:
  "flat_ok (Suc (Suc n)) (JObj [(''description'', d), (''properties'', JObj [(''above'', JObj [(''description'', e), (''type'', JStr ''integer'')]),
       (''below'', JObj [(''description'', e'), (''type'', JStr ''integer'')])]), (''type'', JStr ''object'')]) v
   \<longleftrightarrow> is_object v \<and> int_if_there v ''above'' \<and> int_if_there v ''below''"
  by (simp add: type_ok_def enum_ok_def required_ok_def flat_integer int_if_there_def del: flat_ok.simps
      add: flat_ok.simps(2)[of "Suc n" "JObj [_, _, _]"] cong: option.case_cong)

lemma flat_filters:
  "flat_ok schema_depth (resolve_ref vss_resolver (JObj [(''$ref'', JStr ''viss#/definitions/filters'')])) f \<longleftrightarrow> filters_value f"
proof -
  have depth: "schema_depth = Suc (Suc (Suc (Suc 0)))" by (simp add: schema_depth_def)
  show ?thesis
    unfolding resolve_filters depth flat_ok.simps(2)[of "Suc (Suc (Suc 0))"]
    by (cases f) (simp_all add: type_ok_def enum_ok_def required_ok_def flat_integer flat_integers int_if_there_def filters_value_def del: flat_ok.simps cong: option.case_cong)
qed

lemma conforms_subscribe_iff:
  "conforms vss_resolver SCHEMA_SUBSCRIBE j \<longleftrightarrow> is_object j \<and> action_in j {''subscribe''}
     \<and> has_string j ''path'' \<and> has_string j ''requestId'' \<and> attribute_ok j \<and> filters_ok j"
  by (auto simp: SCHEMA_SUBSCRIBE_def filters_ok_def flat_filters schema_simps split: option.splits)

lemma conforms_subscribe:
  "conforms vss_resolver SCHEMA_SUBSCRIBE j \<Longrightarrow> is_object j \<and> action_in j {''subscribe''}
     \<and> has_string j ''path'' \<and> has_string j ''requestId'' \<and> attribute_ok j"
  by (auto simp: SCHEMA_SUBSCRIBE_def schema_simps split: option.splits)

lemma tryExtractRequestId_string: "json_lookup j ''requestId'' = Some (JStr s) \<Longrightarrow> tryExtractRequestId L j = Inr s"
  by (cases j) auto

lemma tryExtractRequestId_object: "is_object j \<Longrightarrow> \<exists>s. tryExtractRequestId L j = Inr s"
  by (cases j) (auto split: option.split)

end
