(* ===== verification/Authenticator.thy ===== *)
theory Authenticator
  imports AccessChecker
begin

text \<open>
  \<open>src/Authenticator.cpp\<close>: JSON web tokens are validated against a public key, and the claims of
  a valid token become the permissions of the channel. Decoding and verifying a token, and the
  text of its claims, are \<open>jwt-cpp\<close>'s.
\<close>

record Authenticator =
  pubkey :: string
  algorithm :: string

definition new_Authenticator :: "string \<Rightarrow> string \<Rightarrow> Authenticator" where
  "new_Authenticator secretkey algo = \<lparr>pubkey = secretkey, algorithm = algo\<rparr>"

text \<open>
  \<open>getPublicKeyFromFile\<close>: \<open>content\<close> is \<open>None\<close> when the file does not exist, \<open>Some None\<close> when it
  cannot be opened (reading then gives nothing), else what it holds.
\<close>

definition getPublicKeyFromFile :: "(string \<Rightarrow> string option option) \<Rightarrow> string \<Rightarrow> string" where
  "getPublicKeyFromFile content fileName =
     (case content fileName of None \<Rightarrow> [] | Some None \<Rightarrow> [] | Some (Some key) \<Rightarrow> key)"

definition updatePubKey :: "string \<Rightarrow> Authenticator \<Rightarrow> Authenticator" where
  "updatePubKey key a = a\<lparr>pubkey := key\<rparr>"

text \<open>\<open>validateToken\<close>: the result or the exception that leaves it, and the channel.\<close>

definition validateToken :: "'a lib_scheme \<Rightarrow> Authenticator \<Rightarrow> KuksaChannel \<Rightarrow> string \<Rightarrow> (exn + int) \<times> KuksaChannel" where
  "validateToken L a channel tok =
     (case jwt_decode L tok of
        Inl e \<Rightarrow> ((if is_std_exception e then Inr (-1) else Inl e), channel)
      | Inr payload \<Rightarrow>
          let claims = json_build (map (\<lambda>(k, v). (k, JStr (jwt_claim_str L v))) payload)
          in case jwt_verify L (pubkey a) tok of
               Inl e \<Rightarrow> ((if is_std_exception e then Inr (-1) else Inl e), channel)
             | Inr _ \<Rightarrow>
                 let channel' = setAuthToken tok (setAuthorized True channel)
                 in case bindE (json_at claims ''exp'') (j_num L I32) of
                      Inl e \<Rightarrow> ((if is_std_exception e then Inr (-1) else Inl e), channel')
                    | Inr ttl \<Rightarrow> (Inr (case ttl of IVal i \<Rightarrow> i | FVal _ \<Rightarrow> -1), channel'))"

text \<open>The permissions accepted from the claim \<open>kuksa-vss\<close>.\<close>

definition valid_permission :: "json \<Rightarrow> bool" where
  "valid_permission v = (v = JStr ''rw'' \<or> v = JStr ''wr'' \<or> v = JStr ''w'' \<or> v = JStr ''r'')"

fun collect_permissions :: "(string \<times> json) list \<Rightarrow> json \<Rightarrow> json" where
  "collect_permissions [] acc = acc"
| "collect_permissions ((k, v) # rest) acc =
     collect_permissions rest (if valid_permission v then json_set acc k v else acc)"

fun parse_claims :: "'a lib_scheme \<Rightarrow> (string \<times> json) list \<Rightarrow> json \<Rightarrow> exn + json" where
  "parse_claims L [] acc = Inr acc"
| "parse_claims L ((k, v) # rest) acc =
     bindE (j_parse L (jwt_claim_json L v)) (\<lambda>j. parse_claims L rest (json_set acc k j))"

definition resolvePermissions :: "'a lib_scheme \<Rightarrow> KuksaChannel \<Rightarrow> (exn + unit) \<times> KuksaChannel" where
  "resolvePermissions L channel =
     (case bindE (jwt_decode L (getAuthToken channel)) (\<lambda>payload. parse_claims L payload json_new) of
        Inl e \<Rightarrow> (Inl e, channel)
      | Inr claims \<Rightarrow>
          (case (case json_lookup claims ''modifyTree'' of None \<Rightarrow> Inr False | Some m \<Rightarrow> j_bool L m) of
             Inl e \<Rightarrow> (Inl e, channel)
           | Inr modify \<Rightarrow>
               let channel1 = (if modify then enableModifyTree channel else channel)
               in case (case json_lookup claims ''kuksa-vss'' of None \<Rightarrow> Inr [] | Some p \<Rightarrow> j_members L p) of
                    Inl e \<Rightarrow> (Inl e, channel1)
                  | Inr members \<Rightarrow>
                      let perms = collect_permissions members json_new
                      in (Inr (), setPermissions (JStr (j_pretty L perms)) channel1)))"

definition validate :: "'a lib_scheme \<Rightarrow> Authenticator \<Rightarrow> KuksaChannel \<Rightarrow> string \<Rightarrow> (exn + int) \<times> KuksaChannel" where
  "validate L a channel tok =
     (case validateToken L a channel tok of
        (Inl e, channel') \<Rightarrow> (Inl e, channel')
      | (Inr ttl, channel') \<Rightarrow>
          if ttl > 0 then
            (case resolvePermissions L channel' of
               (Inl e, channel'') \<Rightarrow> (Inl e, channel'')
             | (Inr _, channel'') \<Rightarrow> (Inr ttl, channel''))
          else (Inr ttl, channel'))"

definition isStillValid :: "'a lib_scheme \<Rightarrow> Authenticator \<Rightarrow> KuksaChannel \<Rightarrow> (exn + bool) \<times> KuksaChannel" where
  "isStillValid L a channel =
     (case validateToken L a channel (getAuthToken channel) of
        (Inl e, channel') \<Rightarrow> (Inl e, channel')
      | (Inr ret, channel') \<Rightarrow>
          if ret = -1 then (Inr False, setAuthorized False channel') else (Inr True, channel'))"

section \<open>Lemmas\<close>

text \<open>A token the library does not verify leaves the channel as it was.\<close>

lemma validateToken_unverified:
  "(\<And>u. jwt_verify L (pubkey a) t \<noteq> Inr u) \<Longrightarrow> snd (validateToken L a c t) = c"
  by (auto simp: validateToken_def Let_def split: sum.splits)

lemma validateToken_success:
  assumes "validateToken L a c t = (Inr n, c')" "n \<noteq> -1"
  shows "jwt_verify L (pubkey a) t = Inr ()" "authorized c'" "authToken c' = t"
    "permissions c' = permissions c" "modifyTree c' = modifyTree c"
    "connectionID c' = connectionID c" "typeOfConnection c' = typeOfConnection c"
  using assms by (auto simp: validateToken_def Let_def channel_defs split: sum.splits if_splits)

lemma validateToken_frame:
  "validateToken L a c t = (r, c') \<Longrightarrow>
   permissions c' = permissions c \<and> modifyTree c' = modifyTree c \<and> connectionID c' = connectionID c
   \<and> typeOfConnection c' = typeOfConnection c \<and> grpcSubsMap c' = grpcSubsMap c
   \<and> (c' = c \<or> authorized c' \<and> authToken c' = t \<and> jwt_verify L (pubkey a) t = Inr ())"
  by (auto simp: validateToken_def Let_def channel_defs split: sum.splits if_splits)

text \<open>The permissions collected are the valid ones, later members overriding earlier ones.\<close>

lemma collect_permissions_lookup:
  "is_object acc \<Longrightarrow> is_object (collect_permissions kvs acc) \<and>
   json_lookup (collect_permissions kvs acc) k =
     (case map_of (rev (filter (\<lambda>(k, v). valid_permission v) kvs)) k of
        Some v \<Rightarrow> Some v | None \<Rightarrow> json_lookup acc k)"
proof (induction kvs arbitrary: acc)
  case (Cons kv kvs)
  then show ?case
    by (cases kv) (auto simp: json_lookup_set map_add_def split: option.splits)
qed simp

lemma collect_permissions_shape:
  assumes "sorted_keys kvs0" "\<forall>(k, v) \<in> set kvs0. valid_permission v"
  shows "\<exists>kvs'. collect_permissions kvs (JObj kvs0) = JObj kvs' \<and> sorted_keys kvs'
    \<and> (\<forall>(k, v) \<in> set kvs'. valid_permission v)"
  using assms
proof (induction kvs arbitrary: kvs0)
  case (Cons kv kvs)
  obtain k v where kv: "kv = (k, v)" by (cases kv)
  show ?case
  proof (cases "valid_permission v")
    case True
    have "set (ins_sorted k v kvs0) \<subseteq> insert (k, v) (set kvs0)"
      by (induction k v kvs0 rule: ins_sorted.induct) auto
    with Cons.prems True have "\<forall>(k, v) \<in> set (ins_sorted k v kvs0). valid_permission v" by auto
    with Cons.IH[OF sorted_keys_ins[OF Cons.prems(1)]] True kv show ?thesis by simp
  next
    case False
    with Cons kv show ?thesis by simp
  qed
qed auto

text \<open>The policy a permission object amounts to.\<close>

definition object_policy :: "json \<Rightarrow> policy" where
  "object_policy j = (case j of JObj kvs \<Rightarrow> map (\<lambda>(k, v). (k, case v of JStr s \<Rightarrow> s | _ \<Rightarrow> [])) kvs | _ \<Rightarrow> [])"

definition granted_policy :: "(string \<times> json) list \<Rightarrow> policy" where
  "granted_policy members = object_policy (collect_permissions members json_new)"

lemma granted_policy_json:
  "collect_permissions members json_new = policy_json (granted_policy members)"
  "sorted_keys (granted_policy members)"
  "(k, v) \<in> set (granted_policy members) \<Longrightarrow> v \<in> {''r'', ''w'', ''rw'', ''wr''}"
proof -
  obtain kvs' where kvs': "collect_permissions members json_new = JObj kvs'" "sorted_keys kvs'"
      "\<forall>(k, v) \<in> set kvs'. valid_permission v"
    using collect_permissions_shape[of "[]" members] by (auto simp: sorted_keys_def)
  have gp: "granted_policy members = map (\<lambda>(k, v). (k, case v of JStr s \<Rightarrow> s | _ \<Rightarrow> [])) kvs'"
    by (simp add: granted_policy_def object_policy_def kvs')
  have keys: "map fst (granted_policy members) = map fst kvs'"
    by (simp add: gp comp_def case_prod_beta)
  show "sorted_keys (granted_policy members)"
    using kvs'(2) by (simp add: sorted_keys_def keys)
  have "map (\<lambda>(k, v). (k, JStr v)) (granted_policy members) = kvs'"
    unfolding gp map_map
    by (rule map_idI) (use kvs'(3) in \<open>auto simp: valid_permission_def\<close>)
  then show "collect_permissions members json_new = policy_json (granted_policy members)"
    by (simp add: policy_json_def kvs')
  show "(k, v) \<in> set (granted_policy members) \<Longrightarrow> v \<in> {''r'', ''w'', ''rw'', ''wr''}"
    using kvs'(3) by (auto simp: gp valid_permission_def)
qed

text \<open>After resolving a token with the claim \<open>kuksa-vss\<close> the channel holds the granted policy.\<close>

lemma json_doc_policy:
  assumes "json_doc L" "sorted_keys ps"
  shows "j_pretty L (policy_json ps) \<noteq> []" "j_parse L (j_pretty L (policy_json ps)) = Inr (policy_json ps)"
proof -
  have "map fst (map (\<lambda>(k, v). (k, JStr v)) ps) = map fst ps"
    by (simp add: comp_def case_prod_beta)
  with assms(2) have "sorted_keys (map (\<lambda>(k, v). (k, JStr v)) ps)"
    by (simp only: sorted_keys_def)
  moreover have "\<And>k v. (k, v) \<in> set (map (\<lambda>(k, v). (k, JStr v)) ps) \<Longrightarrow> \<exists>s. v = JStr s" by auto
  ultimately show "j_pretty L (policy_json ps) \<noteq> []" "j_parse L (j_pretty L (policy_json ps)) = Inr (policy_json ps)"
    unfolding policy_json_def using json_doc_pretty[OF assms(1)] by blast+
qed

text \<open>The permissions a token grants: the member \<open>kuksa-vss\<close> of its claims.\<close>

definition permission_members :: "'a lib_scheme \<Rightarrow> json \<Rightarrow> exn + (string \<times> json) list" where
  "permission_members L claims =
     (case json_lookup claims ''kuksa-vss'' of None \<Rightarrow> Inr [] | Some p \<Rightarrow> j_members L p)"

lemma resolved_policy:
  assumes "json_doc L" "resolvePermissions L c = (Inr (), c')"
  obtains payload claims members where "jwt_decode L (authToken c) = Inr payload"
    "parse_claims L payload json_new = Inr claims" "permission_members L claims = Inr members"
    "holds_policy L c' (granted_policy members)"
proof -
  from assms(2) obtain payload claims members where perms: "permissions c' = JStr (j_pretty L (collect_permissions members json_new))"
      and parts: "jwt_decode L (authToken c) = Inr payload" "parse_claims L payload json_new = Inr claims"
        "permission_members L claims = Inr members"
    by (auto simp: resolvePermissions_def permission_members_def bindE_Inr_conv Let_def channel_defs split: sum.splits if_splits)
  have "holds_policy L c' (granted_policy members)"
    using json_doc_policy[OF assms(1) granted_policy_json(2)[of members]]
    by (simp add: holds_policy_def channel_defs perms granted_policy_json(1))
  with parts show ?thesis by (rule that)
qed

lemma resolvePermissions_frame:
  "resolvePermissions L c = (r, c') \<Longrightarrow>
   (modifyTree c \<longrightarrow> modifyTree c') \<and> authorized c' = authorized c \<and> authToken c' = authToken c
   \<and> connectionID c' = connectionID c \<and> typeOfConnection c' = typeOfConnection c \<and> grpcSubsMap c' = grpcSubsMap c"
  by (auto simp: resolvePermissions_def Let_def channel_defs split: sum.splits if_splits)

section \<open>Validation as a whole\<close>

lemma validate_unverified:
  assumes "\<forall>u. jwt_verify L (pubkey a) tok \<noteq> Inr u" "validate L a c tok = (r, c')"
  shows "(\<forall>n. r = Inr n \<longrightarrow> n \<le> 0) \<and> c' = c"
  using assms
  by (auto simp: validate_def validateToken_def Let_def split: sum.splits if_splits prod.splits)

lemma validate_granted:
  assumes docs: "json_doc L" "regex_doc L" and val: "validate L a c tok = (Inr n, c')" and pos: "0 < n"
  shows "jwt_verify L (pubkey a) tok = Inr () \<and> authorized c' \<and> authToken c' = tok
    \<and> connectionID c' = connectionID c \<and> typeOfConnection c' = typeOfConnection c
    \<and> (\<exists>payload claims members. jwt_decode L tok = Inr payload \<and> parse_claims L payload json_new = Inr claims
        \<and> permission_members L claims = Inr members
        \<and> (list_all (\<lambda>(k, v). pattern_items k \<noteq> None) (granted_policy members) \<longrightarrow>
            (\<forall>path req. checkSignalAccess L c' path req = Inr (contains_sub (effective_permission (granted_policy members) path) req))))"
proof -
  from val pos obtain c1 where tok: "validateToken L a c tok = (Inr n, c1)" and res: "resolvePermissions L c1 = (Inr (), c')"
    by (auto simp: validate_def split: sum.splits if_splits prod.splits)
  from pos have "n \<noteq> -1" by simp
  note facts = validateToken_success[OF tok this] resolvePermissions_frame[OF res]
  from resolved_policy[OF docs(1) res] obtain payload claims members
    where parts: "jwt_decode L (authToken c1) = Inr payload" "parse_claims L payload json_new = Inr claims"
        "permission_members L claims = Inr members" and pol: "holds_policy L c' (granted_policy members)" by blast
  have "checkSignalAccess L c' path req = Inr (contains_sub (effective_permission (granted_policy members) path) req)"
    if "list_all (\<lambda>(k, v). pattern_items k \<noteq> None) (granted_policy members)" for path req
    using that granted_policy_json(2)[of members]
    by (intro checkSignalAccess_policy[OF docs(2,1) _ pol]) (simp add: good_policy_def)
  with facts parts show ?thesis by auto
qed

end
