(* ===== verification/CommandProcessor.thy ===== *)
theory CommandProcessor
  imports RecordDatabase TreeUpdates RequestValidator Authenticator
begin

text \<open>
  The requests: \<open>src/VssCommandProcessor.cpp\<close> and the four \<open>src/VssCommand*.cpp\<close>. A request runs on
  the state \<open>world\<close> of the objects the processor holds pointers to, and on the channel of its
  connection. \<open>env\<close> holds what the operating system supplies during one request: the readings of the
  clocks and a fresh random UUID.
\<close>

record env =
  env_offset :: int
  env_now :: int
  env_clock :: "int \<times> int"
  env_uuid :: uuid

record world =
  w_db :: VssDatabase
  w_sub :: SubscriptionHandler
  w_auth :: Authenticator
  w_rec :: "VssDatabase_Record option"

abbreviation stamp :: "env \<Rightarrow> string" where
  "stamp E \<equiv> getTimeStamp (env_offset E) (env_now E)"

section \<open>The database behind its interface\<close>

text \<open>Virtual calls: \<open>w_rec\<close> is there when the database is a \<open>VssDatabase_Record\<close>.\<close>

definition database_setSignal :: "'a lib_scheme \<Rightarrow> env \<Rightarrow> VSSPath \<Rightarrow> string \<Rightarrow> json \<Rightarrow> world \<Rightarrow> (exn + json) \<times> world" where
  "database_setSignal L E path attr value w =
     (case w_rec w of
        None \<Rightarrow>
          (case setSignal L (env_clock E) path attr value (w_db w) (w_sub w) of
             (r, _, db', sh') \<Rightarrow> (r, w\<lparr>w_db := db', w_sub := sh'\<rparr>))
      | Some rec \<Rightarrow>
          (case rec_setSignal L (env_clock E) path attr value (w_db w) (w_sub w) rec of
             ((r, _, db', sh'), rec') \<Rightarrow> (r, w\<lparr>w_db := db', w_sub := sh', w_rec := Some rec'\<rparr>)))"

definition database_getSignal :: "'a lib_scheme \<Rightarrow> VSSPath \<Rightarrow> string \<Rightarrow> bool \<Rightarrow> world \<Rightarrow> (exn + json) \<times> world" where
  "database_getSignal L path attr as_str w =
     (case w_rec w of
        None \<Rightarrow> (getSignal L path attr as_str (w_db w), w)
      | Some rec \<Rightarrow>
          (case rec_getSignal L path attr as_str (w_db w) rec of (r, rec') \<Rightarrow> (r, w\<lparr>w_rec := Some rec'\<rparr>)))"

section \<open>Error handling\<close>

fun is_schema_error :: "exn \<Rightarrow> bool" where
  "is_schema_error (SchemaError m) = True" | "is_schema_error _ = False"

fun is_gen_exception :: "exn \<Rightarrow> bool" where
  "is_gen_exception (GenException m) = True" | "is_gen_exception _ = False"

fun is_no_path :: "exn \<Rightarrow> bool" where
  "is_no_path (NoPathFoundOnTree p) = True" | "is_no_path _ = False"

fun is_no_permission :: "exn \<Rightarrow> bool" where
  "is_no_permission (NoPermission m) = True" | "is_no_permission _ = False"

fun is_out_of_bound :: "exn \<Rightarrow> bool" where
  "is_out_of_bound (OutOfBound m) = True" | "is_out_of_bound _ = False"

fun is_not_set :: "exn \<Rightarrow> bool" where
  "is_not_set (NotSet m) = True" | "is_not_set _ = False"

text \<open>What \<open>processQuery\<close> catches.\<close>

fun is_request_error :: "exn \<Rightarrow> bool" where
  "is_request_error (SerError m) = True"
| "is_request_error (KeyNotFound k) = True"
| "is_request_error NotAnObject = True"
| "is_request_error _ = False"

text \<open>
  The \<open>try\<close> block around a validation: \<open>None\<close> goes on, otherwise the handler's answer. The
  second action is the one the handler for other exceptions names.
\<close>

definition reject_request :: "'a lib_scheme \<Rightarrow> env \<Rightarrow> exn + unit \<Rightarrow> json \<Rightarrow> string \<Rightarrow> string \<Rightarrow> (exn + json) option" where
  "reject_request L E v request act act' =
     (case v of
        Inr _ \<Rightarrow> None
      | Inl e \<Rightarrow> Some (
          if is_schema_error e then
            bindE (tryExtractRequestId L request) (\<lambda>rid.
              Inr (malFormedRequest (stamp E) rid act (''Schema error: '' @ b_trim L (what L e))))
          else if is_std_exception e then
            bindE (tryExtractRequestId L request) (\<lambda>rid.
              Inr (malFormedRequest (stamp E) rid act' (''Unhandled error: '' @ what L e)))
          else Inl e))"

text \<open>\<open>request["k"].as<string>()\<close>, and the attribute with its default.\<close>

definition req_string :: "'a lib_scheme \<Rightarrow> json \<Rightarrow> string \<Rightarrow> exn + string" where
  "req_string L request k = bindE (json_at request k) (\<lambda>v. Inr (as_string L v))"

definition req_attribute :: "'a lib_scheme \<Rightarrow> json \<Rightarrow> string" where
  "req_attribute L request = (case json_lookup request ''attribute'' of None \<Rightarrow> ''value'' | Some a \<Rightarrow> as_string L a)"

text \<open>An error object of three members, put together in the handlers.\<close>

definition error_object :: "string \<Rightarrow> string \<Rightarrow> string \<Rightarrow> json" where
  "error_object number reason message =
     json_build [(''number'', JStr number), (''reason'', JStr reason), (''message'', JStr message)]"

section \<open>get\<close>

text \<open>The loop over the leaves: an early answer, or the data points.\<close>

fun get_loop :: "'a lib_scheme \<Rightarrow> env \<Rightarrow> KuksaChannel \<Rightarrow> json \<Rightarrow> string \<Rightarrow> string \<Rightarrow> VSSPath \<Rightarrow> string \<Rightarrow> VSSPath list \<Rightarrow> json list
    \<Rightarrow> world \<Rightarrow> (exn + (json + json list)) \<times> world" where
  "get_loop L E channel request requestId pathStr path attribute [] datapoints w = (Inr (Inr datapoints), w)"
| "get_loop L E channel request requestId pathStr path attribute (vssPath # rest) datapoints w =
     (case checkReadAccess L channel vssPath of
        Inl e \<Rightarrow> (Inl e, w)
      | Inr readable \<Rightarrow>
          if \<not> readable then
            (Inr (Inl (noAccess (stamp E) requestId ''get'' (''Insufficient read access to '' @ pathStr))), w)
          else
            (case pathIsAttributable L (w_db w) path attribute of
               Inl e \<Rightarrow> (Inl e, w)
             | Inr attributable \<Rightarrow>
                 if \<not> attributable then
                   (bindE (req_string L request ''requestId'') (\<lambda>rid.
                      Inr (Inl (noAccess (stamp E) rid ''set''
                        (''Can not get '' @ to_string path @ '' with attribute '' @ attribute @ ''.'')))), w)
                 else
                   (case database_getSignal L vssPath attribute (getType channel \<noteq> GRPC) w of
                      (Inl e, w') \<Rightarrow> (Inl e, w')
                    | (Inr dp, w') \<Rightarrow>
                        get_loop L E channel request requestId pathStr path attribute rest (datapoints @ [dp]) w')))"

definition processGet :: "'a lib_scheme \<Rightarrow> env \<Rightarrow> KuksaChannel \<Rightarrow> json \<Rightarrow> world \<Rightarrow> (exn + json) \<times> world" where
  "processGet L E channel request w =
     (case req_string L request ''path'' of
        Inl e \<Rightarrow> (Inl e, w)
      | Inr pathStr \<Rightarrow>
          let path = fromVSS L pathStr
          in case reject_request L E (validateGet L request) request ''get'' ''get'' of
               Some answer \<Rightarrow> (answer, w)
             | None \<Rightarrow>
                 (case req_string L request ''requestId'' of
                    Inl e \<Rightarrow> (Inl e, w)
                  | Inr requestId \<Rightarrow>
                      let attribute = req_attribute L request
                      in case (case getLeafPaths L (w_db w) path of
                                 Inl e \<Rightarrow> (Inl e, w)
                               | Inr vssPaths \<Rightarrow>
                                   (case get_loop L E channel request requestId pathStr path attribute vssPaths [] w of
                                      (Inl e, w') \<Rightarrow> (Inl e, w')
                                    | (Inr (Inl answer), w') \<Rightarrow> (Inr answer, w')
                                    | (Inr (Inr datapoints), w') \<Rightarrow>
                                        if length vssPaths < 1 then (Inr (pathNotFound (stamp E) requestId ''get'' pathStr), w')
                                        else
                                          (bindE (if length vssPaths = 1 then elem_at datapoints 0 else Inr (JArr datapoints)) (\<lambda>data.
                                             Inr (json_build [(''data'', data), (''action'', JStr ''get''),
                                               (''requestId'', JStr requestId), (''ts'', JStr (stamp E))])), w'))) of
                           (Inr answer, w') \<Rightarrow> (Inr answer, w')
                         | (Inl e, w') \<Rightarrow>
                             (if is_not_set e then Inr (notSetResponse (stamp E) requestId (what L e))
                              else if is_std_exception e then
                                Inr (malFormedRequest (stamp E) requestId ''get'' (''Unhandled error: '' @ what L e))
                              else Inl e, w')))"

section \<open>set\<close>

text \<open>The checks of one pair: an early answer, or nothing.\<close>

definition set_checks :: "'a lib_scheme \<Rightarrow> env \<Rightarrow> KuksaChannel \<Rightarrow> json \<Rightarrow> string \<Rightarrow> VSSPath \<Rightarrow> VssDatabase \<Rightarrow> exn + json option" where
  "set_checks L E channel request attribute path db =
     bindE (pathExists L db path) (\<lambda>ex.
     if \<not> ex then bindE (req_string L request ''requestId'') (\<lambda>rid. Inr (Some (pathNotFound (stamp E) rid ''set'' (to_string path)))) else
     bindE (checkWriteAccess L channel path) (\<lambda>allowed.
     if \<not> allowed then bindE (req_string L request ''requestId'') (\<lambda>rid.
       Inr (Some (noAccess (stamp E) rid ''set'' (''No write access to '' @ to_string path)))) else
     bindE (pathIsWritable L db path) (\<lambda>writable.
     if \<not> writable then bindE (req_string L request ''requestId'') (\<lambda>rid.
       Inr (Some (noAccess (stamp E) rid ''set'' (''Can not set '' @ to_string path @ ''. Only sensor or actor leaves can be set.'')))) else
     bindE (pathIsAttributable L db path attribute) (\<lambda>attributable.
     if \<not> attributable then bindE (req_string L request ''requestId'') (\<lambda>rid.
       Inr (Some (noAccess (stamp E) rid ''set'' (''Can not set path:'' @ to_string path @ '' with attribute:'' @ attribute @ ''.'')))) else
     Inr None))))"

fun set_checks_loop :: "'a lib_scheme \<Rightarrow> env \<Rightarrow> KuksaChannel \<Rightarrow> json \<Rightarrow> string \<Rightarrow> (VSSPath \<times> json) list \<Rightarrow> VssDatabase \<Rightarrow> exn + json option" where
  "set_checks_loop L E channel request attribute [] db = Inr None"
| "set_checks_loop L E channel request attribute ((path, v) # rest) db =
     bindE (set_checks L E channel request attribute path db) (\<lambda>r.
     case r of Some answer \<Rightarrow> Inr (Some answer) | None \<Rightarrow> set_checks_loop L E channel request attribute rest db)"

fun set_loop :: "'a lib_scheme \<Rightarrow> env \<Rightarrow> string \<Rightarrow> (VSSPath \<times> json) list \<Rightarrow> world \<Rightarrow> (exn + unit) \<times> world" where
  "set_loop L E attribute [] w = (Inr (), w)"
| "set_loop L E attribute ((path, v) # rest) w =
     (case database_setSignal L E path attribute v w of
        (Inl e, w') \<Rightarrow> (Inl e, w')
      | (Inr _, w') \<Rightarrow> set_loop L E attribute rest w')"

text \<open>
  The handlers around the loop. The one for \<open>genException\<close> returns the text of its answer, which
  the return type turns into a JSON string.
\<close>

definition set_error :: "'a lib_scheme \<Rightarrow> env \<Rightarrow> json \<Rightarrow> VSSPath \<Rightarrow> exn \<Rightarrow> exn + json" where
  "set_error L E request path e =
     (if is_gen_exception e then
        bindE (json_at request ''requestId'') (\<lambda>rid.
          Inr (JStr (j_pretty L (json_build [(''action'', JStr ''set''), (''requestId'', rid),
            (''error'', error_object ''401'' ''Unknown error'' (what L e)), (''ts'', JStr (stamp E))]))))
      else if is_no_path e then
        bindE (req_string L request ''requestId'') (\<lambda>rid. Inr (pathNotFound (stamp E) rid ''set'' (to_string path)))
      else if is_out_of_bound e then
        bindE (req_string L request ''requestId'') (\<lambda>rid. Inr (valueOutOfBounds (stamp E) rid ''set'' (what L e)))
      else if is_no_permission e then
        bindE (req_string L request ''requestId'') (\<lambda>rid. Inr (noAccess (stamp E) rid ''set'' (what L e)))
      else if is_std_exception e then
        bindE (req_string L request ''requestId'') (\<lambda>rid.
          Inr (malFormedRequest (stamp E) rid ''set'' (''Unhandled error: '' @ what L e)))
      else Inl e)"

definition processSet :: "'a lib_scheme \<Rightarrow> env \<Rightarrow> KuksaChannel \<Rightarrow> json \<Rightarrow> world \<Rightarrow> (exn + json) \<times> world" where
  "processSet L E channel request w =
     (case reject_request L E (validateSet L request) request ''set'' ''set'' of
        Some answer \<Rightarrow> (answer, w)
      | None \<Rightarrow>
          (case bindE (req_string L request ''path'') (\<lambda>p.
                bindE (req_string L request ''requestId'') (\<lambda>rid.
                bindE (json_at request (req_attribute L request)) (\<lambda>v. Inr (fromVSS L p, v)))) of
             Inl e \<Rightarrow> (Inl e, w)
           | Inr (path, value) \<Rightarrow>
               let attribute = req_attribute L request; setPairs = [(path, value)]
               in case set_checks_loop L E channel request attribute setPairs (w_db w) of
                    Inl e \<Rightarrow> (Inl e, w)
                  | Inr (Some answer) \<Rightarrow> (Inr answer, w)
                  | Inr None \<Rightarrow>
                      (case set_loop L E attribute setPairs w of
                         (Inl e, w') \<Rightarrow> (set_error L E request path e, w')
                       | (Inr _, w') \<Rightarrow>
                           (bindE (json_at request ''requestId'') (\<lambda>rid.
                              Inr (json_build [(''action'', JStr ''set''), (''requestId'', rid), (''ts'', JStr (stamp E))])), w'))))"

section \<open>subscribe and unsubscribe\<close>

definition processSubscribe :: "'a lib_scheme \<Rightarrow> env \<Rightarrow> KuksaChannel \<Rightarrow> json \<Rightarrow> world \<Rightarrow> (exn + json) \<times> world" where
  "processSubscribe L E channel request w =
     (case reject_request L E (validateSubscribe L request) request ''subscribe'' ''get'' of
        Some answer \<Rightarrow> (answer, w)
      | None \<Rightarrow>
          (case bindE (req_string L request ''path'') (\<lambda>p. bindE (req_string L request ''requestId'') (\<lambda>rid. Inr (p, rid))) of
             Inl e \<Rightarrow> (Inl e, w)
           | Inr (path, request_id) \<Rightarrow>
               (case subscribe L (env_uuid E) channel (w_db w) path (req_attribute L request) (w_sub w) of
                  (Inl e, sh') \<Rightarrow>
                    (if is_no_path e then Inr (pathNotFound (stamp E) request_id ''subscribe'' path)
                     else if is_no_permission e then Inr (noAccess (stamp E) request_id ''subscribe'' (what L e))
                     else if is_gen_exception e then Inr (valueOutOfBounds (stamp E) request_id ''subscribe'' (what L e))
                     else if is_std_exception e then
                       Inr (malFormedRequest (stamp E) request_id ''get'' (''Unhandled error: '' @ what L e))
                     else Inl e, w\<lparr>w_sub := sh'\<rparr>)
                | (Inr subId, sh') \<Rightarrow>
                    (Inr (json_build [(''action'', JStr ''subscribe''), (''requestId'', JStr request_id),
                       (''subscriptionId'', JStr (uuid_show L subId)), (''ts'', JStr (stamp E))]), w\<lparr>w_sub := sh'\<rparr>))))"

text \<open>The text of an id is read by \<open>boost\<close>; its complaint is a \<open>std::runtime_error\<close>.\<close>

fun is_runtime_error :: "exn \<Rightarrow> bool" where
  "is_runtime_error (StdException m) = True" | "is_runtime_error _ = False"

definition processUnsubscribe :: "'a lib_scheme \<Rightarrow> env \<Rightarrow> KuksaChannel \<Rightarrow> json \<Rightarrow> world \<Rightarrow> (exn + json) \<times> world" where
  "processUnsubscribe L E channel request w =
     (case reject_request L E (validateUnsubscribe L request) request ''unsubscribe'' ''unsubscribe'' of
        Some answer \<Rightarrow> (answer, w)
      | None \<Rightarrow>
          (case bindE (req_string L request ''requestId'') (\<lambda>rid. bindE (req_string L request ''subscriptionId'') (\<lambda>s. Inr (rid, s))) of
             Inl e \<Rightarrow> (Inl e, w)
           | Inr (request_id, s) \<Rightarrow>
               (case uuid_parse L s of
                  Inl e \<Rightarrow>
                    (if is_runtime_error e then
                       bindE (tryExtractRequestId L request) (\<lambda>rid.
                         Inr (malFormedRequest (stamp E) rid ''unsubscribe'' (''Subscription ID is not a UUID: '' @ what L e)))
                     else Inl e, w)
                | Inr subscribeID \<Rightarrow>
                    (case unsubscribe subscribeID (w_sub w) of
                       (res, sh') \<Rightarrow>
                         (Inr (if res = 0 then
                                 json_build [(''action'', JStr ''unsubscribe''), (''requestId'', JStr request_id),
                                   (''subscriptionId'', JStr (uuid_show L subscribeID)), (''ts'', JStr (stamp E))]
                               else
                                 json_build [(''action'', JStr ''unsubscribe''), (''requestId'', JStr request_id),
                                   (''error'', error_object ''400'' ''Unknown error'' ''Error while unsubscribing''),
                                   (''ts'', JStr (stamp E))]), w\<lparr>w_sub := sh'\<rparr>)))))"

section \<open>Trees and metadata\<close>

text \<open>The handlers of the two updates.\<close>

definition update_error :: "'a lib_scheme \<Rightarrow> env \<Rightarrow> json \<Rightarrow> string \<Rightarrow> json \<Rightarrow> exn \<Rightarrow> exn + json" where
  "update_error L E request act answer e =
     (if is_gen_exception e then Inr (json_set answer ''error'' (error_object ''401'' ''Unknown error'' (what L e)))
      else if is_no_permission e then
        bindE (req_string L request ''requestId'') (\<lambda>rid. Inr (noAccess (stamp E) rid act (what L e)))
      else if is_std_exception e then
        bindE (req_string L request ''requestId'') (\<lambda>rid.
          Inr (malFormedRequest (stamp E) rid ''get'' (''Unhandled error: '' @ what L e)))
      else Inl e)"

definition update_answer :: "env \<Rightarrow> json \<Rightarrow> string \<Rightarrow> exn + json" where
  "update_answer E request act =
     bindE (json_at request ''requestId'') (\<lambda>rid.
       Inr (json_build [(''action'', JStr act), (''requestId'', rid), (''ts'', JStr (stamp E))]))"

definition processUpdateVSSTree :: "'a lib_scheme \<Rightarrow> env \<Rightarrow> KuksaChannel \<Rightarrow> json \<Rightarrow> world \<Rightarrow> (exn + json) \<times> world" where
  "processUpdateVSSTree L E channel request w =
     (case reject_request L E (validateUpdateVSSTree L request) request ''updateVSSTree'' ''updateVSSTree'' of
        Some answer \<Rightarrow> (answer, w)
      | None \<Rightarrow>
          (case update_answer E request ''updateVSSTree'' of
             Inl e \<Rightarrow> (Inl e, w)
           | Inr answer \<Rightarrow>
               (case (case json_at request ''metadata'' of
                        Inl e \<Rightarrow> (Inl e, w_db w)
                      | Inr metadata \<Rightarrow> updateJsonTree L channel metadata (w_db w)) of
                  (Inl e, db') \<Rightarrow> (update_error L E request ''updateVSSTree'' answer e, w\<lparr>w_db := db'\<rparr>)
                | (Inr _, db') \<Rightarrow> (Inr answer, w\<lparr>w_db := db'\<rparr>))))"

definition processGetMetaData :: "'a lib_scheme \<Rightarrow> env \<Rightarrow> json \<Rightarrow> world \<Rightarrow> exn + json" where
  "processGetMetaData L E request w =
     bindE (req_string L request ''path'') (\<lambda>p.
     let path = fromVSS L p
     in case reject_request L E (validateGet L request) request ''getMetaData'' ''getMetaData'' of
          Some answer \<Rightarrow> answer
        | None \<Rightarrow>
            bindE (json_at request ''requestId'') (\<lambda>rid.
            bindE (getMetaData L path (w_db w)) (\<lambda>st.
            let result = json_build [(''action'', JStr ''getMetaData''), (''requestId'', rid), (''ts'', JStr (stamp E))]
            in if json_size st = 0 then
                 Inr (json_set result ''error'' (error_object ''404'' ''Path not found''
                   (''In database no metadata found for path '' @ getVSSPath path)))
               else Inr (json_set result ''metadata'' st))))"

definition processUpdateMetaData :: "'a lib_scheme \<Rightarrow> env \<Rightarrow> KuksaChannel \<Rightarrow> json \<Rightarrow> world \<Rightarrow> (exn + json) \<times> world" where
  "processUpdateMetaData L E channel request w =
     (case req_string L request ''path'' of
        Inl e \<Rightarrow> (Inl e, w)
      | Inr p \<Rightarrow>
          let path = fromVSS L p
          in case reject_request L E (validateUpdateMetadata L request) request ''updateMetaData'' ''updateMetaData'' of
               Some answer \<Rightarrow> (answer, w)
             | None \<Rightarrow>
                 (case update_answer E request ''updateMetaData'' of
                    Inl e \<Rightarrow> (Inl e, w)
                  | Inr answer \<Rightarrow>
                      (case (case json_at request ''metadata'' of
                               Inl e \<Rightarrow> (Inl e, w_db w)
                             | Inr metadata \<Rightarrow> updateMetaData L channel path metadata (w_db w)) of
                         (Inl e, db') \<Rightarrow> (update_error L E request ''updateMetaData'' answer e, w\<lparr>w_db := db'\<rparr>)
                       | (Inr _, db') \<Rightarrow> (Inr answer, w\<lparr>w_db := db'\<rparr>))))"

section \<open>authorize, and the dispatcher\<close>

definition processAuthorize :: "'a lib_scheme \<Rightarrow> env \<Rightarrow> KuksaChannel \<Rightarrow> string \<Rightarrow> string \<Rightarrow> world \<Rightarrow> (exn + json) \<times> KuksaChannel" where
  "processAuthorize L E channel request_id token w =
     (case validate L (w_auth w) channel token of
        (Inl e, channel') \<Rightarrow> (Inl e, channel')
      | (Inr ttl, channel') \<Rightarrow>
          (Inr (if ttl = -1 then
                  json_build [(''action'', JStr ''authorize''), (''requestId'', JStr request_id),
                    (''error'', error_object ''401'' ''Invalid Token'' ''Check the JWT token passed''), (''ts'', JStr (stamp E))]
                else
                  json_build [(''action'', JStr ''authorize''), (''requestId'', JStr request_id),
                    (''TTL'', JInt ttl), (''ts'', JStr (stamp E))]), channel'))"

definition processAction :: "'a lib_scheme \<Rightarrow> env \<Rightarrow> string \<Rightarrow> json \<Rightarrow> KuksaChannel \<Rightarrow> world \<Rightarrow> (exn + json) \<times> KuksaChannel \<times> world" where
  "processAction L E act req channel w =
     (if act = ''get'' then (case processGet L E channel req w of (r, w') \<Rightarrow> (r, channel, w'))
      else if act = ''set'' then (case processSet L E channel req w of (r, w') \<Rightarrow> (r, channel, w'))
      else if act = ''getMetaData'' then (processGetMetaData L E req w, channel, w)
      else if act = ''updateMetaData'' then (case processUpdateMetaData L E channel req w of (r, w') \<Rightarrow> (r, channel, w'))
      else if act = ''authorize'' then
        (case bindE (req_string L req ''tokens'') (\<lambda>t. bindE (req_string L req ''requestId'') (\<lambda>rid. Inr (t, rid))) of
           Inl e \<Rightarrow> (Inl e, channel, w)
         | Inr (token, request_id) \<Rightarrow>
             (case processAuthorize L E channel request_id token w of (r, channel') \<Rightarrow> (r, channel', w)))
      else if act = ''unsubscribe'' then (case processUnsubscribe L E channel req w of (r, w') \<Rightarrow> (r, channel, w'))
      else if act = ''subscribe'' then (case processSubscribe L E channel req w of (r, w') \<Rightarrow> (r, channel, w'))
      else if act = ''updateVSSTree'' then (case processUpdateVSSTree L E channel req w of (r, w') \<Rightarrow> (r, channel, w'))
      else (bindE (tryExtractRequestId L req) (\<lambda>rid. Inr (malFormedMessage (stamp E) ''Unknown action requested'' rid)), channel, w))"

definition processQuery :: "'a lib_scheme \<Rightarrow> env \<Rightarrow> string \<Rightarrow> KuksaChannel \<Rightarrow> world \<Rightarrow> (exn + json) \<times> KuksaChannel \<times> world" where
  "processQuery L E req_json channel w =
     (case (case bindE (j_parse L req_json) (\<lambda>req. bindE (req_string L req ''action'') (\<lambda>act. Inr (req, act))) of
              Inl e \<Rightarrow> (Inl e, channel, w)
            | Inr (req, act) \<Rightarrow> processAction L E act req channel w) of
        (Inl e, channel', w') \<Rightarrow>
          (if is_request_error e then Inr (malFormedMessage (stamp E) (what L e) ''UNKNOWN'') else Inl e, channel', w')
      | (Inr answer, channel', w') \<Rightarrow> (Inr answer, channel', w'))"

end
