(* ===== verification/CommandLaws.thy ===== *)
theory CommandLaws
  imports CommandProcessor
begin

text \<open>
  What requests can and cannot do: the permissions that guard each change and each answer, the frame
  of every request, and the identifiers in the answers.
\<close>

section \<open>Frames of the database calls\<close>

lemma setSignal_frame:
  assumes "setSignal L clock path attr v db sh = (r, v', db', sh')"
  shows "meta_tree db' = meta_tree db" "subscriptions sh' = subscriptions sh"
  using assms
  by (auto simp: setSignal_def Let_def split: sum.splits if_splits prod.splits
      dest: publish_buffer(3) publish_error_buffer)

lemma database_setSignal_frame:
  assumes "database_setSignal L E path attr v w = (r, w')"
  shows "meta_tree (w_db w') = meta_tree (w_db w)" "subscriptions (w_sub w') = subscriptions (w_sub w)"
    "w_auth w' = w_auth w"
  using assms
  by (auto simp: database_setSignal_def rec_setSignal_def Let_def split: option.splits prod.splits dest: setSignal_frame)

lemma database_getSignal_frame:
  "database_getSignal L path attr b w = (r, w') \<Longrightarrow> w_db w' = w_db w \<and> w_sub w' = w_sub w \<and> w_auth w' = w_auth w"
  by (auto simp: database_getSignal_def rec_getSignal_def Let_def split: option.splits)

lemma get_loop_frame:
  "get_loop L E c req rid ps path attr vs dps w = (r, w') \<Longrightarrow>
   w_db w' = w_db w \<and> w_sub w' = w_sub w \<and> w_auth w' = w_auth w"
proof (induction vs arbitrary: dps w)
  case (Cons v vs)
  from Cons.prems show ?case
    by (auto split: sum.splits if_splits prod.splits dest!: database_getSignal_frame Cons.IH)
qed simp

lemma processGet_frame:
  "processGet L E c req w = (r, w') \<Longrightarrow> w_db w' = w_db w \<and> w_sub w' = w_sub w \<and> w_auth w' = w_auth w"
  by (auto simp: processGet_def Let_def split: sum.splits option.splits prod.splits if_splits dest!: get_loop_frame)

section \<open>Reading is guarded\<close>

lemma get_loop_readable:
  "get_loop L E c req rid ps path attr vs dps w = (Inr (Inr out), w') \<Longrightarrow>
   (\<forall>v \<in> set vs. checkReadAccess L c v = Inr True) \<and> length out = length dps + length vs"
proof (induction vs arbitrary: dps w)
  case (Cons v vs)
  from Cons.prems show ?case
    by (auto simp: bindE_Inr_conv split: sum.splits if_splits prod.splits dest!: Cons.IH)
qed simp

lemma get_loop_denied:
  "get_loop L E c req rid ps path attr vs dps w = (Inr (Inl answer), w') \<Longrightarrow> json_lookup answer ''data'' = None"
proof (induction vs arbitrary: dps w)
  case (Cons v vs)
  from Cons.prems show ?case
    by (auto simp: bindE_Inr_conv response_defs json_lookup_set split: sum.splits if_splits prod.splits dest!: Cons.IH)
qed simp

lemma reject_no_data:
  "reject_request L E v req a a' = Some (Inr j) \<Longrightarrow> json_lookup j ''data'' = None"
  by (auto simp: reject_request_def bindE_Inr_conv response_defs json_lookup_set split: sum.splits if_splits)

lemma processGet_data:
  assumes "processGet L E c req w = (Inr j, w')" "json_lookup j ''data'' = Some d"
  shows "\<exists>p vs. req_string L req ''path'' = Inr p \<and> getLeafPaths L (w_db w) (fromVSS L p) = Inr vs \<and> vs \<noteq> []
    \<and> (\<forall>v \<in> set vs. checkReadAccess L c v = Inr True)"
  using assms
  by (auto simp: processGet_def Let_def response_defs json_lookup_set bindE_Inr_conv
      split: sum.splits option.splits prod.splits if_splits
      dest: reject_no_data get_loop_denied get_loop_readable)

section \<open>Writing is guarded\<close>

lemma set_checks_pass:
  "set_checks L E c req attr path db = Inr None \<Longrightarrow>
   pathExists L db path = Inr True \<and> checkWriteAccess L c path = Inr True
   \<and> pathIsWritable L db path = Inr True \<and> pathIsAttributable L db path attr = Inr True"
  by (auto simp: set_checks_def bindE_Inr_conv split: if_splits)

lemma processSet_guard:
  assumes "processSet L E c req w = (r, w')" "w' \<noteq> w"
  shows "\<exists>p. req_string L req ''path'' = Inr p \<and> validateSet L req = Inr ()
    \<and> checkWriteAccess L c (fromVSS L p) = Inr True \<and> pathIsWritable L (w_db w) (fromVSS L p) = Inr True
    \<and> pathIsAttributable L (w_db w) (fromVSS L p) (req_attribute L req) = Inr True"
proof -
  have valid: "reject_request L E (validateSet L req) req a b = None \<Longrightarrow> validateSet L req = Inr ()" for a b
    by (auto simp: reject_request_def split: sum.splits)
  show ?thesis
    using assms
    by (auto simp: processSet_def Let_def bindE_Inr_conv split: sum.splits option.splits prod.splits
        dest!: valid dest: set_checks_pass)
qed

lemma set_loop_frame:
  "set_loop L E attr pairs w = (r, w') \<Longrightarrow>
   meta_tree (w_db w') = meta_tree (w_db w) \<and> subscriptions (w_sub w') = subscriptions (w_sub w) \<and> w_auth w' = w_auth w"
  by (induction L E attr pairs w arbitrary: r w' rule: set_loop.induct)
    (auto split: prod.splits sum.splits dest: database_setSignal_frame)

lemma processSet_frame:
  "processSet L E c req w = (r, w') \<Longrightarrow>
   meta_tree (w_db w') = meta_tree (w_db w) \<and> subscriptions (w_sub w') = subscriptions (w_sub w) \<and> w_auth w' = w_auth w"
  by (auto simp: processSet_def Let_def simp del: set_loop.simps split: sum.splits option.splits prod.splits dest!: set_loop_frame)

section \<open>Subscriptions\<close>

lemma processSubscribe_effect:
  assumes "processSubscribe L E c req w = (r, w')"
  shows "w_db w' = w_db w" "w_auth w' = w_auth w" "w_rec w' = w_rec w"
    "w_sub w' = w_sub w \<or> (\<exists>p. req_string L req ''path'' = Inr p
        \<and> subscribe L (env_uuid E) c (w_db w) p (req_attribute L req) (w_sub w) = (Inr (env_uuid E), w_sub w'))"
  using assms
  by (auto simp: processSubscribe_def bindE_Inr_conv split: sum.splits option.splits prod.splits
      dest: subscribe_cases subscribe_subscriber(1))

lemma processUnsubscribe_effect:
  assumes "processUnsubscribe L E c req w = (r, w')"
  shows "w_db w' = w_db w" "w_auth w' = w_auth w" "w_rec w' = w_rec w"
    "w_sub w' = w_sub w \<or> (\<exists>u res. unsubscribe u (w_sub w) = (res, w_sub w'))"
  using assms
  by (auto simp: processUnsubscribe_def bindE_Inr_conv split: sum.splits option.splits prod.splits)

section \<open>Updates\<close>

lemma update_guarded:
  assumes "\<not> authorizedToModifyTree c"
  shows "updateJsonTree L c j db = (r, db') \<Longrightarrow> db' = db" "updateMetaData L c path j db = (r, db') \<Longrightarrow> db' = db"
  using assms by (auto simp: updateJsonTree_def updateMetaData_def)

lemma processUpdate_frame:
  "processUpdateVSSTree L E c req w = (r, w') \<Longrightarrow> w_sub w' = w_sub w \<and> w_auth w' = w_auth w \<and> w_rec w' = w_rec w"
  "processUpdateMetaData L E c req w = (r, w') \<Longrightarrow> w_sub w' = w_sub w \<and> w_auth w' = w_auth w \<and> w_rec w' = w_rec w"
  by (auto simp: processUpdateVSSTree_def processUpdateMetaData_def Let_def split: sum.splits option.splits prod.splits)

lemma processUpdate_guard:
  assumes "\<not> authorizedToModifyTree c"
  shows "processUpdateVSSTree L E c req w = (r, w') \<Longrightarrow> w' = w" "processUpdateMetaData L E c req w = (r, w') \<Longrightarrow> w' = w"
  by (auto simp: processUpdateVSSTree_def processUpdateMetaData_def Let_def
      split: sum.splits option.splits prod.splits dest!: update_guarded[OF assms])

section \<open>A whole set request\<close>

text \<open>A request the schema of \<open>set\<close> accepts, and its parts.\<close>

definition set_request :: "json \<Rightarrow> string \<Rightarrow> string \<Rightarrow> string \<Rightarrow> json \<Rightarrow> bool" where
  "set_request req rid p attr v \<longleftrightarrow>
     json_lookup req ''action'' = Some (JStr ''set'') \<and> json_lookup req ''path'' = Some (JStr p)
   \<and> json_lookup req ''requestId'' = Some (JStr rid) \<and> signal_attr attr
   \<and> (json_lookup req ''attribute'' = Some (JStr attr) \<or> json_lookup req ''attribute'' = None \<and> attr = ''value'')
   \<and> json_lookup req attr = Some v"

lemma set_request_parts:
  assumes "set_request req rid p attr v" "schema_doc L"
  shows "validateSet L req = Inr ()" "req_string L req ''path'' = Inr p" "req_string L req ''requestId'' = Inr rid"
    "req_attribute L req = attr" "json_at req attr = Inr v" "json_at req ''requestId'' = Inr (JStr rid)"
proof -
  have obj: "is_object req" using assms(1) by (auto simp: set_request_def intro: lookup_is_object)
  have "conforms vss_resolver SCHEMA_SET req"
    using assms(1) obj
    by (auto simp: conforms_set set_request_def action_in_def has_string_def attribute_ok_def signal_attr_def)
  then show "validateSet L req = Inr ()"
    using validate_message_iff(1)[OF assms(2)] by (simp add: validateSet_def)
  show "req_string L req ''path'' = Inr p" "req_string L req ''requestId'' = Inr rid"
    "json_at req attr = Inr v" "json_at req ''requestId'' = Inr (JStr rid)"
    using assms(1) by (simp_all add: set_request_def req_string_def json_at_lookup)
  show "req_attribute L req = attr"
    using assms(1) by (auto simp: set_request_def req_attribute_def)
qed

text \<open>A signal the database has at a path: one node, a sensor or actuator with a datatype.\<close>

definition settable :: "'a lib_scheme \<Rightarrow> VssDatabase \<Rightarrow> string \<Rightarrow> string \<Rightarrow> seg list \<Rightarrow> json \<Rightarrow> string \<Rightarrow> bool" where
  "settable L db p attr ss node dt \<longleftrightarrow>
     denotes (fromVSS L p) ss \<and> path_nodes ss (data_tree db) = [(ss, node)]
   \<and> json_lookup node ''datatype'' = Some (JStr dt)
   \<and> (json_lookup node ''type'' = Some (JStr ''actuator'')
      \<or> json_lookup node ''type'' = Some (JStr ''sensor'') \<and> attr = ''value'')"

lemma set_checks_settable:
  assumes "jsonpath_doc L" "settable L db p attr ss node dt" "signal_attr attr"
    "checkWriteAccess L c (fromVSS L p) = Inr True"
  shows "set_checks L E c req attr (fromVSS L p) db = Inr None"
proof -
  from assms(2) have den: "denotes (fromVSS L p) ss" and node: "path_nodes ss (data_tree db) = [(ss, node)]"
    by (simp_all add: settable_def)
  have ty: "type_text_is L node ''sensor'' \<or> type_text_is L node ''actuator''"
      "attr = ''value'' \<or> attr = ''targetValue'' \<and> type_text_is L node ''actuator''"
    using assms(2,3) by (auto simp: settable_def type_text_is_def signal_attr_def)
  show ?thesis
    using ty assms(4) pathIsAttributable_single[OF assms(1) den node, of attr]
    by (auto simp: set_checks_def pathExists_iff[OF assms(1) den] pathIsWritable_iff[OF assms(1) den] node)
qed

lemma set_checks_denied:
  assumes "jsonpath_doc L" "denotes (fromVSS L p) ss" "path_nodes ss (data_tree db) \<noteq> []"
    "checkWriteAccess L c (fromVSS L p) = Inr False" "req_string L req ''requestId'' = Inr rid"
  shows "set_checks L E c req attr (fromVSS L p) db
    = Inr (Some (noAccess (stamp E) rid ''set'' (''No write access to '' @ to_string (fromVSS L p))))"
  using assms by (simp add: set_checks_def pathExists_iff[OF assms(1,2)])

lemma database_setSignal_stores:
  assumes L: "jsonpath_doc L" and sig: "settable L (w_db w) p attr ss node dt" and attr: "signal_attr attr"
    and check: "checkAndSanitizeType L node v = Inr v'" and pubs: "publishers_ok L (publishers (w_sub w))"
  shows "\<exists>w'. database_setSignal L E (fromVSS L p) attr v w = (Inr (data_point (fromVSS L p) (env_clock E) attr v'), w')
    \<and> w_db w' = (w_db w)\<lparr>data_tree := path_replace ss (stored (env_clock E) attr v' node) (data_tree (w_db w))\<rparr>
    \<and> buffer (w_sub w') = buffer (w_sub w) @ map (\<lambda>(sid, c). (sid, c, dt, data_point (fromVSS L p) (env_clock E) attr v'))
        (subs_for (w_sub w) (getVSSPath (fromVSS L p), attr))"
proof -
  from sig have node: "denotes (fromVSS L p) ss" "path_nodes ss (data_tree (w_db w)) = [(ss, node)]"
      "json_lookup node ''datatype'' = Some (JStr dt)" by (simp_all add: settable_def)
  from setSignal_stores[OF L node attr check pubs, of "env_clock E"] show ?thesis
    by (auto simp: database_setSignal_def rec_setSignal_def Let_def split: option.splits)
qed

lemma processSet_success:
  assumes L: "jsonpath_doc L" "schema_doc L" and req: "set_request req rid p attr v"
    and sig: "settable L (w_db w) p attr ss node dt" and acc: "checkWriteAccess L c (fromVSS L p) = Inr True"
    and check: "checkAndSanitizeType L node v = Inr v'" and pubs: "publishers_ok L (publishers (w_sub w))"
  shows "\<exists>w'. processSet L E c req w =
      (Inr (json_build [(''action'', JStr ''set''), (''requestId'', JStr rid), (''ts'', JStr (stamp E))]), w')
    \<and> w_db w' = (w_db w)\<lparr>data_tree := path_replace ss (stored (env_clock E) attr v' node) (data_tree (w_db w))\<rparr>
    \<and> buffer (w_sub w') = buffer (w_sub w) @ map (\<lambda>(sid, c). (sid, c, dt, data_point (fromVSS L p) (env_clock E) attr v'))
        (subs_for (w_sub w) (getVSSPath (fromVSS L p), attr))"
proof -
  note parts = set_request_parts[OF req L(2)]
  have attr: "signal_attr attr" using req by (simp add: set_request_def)
  have "set_checks L E c req attr (fromVSS L p) (w_db w) = Inr None"
    by (rule set_checks_settable[OF L(1) sig attr acc])
  with database_setSignal_stores[OF L(1) sig attr check pubs, of E] parts show ?thesis
    by (auto simp: processSet_def reject_request_def)
qed

text \<open>A value the type does not admit is answered with an error and changes nothing.\<close>

lemma processSet_out_of_bound:
  assumes L: "jsonpath_doc L" "schema_doc L" and req: "set_request req rid p attr v"
    and sig: "settable L (w_db w) p attr ss node dt" and acc: "checkWriteAccess L c (fromVSS L p) = Inr True"
    and check: "checkAndSanitizeType L node v = Inl (OutOfBound m)"
  shows "\<exists>w'. processSet L E c req w = (Inr (valueOutOfBounds (stamp E) rid ''set'' m), w') \<and> w_db w' = w_db w \<and> w_sub w' = w_sub w"
proof -
  note parts = set_request_parts[OF req L(2)]
  have attr: "signal_attr attr" using req by (simp add: set_request_def)
  have checks: "set_checks L E c req attr (fromVSS L p) (w_db w) = Inr None"
    by (rule set_checks_settable[OF L(1) sig attr acc])
  from sig have node: "denotes (fromVSS L p) ss" "path_nodes ss (data_tree (w_db w)) = [(ss, node)]"
      "json_lookup node ''datatype'' = Some (JStr dt)" by (simp_all add: settable_def)
  from setSignal_refused[OF L(1) node check, of "env_clock E" attr]
  have "\<exists>w'. database_setSignal L E (fromVSS L p) attr v w = (Inl (OutOfBound m), w') \<and> w_db w' = w_db w \<and> w_sub w' = w_sub w"
    by (auto simp: database_setSignal_def rec_setSignal_def Let_def split: option.splits)
  with parts checks show ?thesis
    by (auto simp: processSet_def reject_request_def set_error_def)
qed

lemma processSet_denied:
  assumes L: "jsonpath_doc L" "schema_doc L" and req: "set_request req rid p attr v"
    and path: "denotes (fromVSS L p) ss" "path_nodes ss (data_tree (w_db w)) \<noteq> []"
    and acc: "checkWriteAccess L c (fromVSS L p) = Inr False"
  shows "processSet L E c req w =
    (Inr (noAccess (stamp E) rid ''set'' (''No write access to '' @ to_string (fromVSS L p))), w)"
proof -
  note parts = set_request_parts[OF req L(2)]
  from set_checks_denied[OF L(1) path acc parts(3), of E attr] parts show ?thesis
    by (simp add: processSet_def reject_request_def)
qed

section \<open>A whole get request\<close>

definition get_request :: "json \<Rightarrow> string \<Rightarrow> string \<Rightarrow> string \<Rightarrow> bool" where
  "get_request req rid p attr \<longleftrightarrow>
     json_lookup req ''action'' = Some (JStr ''get'') \<and> json_lookup req ''path'' = Some (JStr p)
   \<and> json_lookup req ''requestId'' = Some (JStr rid) \<and> signal_attr attr
   \<and> (json_lookup req ''attribute'' = Some (JStr attr) \<or> json_lookup req ''attribute'' = None \<and> attr = ''value'')"

lemma get_request_parts:
  assumes "get_request req rid p attr" "schema_doc L"
  shows "validateGet L req = Inr ()" "req_string L req ''path'' = Inr p" "req_string L req ''requestId'' = Inr rid"
    "req_attribute L req = attr"
proof -
  have obj: "is_object req" using assms(1) by (auto simp: get_request_def intro: lookup_is_object)
  have "conforms vss_resolver SCHEMA_GET req"
    using assms(1) obj
    by (auto simp: conforms_get get_request_def action_in_def has_string_def attribute_ok_def signal_attr_def)
  then show "validateGet L req = Inr ()"
    using validate_message_iff(1)[OF assms(2)] by (simp add: validateGet_def)
  show "req_string L req ''path'' = Inr p" "req_string L req ''requestId'' = Inr rid"
    using assms(1) by (simp_all add: get_request_def req_string_def json_at_lookup)
  show "req_attribute L req = attr"
    using assms(1) by (auto simp: get_request_def req_attribute_def)
qed

lemma get_loop_reads:
  assumes "pathIsAttributable L (w_db w) path attr = Inr True" "w_rec w = None"
  shows "\<forall>v \<in> set vs. checkReadAccess L c v = Inr True \<Longrightarrow>
    map (\<lambda>v. getSignal L v attr (getType c \<noteq> GRPC) (w_db w)) vs = map Inr out \<Longrightarrow>
    get_loop L E c req rid ps path attr vs dps w = (Inr (Inr (dps @ out)), w)"
proof (induction vs arbitrary: dps out)
  case (Cons v vs)
  then obtain d ds where out: "out = d # ds" "getSignal L v attr (getType c \<noteq> GRPC) (w_db w) = Inr d"
      "map (\<lambda>v. getSignal L v attr (getType c \<noteq> GRPC) (w_db w)) vs = map Inr ds"
    by (cases out) auto
  with Cons.IH[of ds "dps @ [d]"] Cons.prems(1) assms show ?case
    by (simp add: database_getSignal_def)
qed simp

lemma processGet_success:
  assumes "schema_doc L" "get_request req rid p attr" and leaves: "getLeafPaths L (w_db w) (fromVSS L p) = Inr vs" "vs \<noteq> []"
    and readable: "\<forall>v \<in> set vs. checkReadAccess L c v = Inr True"
    and attr: "pathIsAttributable L (w_db w) (fromVSS L p) attr = Inr True" and plain: "w_rec w = None"
    and points: "map (\<lambda>v. getSignal L v attr (getType c \<noteq> GRPC) (w_db w)) vs = map Inr out"
  shows "processGet L E c req w = (Inr (json_build [(''data'', if length vs = 1 then hd out else JArr out),
    (''action'', JStr ''get''), (''requestId'', JStr rid), (''ts'', JStr (stamp E))]), w)"
proof -
  note parts = get_request_parts[OF assms(2,1)]
  have len: "length out = length vs" using points by (metis length_map)
  have one: "elem_at out 0 = Inr (hd out)" if "length vs = 1"
    using that len by (cases out) (auto simp: elem_at_def)
  show ?thesis
    using get_loop_reads[OF attr plain readable points, of E req rid p "[]"] parts leaves one
    by (auto simp: processGet_def reject_request_def Suc_le_eq)
qed

section \<open>The dispatcher\<close>

lemma processQuery_unfold:
  assumes "j_parse L text = Inr req" "json_lookup req ''action'' = Some (JStr act)"
  shows "processQuery L E text c w =
    (case processAction L E act req c w of
       (Inl e, c', w') \<Rightarrow> (if is_request_error e then Inr (malFormedMessage (stamp E) (what L e) ''UNKNOWN'') else Inl e, c', w')
     | (Inr answer, c', w') \<Rightarrow> (Inr answer, c', w'))"
  using assms by (simp add: processQuery_def req_string_def json_at_lookup)

text \<open>Only \<open>authorize\<close> touches the channel; no request replaces the key of the authenticator.\<close>

lemma processAction_frame:
  assumes "processAction L E act req c w = (r, c', w')"
  shows "act \<noteq> ''authorize'' \<Longrightarrow> c' = c" "w_auth w' = w_auth w"
  using assms
  by (auto simp: processAction_def split: if_splits prod.splits sum.splits
      dest: processGet_frame processSet_frame processUpdate_frame processSubscribe_effect(2) processUnsubscribe_effect(2))

lemma processAction_subs_wf:
  assumes "processAction L E act req c w = (r, c', w')" "subs_wf (w_sub w)"
  shows "subs_wf (w_sub w')"
proof -
  have eq: "subscriptions sh' = subscriptions (w_sub w) \<Longrightarrow> subs_wf sh'" for sh'
    using assms(2) by (simp add: subs_wf_def)
  have sub: "processSubscribe L E c req w = (r, w') \<Longrightarrow> subs_wf (w_sub w')"
    using processSubscribe_effect(4)[of L E c req w r w'] subscribe_wf assms(2) by metis
  have unsub: "processUnsubscribe L E c req w = (r, w') \<Longrightarrow> subs_wf (w_sub w')"
    using processUnsubscribe_effect(4)[of L E c req w r w'] unsubscribe_wf assms(2) by metis
  show ?thesis
    using assms(1) sub unsub
    by (auto simp: processAction_def split: if_splits prod.splits sum.splits
        dest!: processGet_frame processSet_frame processUpdate_frame intro: eq)
qed

lemma processQuery_cases:
  assumes "processQuery L E text c w = (r, c', w')"
  shows "(c', w') = (c, w) \<or> (\<exists>req act r'. j_parse L text = Inr req \<and> processAction L E act req c w = (r', c', w')
    \<and> req_string L req ''action'' = Inr act)"
  using assms by (auto simp: processQuery_def bindE_Inr_conv split: sum.splits prod.splits if_splits)

text \<open>The exceptions that can leave the dispatcher.\<close>

lemma processQuery_escape: "processQuery L E text c w = (Inl e, c', w') \<Longrightarrow> \<not> is_request_error e"
  by (auto simp: processQuery_def split: sum.splits prod.splits if_splits)

end
