(* ===== verification/Samples.thy ===== *)
theory Samples
  imports Reference CommandLaws
begin

text \<open>
  A small vehicle, a client and the state of a server, with which the witnesses of the properties
  compute; the library is \<open>ref_lib\<close>.
\<close>

definition speed_node :: json where
  "speed_node = JObj [(''datatype'', JStr ''uint16''), (''max'', JInt 300), (''type'', JStr ''sensor'')]"

definition door_node :: json where
  "door_node = JObj [(''datatype'', JStr ''boolean''), (''type'', JStr ''actuator'')]"

definition vin_node :: json where
  "vin_node = JObj [(''datatype'', JStr ''string''), (''default'', JStr ''WBA''), (''description'', JStr ''Number''), (''type'', JStr ''attribute'')]"

definition sample_tree :: json where
  "sample_tree = JObj [(''Vehicle'', JObj [(''children'', JObj [
     (''Cabin'', JObj [(''children'', JObj [(''Door'', door_node)]), (''type'', JStr ''branch'')]),
     (''Speed'', speed_node), (''VIN'', vin_node)]), (''type'', JStr ''branch'')])]"

definition sample_db :: VssDatabase where
  "sample_db = \<lparr>data_tree = sample_tree, meta_tree = sample_tree\<rparr>"

definition sample_policy :: policy where
  "sample_policy = [(''Vehicle.*'', ''rw''), (''Vehicle.Cabin.Door'', ''r'')]"

definition sample_channel :: KuksaChannel where
  "sample_channel = (new_channel 7 WEBSOCKET_PLAIN)\<lparr>authorized := True,
     permissions := JStr (ref_dump (policy_json sample_policy))\<rparr>"

text \<open>A client whose token names a branch.\<close>

definition branch_channel :: KuksaChannel where
  "branch_channel = (new_channel 8 WEBSOCKET_PLAIN)\<lparr>authorized := True, permissions := JStr (ref_dump (policy_json [(''Vehicle'', ''rw'')]))\<rparr>"

definition sample_handler :: SubscriptionHandler where
  "sample_handler = new_SubscriptionHandler\<lparr>subscriptions := [((''Vehicle/Speed'', ''value''), [(5, sample_channel), (9, sample_channel)])]\<rparr>"

definition sample_world :: world where
  "sample_world = \<lparr>w_db = sample_db, w_sub = sample_handler, w_auth = new_Authenticator ''key'' ''RS256'', w_rec = None\<rparr>"

definition sample_env :: env where
  "sample_env = \<lparr>env_offset = 0, env_now = 1600000000, env_clock = (1600000000, 500000000), env_uuid = 3\<rparr>"

definition speed_segs :: "seg list" where
  "speed_segs = [Name ''Vehicle'', Name ''children'', Name ''Speed'']"

definition door_segs :: "seg list" where
  "door_segs = [Name ''Vehicle'', Name ''children'', Name ''Cabin'', Name ''children'', Name ''Door'']"

definition set_speed :: "json \<Rightarrow> json" where
  "set_speed v = json_build [(''action'', JStr ''set''), (''path'', JStr ''Vehicle.Speed''), (''requestId'', JStr ''r1''), (''value'', v)]"

lemma sample_request: "set_request (set_speed v) ''r1'' ''Vehicle.Speed'' ''value'' v"
  by (simp add: set_request_def set_speed_def json_build_lookup signal_attr_def)

lemma sample_settable: "settable ref_lib sample_db ''Vehicle.Speed'' ''value'' speed_segs speed_node ''uint16''"
  by code_simp

lemma sample_access:
  "checkWriteAccess ref_lib sample_channel (fromVSS ref_lib ''Vehicle.Speed'') = Inr True"
  "checkWriteAccess ref_lib sample_channel (fromVSS ref_lib ''Vehicle.Cabin.Door'') = Inr False"
  by code_simp+

lemma sample_check:
  "checkAndSanitizeType ref_lib speed_node (JInt 120) = Inr (JInt 120)"
  by code_simp

text \<open>Clients send numbers as text too; the sanitizer stores them as numbers.\<close>

lemma sample_check_text: "checkAndSanitizeType ref_lib speed_node (JStr ''120'') = Inr (JInt 120)"
  by code_simp

lemma sample_parse: "j_parse ref_lib (ref_dump (set_speed (JStr ''120''))) = Inr (set_speed (JStr ''120''))"
  by code_simp

lemma sample_publishers: "publishers_ok ref_lib (publishers sample_handler)"
  by (simp add: publishers_ok_def sample_handler_def new_SubscriptionHandler_def)

lemma sample_subs_wf: "subs_wf sample_handler"
  by (simp add: subs_wf_def sample_handler_def)

lemma sample_world_parts [simp]: "w_db sample_world = sample_db" "w_sub sample_world = sample_handler" "w_rec sample_world = None"
  by (simp_all add: sample_world_def)

section \<open>Requests on the samples\<close>

lemma sample_docs: "jsonpath_doc ref_lib" "schema_doc ref_lib"
  by simp_all

lemma sample_set:
  "\<exists>w'. processSet ref_lib sample_env sample_channel (set_speed (JStr ''120'')) sample_world =
      (Inr (json_build [(''action'', JStr ''set''), (''requestId'', JStr ''r1''), (''ts'', JStr (stamp sample_env))]), w')
    \<and> w_db w' = sample_db\<lparr>data_tree := path_replace speed_segs (stored (env_clock sample_env) ''value'' (JInt 120) speed_node) sample_tree\<rparr>"
proof -
  have "data_tree sample_db = sample_tree" by code_simp
  then show ?thesis
    using processSet_success[OF sample_docs sample_request, where w = sample_world,
        OF _ _ sample_check_text, unfolded sample_world_parts, OF sample_settable sample_access(1) sample_publishers, of sample_env]
    by auto
qed

lemma sample_action: "json_lookup (set_speed v) ''action'' = Some (JStr ''set'')"
  by (simp add: set_speed_def json_build_lookup)

lemma sample_query:
  obtains ans w' where "processQuery ref_lib sample_env (ref_dump (set_speed (JStr ''120''))) sample_channel sample_world = (Inr ans, sample_channel, w')"
    "w_db w' = sample_db\<lparr>data_tree := path_replace speed_segs (stored (env_clock sample_env) ''value'' (JInt 120) speed_node) sample_tree\<rparr>"
  using sample_set by (auto simp: processQuery_unfold[OF sample_parse sample_action] processAction_def)

definition vin_world :: world where
  "vin_world = sample_world\<lparr>w_db := sample_db\<lparr>data_tree := JObj [(''Vehicle'', JObj [(''children'', JObj [
     (''Speed'', speed_node), (''VIN'', json_set vin_node ''value'' (JStr ''WBA1''))]), (''type'', JStr ''branch'')])]\<rparr>\<rparr>"

definition get_vin :: json where
  "get_vin = json_build [(''action'', JStr ''get''), (''path'', JStr ''Vehicle.VIN''), (''requestId'', JStr ''r2'')]"

lemma get_vin_request: "get_request get_vin ''r2'' ''Vehicle.VIN'' ''value''"
  by (simp add: get_request_def get_vin_def json_build_lookup signal_attr_def)

definition vin_point :: json where
  "vin_point = json_build [(''path'', JStr ''Vehicle.VIN''),
     (''dp'', json_build [(''value'', JStr ''WBA1''), (''ts'', JStr getTimeStampZero)])]"

lemma vin_parts:
  "getLeafPaths ref_lib (w_db vin_world) (fromVSS ref_lib ''Vehicle.VIN'') = Inr [fromVSS ref_lib ''Vehicle.VIN'']"
  "checkReadAccess ref_lib sample_channel (fromVSS ref_lib ''Vehicle.VIN'') = Inr True"
  "pathIsAttributable ref_lib (w_db vin_world) (fromVSS ref_lib ''Vehicle.VIN'') ''value'' = Inr True"
  "w_rec vin_world = None" "getType sample_channel \<noteq> GRPC"
  "getSignal ref_lib (fromVSS ref_lib ''Vehicle.VIN'') ''value'' True (w_db vin_world) = Inr vin_point"
  by code_simp+

lemma sample_get:
  "processGet ref_lib sample_env sample_channel get_vin vin_world =
     (Inr (json_build [(''data'', vin_point), (''action'', JStr ''get''), (''requestId'', JStr ''r2''), (''ts'', JStr (stamp sample_env))]), vin_world)"
  using processGet_success[OF sample_docs(2) get_vin_request, of vin_world "[fromVSS ref_lib ''Vehicle.VIN'']" sample_channel "[vin_point]" sample_env]
    vin_parts by simp

text \<open>The two signals of the sample are a store.\<close>

lemma sample_db_ok: "db_ok ref_lib (7, 8) {speed_segs, door_segs} (sample_db, sample_handler)"
proof -
  have nodes: "path_nodes speed_segs (data_tree sample_db) = [(speed_segs, speed_node)]"
    "path_nodes door_segs (data_tree sample_db) = [(door_segs, door_node)]"
    "plain_path speed_segs" "plain_path door_segs" "apart speed_segs door_segs" "apart door_segs speed_segs"
    "clock_ok (7, 8)" "json_contains speed_node ''datatype''" "json_contains door_node ''datatype''"
    by code_simp+
  have "stamps_ok speed_node attr" "stamps_ok door_node attr" if "signal_attr attr" for attr
    using that by (auto simp: stamps_ok_def signal_attr_def speed_node_def door_node_def)
  with nodes show ?thesis
    by (simp add: db_ok_def node_at_def signal_node_def sample_publishers)
qed

section \<open>A token\<close>

definition sample_members :: "(string \<times> json) list" where
  "sample_members = [(''Vehicle.*'', JStr ''rw''), (''Vehicle.Cabin.Door'', JStr ''r'')]"

definition sample_payload :: "(string \<times> json) list" where
  "sample_payload = [(''exp'', JInt 99), (''kuksa-vss'', JObj sample_members)]"

definition sample_token :: string where
  "sample_token = ref_dump (JObj sample_payload)"

lemma sample_token_ttl:
  "fst (validate ref_lib (new_Authenticator ''key'' ''RS256'') (new_channel 7 WEBSOCKET_PLAIN) sample_token) = Inr 99"
  by code_simp

lemma sample_token_claims:
  "jwt_decode ref_lib sample_token = Inr sample_payload"
  "parse_claims ref_lib sample_payload json_new = Inr (JObj sample_payload)"
  "permission_members ref_lib (JObj sample_payload) = Inr sample_members"
  by code_simp+

end
