(* ===== verification/SubscriptionThreads.thy ===== *)
theory SubscriptionThreads
  imports SubscriptionLaws
begin

text \<open>
  The threads of \<open>src/SubscriptionHandler.cpp\<close>: threads of the server that publish, subscribe and
  unsubscribe, and the notification thread, under the two mutexes and the condition variable of the
  class. A step runs from one operation on a mutex or on the condition variable to the next; reads
  the source makes without a mutex (\<open>isThreadRunning\<close>, \<open>buffer.size()\<close>) are steps of their own.
  \<open>pushed\<close> and \<open>taken_notes\<close> record what went through the buffer.
\<close>

section \<open>The state\<close>

datatype thread_id = Client nat | Notifier

text \<open>
  Where a thread of the server stands. \<open>PubNext\<close> and \<open>PubPush\<close> are inside the loop of
  \<open>publishForVSSPath\<close>, with the subscribers still to be notified.
\<close>

datatype client_pc =
    Idle
  | PubStart VSSPath string string json
  | PubLock VSSPath string string json
  | PubNext subscriptions_t string json
  | PubPush uuid KuksaChannel subscriptions_t string json
  | SubAdd sub_key uuid KuksaChannel
  | UnsubId uuid
  | UnsubAll KuksaChannel
  | StartSpawn
  | StartFlag
  | StopCheck
  | StopNotify
  | StopJoin

datatype notifier_pc =
    NNone | NLoop | NCheck | NTake | NSend notification | NUnsub KuksaChannel
  | NWait | NWaiting | NWoken | NDone | NAborted

definition is_waiting :: "notifier_pc \<Rightarrow> bool" where
  "is_waiting pc = (case pc of NWaiting \<Rightarrow> True | _ \<Rightarrow> False)"

definition is_done :: "notifier_pc \<Rightarrow> bool" where
  "is_done pc = (case pc of NDone \<Rightarrow> True | _ \<Rightarrow> False)"

definition is_aborted :: "notifier_pc \<Rightarrow> bool" where
  "is_aborted pc = (case pc of NAborted \<Rightarrow> True | _ \<Rightarrow> False)"

lemma notifier_tests [simp]:
  "is_waiting pc \<longleftrightarrow> pc = NWaiting" "is_done pc \<longleftrightarrow> pc = NDone" "is_aborted pc \<longleftrightarrow> pc = NAborted"
  by (simp_all add: is_waiting_def is_done_def is_aborted_def split: notifier_pc.split)

record 'p sub_sys =
  handler :: SubscriptionHandler
  access_owner :: "thread_id option"
  sub_owner :: "thread_id option"
  clients :: "nat \<Rightarrow> client_pc"
  notifier :: notifier_pc
  ws_server :: "'p WsServer"
  grpc_side :: grpc_world
  pushed :: "notification list"
  taken_notes :: "notification list"

definition set_pc :: "nat \<Rightarrow> client_pc \<Rightarrow> 'p sub_sys \<Rightarrow> 'p sub_sys" where
  "set_pc i pc s = s\<lparr>clients := (clients s)(i := pc)\<rparr>"

text \<open>\<open>c.notify_one()\<close>: a thread that waits is woken, otherwise nothing happens.\<close>

definition notify_one :: "'p sub_sys \<Rightarrow> 'p sub_sys" where
  "notify_one s = (if is_waiting (notifier s) then s\<lparr>notifier := NWoken\<rparr> else s)"

section \<open>The steps of a thread\<close>

text \<open>\<open>None\<close>: the thread cannot go on, because it has nothing to do or waits for a mutex.\<close>

definition with_access :: "('p sub_sys \<Rightarrow> 'p sub_sys) \<Rightarrow> 'p sub_sys \<Rightarrow> 'p sub_sys option" where
  "with_access body s = (if access_owner s = None then Some (body s) else None)"

definition with_sub :: "('p sub_sys \<Rightarrow> 'p sub_sys) \<Rightarrow> 'p sub_sys \<Rightarrow> 'p sub_sys option" where
  "with_sub body s = (if sub_owner s = None then Some (body s) else None)"

text \<open>
  \<open>publishForVSSPath\<close> notifies the publishers without a mutex, then takes \<open>accessMutex\<close> until it
  returns; each subscriber is put into the buffer under \<open>subMutex\<close>.
\<close>

definition publish_start :: "'a lib_scheme \<Rightarrow> nat \<Rightarrow> VSSPath \<Rightarrow> string \<Rightarrow> string \<Rightarrow> json \<Rightarrow> 'p sub_sys \<Rightarrow> 'p sub_sys" where
  "publish_start L i path dt attr data s =
     (case bindE (json_at data ''dp'') (\<lambda>dp. json_at dp attr) of
        Inl e \<Rightarrow> set_pc i Idle s
      | Inr v \<Rightarrow>
          (case publish_mqtt L (getVSSPath path) v (publishers (handler s)) of
             (r, ps) \<Rightarrow> set_pc i (if isl r then Idle else PubLock path dt attr data)
                          (s\<lparr>handler := (handler s)\<lparr>publishers := ps\<rparr>\<rparr>)))"

definition publish_lock :: "nat \<Rightarrow> VSSPath \<Rightarrow> string \<Rightarrow> string \<Rightarrow> json \<Rightarrow> 'p sub_sys \<Rightarrow> 'p sub_sys option" where
  "publish_lock i path dt attr data =
     with_access (\<lambda>s. case map_of (subscriptions (handler s)) (getVSSPath path, attr) of
         None \<Rightarrow> set_pc i Idle s
       | Some handle \<Rightarrow> set_pc i (PubNext handle dt data) (s\<lparr>access_owner := Some (Client i)\<rparr>))"

definition publish_push :: "nat \<Rightarrow> uuid \<Rightarrow> KuksaChannel \<Rightarrow> subscriptions_t \<Rightarrow> string \<Rightarrow> json \<Rightarrow> 'p sub_sys \<Rightarrow> 'p sub_sys" where
  "publish_push i subId channel rest dt data s =
     (let note = (subId, channel, dt, data)
      in set_pc i (PubNext rest dt data)
           ((notify_one (s\<lparr>handler := push_note note (handler s), pushed := pushed s @ [note]\<rparr>))\<lparr>sub_owner := None\<rparr>))"

fun client_step :: "'a lib_scheme \<Rightarrow> nat \<Rightarrow> client_pc \<Rightarrow> 'p sub_sys \<Rightarrow> 'p sub_sys option" where
  "client_step L i Idle s = None"
| "client_step L i (PubStart path dt attr data) s = Some (publish_start L i path dt attr data s)"
| "client_step L i (PubLock path dt attr data) s = publish_lock i path dt attr data s"
| "client_step L i (PubNext [] dt data) s = Some (set_pc i Idle (s\<lparr>access_owner := None\<rparr>))"
| "client_step L i (PubNext ((subId, c) # rest) dt data) s =
     with_sub (\<lambda>s. set_pc i (PubPush subId c rest dt data) (s\<lparr>sub_owner := Some (Client i)\<rparr>)) s"
| "client_step L i (PubPush subId c rest dt data) s = Some (publish_push i subId c rest dt data s)"
| "client_step L i (SubAdd key subId c) s =
     with_access (\<lambda>s. set_pc i Idle (s\<lparr>handler := add_subscription key subId c (handler s)\<rparr>)) s"
| "client_step L i (UnsubId subId) s =
     with_access (\<lambda>s. set_pc i Idle (s\<lparr>handler := snd (unsubscribe subId (handler s))\<rparr>)) s"
| "client_step L i (UnsubAll c) s =
     with_access (\<lambda>s. set_pc i Idle (s\<lparr>handler := unsubscribeAll c (handler s)\<rparr>)) s"
| "client_step L i StartSpawn s = Some (set_pc i StartFlag (s\<lparr>notifier := NLoop\<rparr>))"
| "client_step L i StartFlag s = Some (set_pc i Idle (s\<lparr>handler := startThread (handler s)\<rparr>))"
| "client_step L i StopCheck s = Some (set_pc i (if isThreadRunning (handler s) then StopNotify else Idle) s)"
| "client_step L i StopNotify s =
     with_sub (\<lambda>s. set_pc i StopJoin (notify_one (s\<lparr>handler := (handler s)\<lparr>threadRun := False\<rparr>\<rparr>))) s"
| "client_step L i StopJoin s = (if is_done (notifier s) then Some (set_pc i Idle s) else None)"

text \<open>
  The notification thread. It keeps \<open>subMutex\<close> while it sends; where the connection is gone it calls
  \<open>unsubscribeAll\<close> with the mutex still held. An exception that leaves the thread ends the program.
\<close>

definition note_take :: "'p sub_sys \<Rightarrow> 'p sub_sys" where
  "note_take s = (case buffer (handler s) of
     [] \<Rightarrow> s\<lparr>notifier := NAborted\<rparr>
   | note # _ \<Rightarrow> s\<lparr>sub_owner := Some Notifier, notifier := NSend note, handler := pop_note (handler s),
                   taken_notes := taken_notes s @ [note]\<rparr>)"

definition note_send :: "'a lib_scheme \<Rightarrow> notification \<Rightarrow> 'p sub_sys \<Rightarrow> 'p sub_sys" where
  "note_send L note s = (case send_note L note (ws_server s) (grpc_side s) of
     (r, srv', gw') \<Rightarrow>
       (let s' = s\<lparr>ws_server := srv', grpc_side := gw'\<rparr>
        in case r of
             Inl e \<Rightarrow> s'\<lparr>notifier := NAborted, sub_owner := None\<rparr>
           | Inr connectionexist \<Rightarrow>
               if connectionexist then s'\<lparr>notifier := NLoop, sub_owner := None\<rparr>
               else s'\<lparr>notifier := NUnsub (fst (snd note))\<rparr>))"

fun notifier_step :: "'a lib_scheme \<Rightarrow> notifier_pc \<Rightarrow> 'p sub_sys \<Rightarrow> 'p sub_sys option" where
  "notifier_step L NNone s = None"
| "notifier_step L NLoop s = Some (s\<lparr>notifier := (if isThreadRunning (handler s) then NCheck else NDone)\<rparr>)"
| "notifier_step L NCheck s = Some (s\<lparr>notifier := (if length (buffer (handler s)) > 0 then NTake else NWait)\<rparr>)"
| "notifier_step L NTake s = with_sub note_take s"
| "notifier_step L (NSend note) s = Some (note_send L note s)"
| "notifier_step L (NUnsub c) s =
     with_access (\<lambda>s. s\<lparr>handler := unsubscribeAll c (handler s), sub_owner := None, notifier := NLoop\<rparr>) s"
| "notifier_step L NWait s = with_sub (\<lambda>s. s\<lparr>notifier := NWaiting\<rparr>) s"
| "notifier_step L NWaiting s = None"
| "notifier_step L NWoken s = with_sub (\<lambda>s. s\<lparr>notifier := NLoop\<rparr>) s"
| "notifier_step L NDone s = None"
| "notifier_step L NAborted s = None"

definition thread_step :: "'a lib_scheme \<Rightarrow> thread_id \<Rightarrow> 'p sub_sys \<Rightarrow> 'p sub_sys option" where
  "thread_step L t s =
     (if is_aborted (notifier s) then None
      else case t of Client i \<Rightarrow> client_step L i (clients s i) s | Notifier \<Rightarrow> notifier_step L (notifier s) s)"

section \<open>All interleavings\<close>

text \<open>The operations a thread of the server may begin.\<close>

definition entry_pc :: "client_pc \<Rightarrow> bool" where
  "entry_pc pc = (case pc of PubStart _ _ _ _ \<Rightarrow> True | SubAdd _ _ _ \<Rightarrow> True | UnsubId _ \<Rightarrow> True
     | UnsubAll _ \<Rightarrow> True | StopCheck \<Rightarrow> True | _ \<Rightarrow> False)"

text \<open>
  Besides the steps of the threads: the condition variable may wake its thread without a
  notification, and the connections and streams change on their own.
\<close>

inductive sys_step :: "'a lib_scheme \<Rightarrow> 'p sub_sys \<Rightarrow> 'p sub_sys \<Rightarrow> bool" for L where
  step: "thread_step L t s = Some s' \<Longrightarrow> sys_step L s s'"
| call: "clients s i = Idle \<Longrightarrow> entry_pc pc \<Longrightarrow> sys_step L s (set_pc i pc s)"
| spurious: "notifier s = NWaiting \<Longrightarrow> sys_step L s (s\<lparr>notifier := NWoken\<rparr>)"
| surroundings: "sys_step L s (s\<lparr>ws_server := srv, grpc_side := gw\<rparr>)"

inductive_cases sys_stepE: "sys_step L s s'"

text \<open>The constructor: \<open>threadRun\<close> has no initial value, and \<open>startThread\<close> is called.\<close>

definition sys_init :: "bool \<Rightarrow> 'p WsServer \<Rightarrow> grpc_world \<Rightarrow> 'p sub_sys" where
  "sys_init run srv gw =
     \<lparr>handler = new_SubscriptionHandler\<lparr>threadRun := run\<rparr>, access_owner = None, sub_owner = None,
      clients = (\<lambda>_. Idle)(0 := StartSpawn), notifier = NNone, ws_server = srv, grpc_side = gw,
      pushed = [], taken_notes = []\<rparr>"

inductive reachable :: "'a lib_scheme \<Rightarrow> 'p sub_sys \<Rightarrow> bool" for L where
  init: "reachable L (sys_init run srv gw)"
| next_state: "reachable L s \<Longrightarrow> sys_step L s s' \<Longrightarrow> reachable L s'"

text \<open>
  Schedules, to run the system: which thread goes on, or which operation a thread begins. An event
  that is not possible in a state leaves it as it is.
\<close>

datatype sched_event = Run thread_id | Call nat client_pc | Wakeup

fun event_step :: "'a lib_scheme \<Rightarrow> sched_event \<Rightarrow> 'p sub_sys \<Rightarrow> 'p sub_sys" where
  "event_step L (Run t) s = (case thread_step L t s of None \<Rightarrow> s | Some s' \<Rightarrow> s')"
| "event_step L (Call i pc) s = (case clients s i of Idle \<Rightarrow> if entry_pc pc then set_pc i pc s else s | _ \<Rightarrow> s)"
| "event_step L Wakeup s = (if is_waiting (notifier s) then s\<lparr>notifier := NWoken\<rparr> else s)"

definition run_events :: "'a lib_scheme \<Rightarrow> sched_event list \<Rightarrow> 'p sub_sys \<Rightarrow> 'p sub_sys" where
  "run_events L es s = fold (event_step L) es s"

end
