(* ===== verification/ThreadLaws.thy ===== *)
theory ThreadLaws
  imports SubscriptionThreads
begin

text \<open>
  What holds in every interleaving: the mutexes exclude, the buffer is a queue, and where the two
  threads can stop each other.
\<close>

section \<open>The invariant of the reachable states\<close>

fun publishing :: "client_pc \<Rightarrow> bool" where
  "publishing (PubNext _ _ _) = True"
| "publishing (PubPush _ _ _ _ _) = True"
| "publishing _ = False"

fun pushing :: "client_pc \<Rightarrow> bool" where
  "pushing (PubPush _ _ _ _ _) = True"
| "pushing _ = False"

fun sending :: "notifier_pc \<Rightarrow> bool" where
  "sending (NSend _) = True"
| "sending (NUnsub _) = True"
| "sending _ = False"

definition locks_inv :: "'p sub_sys \<Rightarrow> bool" where
  "locks_inv s \<longleftrightarrow> (\<forall>i. access_owner s = Some (Client i) \<longleftrightarrow> publishing (clients s i))
     \<and> access_owner s \<noteq> Some Notifier
     \<and> (\<forall>i. sub_owner s = Some (Client i) \<longleftrightarrow> pushing (clients s i))
     \<and> (sub_owner s = Some Notifier \<longleftrightarrow> sending (notifier s))"

definition start_inv :: "'p sub_sys \<Rightarrow> bool" where
  "start_inv s \<longleftrightarrow> (\<forall>i. clients s i = StartSpawn \<longrightarrow> i = 0 \<and> notifier s = NNone)"

definition queue_inv :: "'p sub_sys \<Rightarrow> bool" where
  "queue_inv s \<longleftrightarrow> taken_notes s @ buffer (handler s) = pushed s
     \<and> (notifier s = NTake \<longrightarrow> buffer (handler s) \<noteq> [])"

lemma set_pc_simps [simp]:
  "handler (set_pc i pc s) = handler s" "access_owner (set_pc i pc s) = access_owner s" "sub_owner (set_pc i pc s) = sub_owner s"
  "notifier (set_pc i pc s) = notifier s" "ws_server (set_pc i pc s) = ws_server s" "grpc_side (set_pc i pc s) = grpc_side s"
  "pushed (set_pc i pc s) = pushed s" "taken_notes (set_pc i pc s) = taken_notes s" "clients (set_pc i pc s) = (clients s)(i := pc)"
  by (simp_all add: set_pc_def)

lemma notify_one_simps [simp]:
  "handler (notify_one s) = handler s" "access_owner (notify_one s) = access_owner s" "sub_owner (notify_one s) = sub_owner s"
  "clients (notify_one s) = clients s" "ws_server (notify_one s) = ws_server s" "grpc_side (notify_one s) = grpc_side s"
  "pushed (notify_one s) = pushed s" "taken_notes (notify_one s) = taken_notes s"
  "notifier (notify_one s) = (if notifier s = NWaiting then NWoken else notifier s)"
  by (simp_all add: notify_one_def)

lemma with_Some:
  "with_access body s = Some s' \<longleftrightarrow> access_owner s = None \<and> s' = body s"
  "with_sub body s = Some s' \<longleftrightarrow> sub_owner s = None \<and> s' = body s"
  by (auto simp: with_access_def with_sub_def)

lemma with_None:
  "with_access body s = None \<longleftrightarrow> access_owner s \<noteq> None"
  "with_sub body s = None \<longleftrightarrow> sub_owner s \<noteq> None"
  by (auto simp: with_access_def with_sub_def)

lemma handler_ops_buffer [simp]:
  "buffer (add_subscription key subId c sh) = buffer sh" "buffer (snd (unsubscribe subId sh)) = buffer sh"
  "buffer (unsubscribeAll c sh) = buffer sh" "buffer (startThread sh) = buffer sh"
  "threadRun (add_subscription key subId c sh) = threadRun sh" "threadRun (snd (unsubscribe subId sh)) = threadRun sh"
  "threadRun (unsubscribeAll c sh) = threadRun sh"
  by (simp_all add: add_subscription_def unsubscribe_def unsubscribeAll_def startThread_def split: prod.splits)

lemma publish_start_keeps [simp]:
  "access_owner (publish_start L i path dt attr data s) = access_owner s"
  "sub_owner (publish_start L i path dt attr data s) = sub_owner s"
  "notifier (publish_start L i path dt attr data s) = notifier s"
  "pushed (publish_start L i path dt attr data s) = pushed s"
  "taken_notes (publish_start L i path dt attr data s) = taken_notes s"
  "buffer (handler (publish_start L i path dt attr data s)) = buffer (handler s)"
  "subscriptions (handler (publish_start L i path dt attr data s)) = subscriptions (handler s)"
  "threadRun (handler (publish_start L i path dt attr data s)) = threadRun (handler s)"
  by (auto simp: publish_start_def split: sum.splits prod.splits)

lemma publish_start_clients:
  "clients (publish_start L i path dt attr data s) = (clients s)(i := Idle)
   \<or> clients (publish_start L i path dt attr data s) = (clients s)(i := PubLock path dt attr data)"
  by (auto simp: publish_start_def split: sum.splits prod.splits)


text \<open>What a step of a client does to the owners, in terms of where it stood and where it stands now.\<close>

lemma client_step_shape:
  assumes "client_step L i pc s = Some s'" "clients s i = pc"
  shows "j \<noteq> i \<Longrightarrow> clients s' j = clients s j"
    "access_owner s' = (if publishing (clients s' i) then (if publishing pc then access_owner s else Some (Client i))
       else if publishing pc then None else access_owner s)"
    "publishing (clients s' i) \<longrightarrow> publishing pc \<or> access_owner s = None"
    "sub_owner s' = (if pushing (clients s' i) then (if pushing pc then sub_owner s else Some (Client i))
       else if pushing pc then None else sub_owner s)"
    "pushing (clients s' i) \<longrightarrow> pushing pc \<or> sub_owner s = None"
    "notifier s' = notifier s \<or> notifier s = NWaiting \<and> notifier s' = NWoken \<or> pc = StartSpawn \<and> notifier s' = NLoop"
    "clients s' i \<noteq> StartSpawn"
    "taken_notes s' = taken_notes s" "\<exists>ns. pushed s' = pushed s @ ns \<and> buffer (handler s') = buffer (handler s) @ ns"
proof -
  have all: "(\<forall>j. j \<noteq> i \<longrightarrow> clients s' j = clients s j)
    \<and> access_owner s' = (if publishing (clients s' i) then (if publishing pc then access_owner s else Some (Client i))
       else if publishing pc then None else access_owner s)
    \<and> (publishing (clients s' i) \<longrightarrow> publishing pc \<or> access_owner s = None)
    \<and> sub_owner s' = (if pushing (clients s' i) then (if pushing pc then sub_owner s else Some (Client i))
       else if pushing pc then None else sub_owner s)
    \<and> (pushing (clients s' i) \<longrightarrow> pushing pc \<or> sub_owner s = None)
    \<and> (notifier s' = notifier s \<or> notifier s = NWaiting \<and> notifier s' = NWoken \<or> pc = StartSpawn \<and> notifier s' = NLoop)
    \<and> clients s' i \<noteq> StartSpawn
    \<and> taken_notes s' = taken_notes s \<and> (\<exists>ns. pushed s' = pushed s @ ns \<and> buffer (handler s') = buffer (handler s) @ ns)"
    using assms
  proof (cases "(L, i, pc, s)" rule: client_step.cases)
    case (2 L i path dt attr data s)
    with assms publish_start_clients[of L i path dt attr data s] show ?thesis by auto
  qed (auto simp: with_Some publish_lock_def publish_push_def Let_def push_note_def split: option.splits if_splits)
  show "j \<noteq> i \<Longrightarrow> clients s' j = clients s j" using all by blast
  show
    "access_owner s' = (if publishing (clients s' i) then (if publishing pc then access_owner s else Some (Client i))
       else if publishing pc then None else access_owner s)"
    "publishing (clients s' i) \<longrightarrow> publishing pc \<or> access_owner s = None"
    "sub_owner s' = (if pushing (clients s' i) then (if pushing pc then sub_owner s else Some (Client i))
       else if pushing pc then None else sub_owner s)"
    "pushing (clients s' i) \<longrightarrow> pushing pc \<or> sub_owner s = None"
    "notifier s' = notifier s \<or> notifier s = NWaiting \<and> notifier s' = NWoken \<or> pc = StartSpawn \<and> notifier s' = NLoop"
    "clients s' i \<noteq> StartSpawn"
    "taken_notes s' = taken_notes s" "\<exists>ns. pushed s' = pushed s @ ns \<and> buffer (handler s') = buffer (handler s) @ ns"
    by (insert all, elim conjE, assumption)+
qed


lemma client_step_start:
  assumes step: "client_step L i (clients s i) s = Some s'" and inv: "start_inv s" shows "start_inv s'"
proof -
  note sh = client_step_shape[OF step refl]
  have "j = 0 \<and> notifier s' = NNone" if "clients s' j = StartSpawn" for j
  proof -
    from that sh(7) have "j \<noteq> i" by auto
    from sh(1)[OF this] that have "clients s j = StartSpawn" by simp
    with inv have "j = 0 \<and> notifier s = NNone" unfolding start_inv_def by blast
    moreover with inv \<open>j \<noteq> i\<close> have "clients s i \<noteq> StartSpawn" by (metis start_inv_def)
    ultimately show ?thesis using sh(6) by auto
  qed
  then show ?thesis by (simp add: start_inv_def)
qed

text \<open>A mutex one client takes or releases keeps saying which client is inside.\<close>

lemma owner_step:
  assumes "\<forall>j. owner = Some (Client j) \<longleftrightarrow> inside (cs j)" "\<forall>j. j \<noteq> i \<longrightarrow> cs' j = cs j"
    "owner' = (if inside (cs' i) then (if inside (cs i) then owner else Some (Client i)) else if inside (cs i) then None else owner)"
    "inside (cs' i) \<longrightarrow> inside (cs i) \<or> owner = None"
  shows "\<forall>j. owner' = Some (Client j) \<longleftrightarrow> inside (cs' j)" "owner' = Some Notifier \<longleftrightarrow> owner = Some Notifier"
proof -
  have i: "owner = Some (Client i) \<longleftrightarrow> inside (cs i)" using assms(1) by blast
  have "owner' = Some (Client j) \<longleftrightarrow> inside (cs' j)" for j
  proof (cases "j = i")
    case True
    with i assms(3) show ?thesis by (auto split: if_splits)
  next
    case False
    with assms(1,2) have "owner = Some (Client j) \<longleftrightarrow> inside (cs' j)" by metis
    with False i assms(3,4) show ?thesis by (auto split: if_splits)
  qed
  then show "\<forall>j. owner' = Some (Client j) \<longleftrightarrow> inside (cs' j)" by blast
  from i assms(3,4) show "owner' = Some Notifier \<longleftrightarrow> owner = Some Notifier" by (auto split: if_splits)
qed

lemma client_step_locks:
  assumes step: "client_step L i (clients s i) s = Some s'" and inv: "locks_inv s" "start_inv s"
  shows "locks_inv s'"
proof -
  note sh = client_step_shape[OF step refl]
  have others: "\<forall>j. j \<noteq> i \<longrightarrow> clients s' j = clients s j" using sh(1) by blast
  have "sending (notifier s') = sending (notifier s)"
    using sh(6) inv(2) by (auto simp: start_inv_def)
  moreover from inv(1) have "\<forall>j. access_owner s = Some (Client j) \<longleftrightarrow> publishing (clients s j)"
      "\<forall>j. sub_owner s = Some (Client j) \<longleftrightarrow> pushing (clients s j)"
    by (simp_all add: locks_inv_def)
  from owner_step[OF this(1) others sh(2,3)] owner_step[OF this(2) others sh(4,5)]
  have "\<forall>j. access_owner s' = Some (Client j) \<longleftrightarrow> publishing (clients s' j)" "access_owner s' = Some Notifier \<longleftrightarrow> access_owner s = Some Notifier"
    "\<forall>j. sub_owner s' = Some (Client j) \<longleftrightarrow> pushing (clients s' j)" "sub_owner s' = Some Notifier \<longleftrightarrow> sub_owner s = Some Notifier"
    by blast+
  ultimately show ?thesis using inv(1) by (simp add: locks_inv_def)
qed

lemma client_step_queue:
  assumes step: "client_step L i (clients s i) s = Some s'" and inv: "queue_inv s" "start_inv s"
  shows "queue_inv s'"
  using client_step_shape(6,8,9)[OF step refl] inv by (auto simp: queue_inv_def)

section \<open>The steps of the notification thread\<close>

lemma note_send_keeps [simp]:
  "handler (note_send L note s) = handler s" "access_owner (note_send L note s) = access_owner s" "clients (note_send L note s) = clients s"
  "pushed (note_send L note s) = pushed s" "taken_notes (note_send L note s) = taken_notes s"
  by (simp_all add: note_send_def Let_def split: prod.splits sum.splits)

lemma note_send_ends:
  "notifier (note_send L note s) = NUnsub (fst (snd note)) \<and> sub_owner (note_send L note s) = sub_owner s
   \<or> notifier (note_send L note s) \<in> {NLoop, NAborted} \<and> sub_owner (note_send L note s) = None"
  by (auto simp: note_send_def Let_def split: prod.splits sum.splits)

lemma notifier_step_shape:
  assumes "notifier_step L pc s = Some s'" "notifier s = pc"
  shows "clients s' = clients s \<and> access_owner s' = access_owner s \<and> pc \<noteq> NNone
    \<and> sub_owner s' = (if sending (notifier s') then (if sending pc then sub_owner s else Some Notifier)
         else if sending pc then None else sub_owner s)
    \<and> (sending (notifier s') \<longrightarrow> sending pc \<or> sub_owner s = None)
    \<and> (queue_inv s \<longrightarrow> queue_inv s')"
  using assms
proof (cases "(L, pc, s)" rule: notifier_step.cases)
  case (5 L n s)
  with assms note_send_ends[of L n s] show ?thesis by (auto simp: queue_inv_def)
qed (auto simp: with_Some note_take_def queue_inv_def pop_note_def split: list.splits if_splits)

lemma notifier_step_inv:
  assumes step: "notifier_step L (notifier s) s = Some s'" and inv: "locks_inv s" "queue_inv s" "start_inv s"
  shows "locks_inv s' \<and> queue_inv s' \<and> start_inv s'"
proof -
  note sh = notifier_step_shape[OF step refl]
  from inv(1) have own: "sub_owner s = Some Notifier \<longleftrightarrow> sending (notifier s)" by (simp add: locks_inv_def)
  with sh have "sub_owner s' = Some Notifier \<longleftrightarrow> sending (notifier s')" "sub_owner s' = Some (Client i) \<longleftrightarrow> sub_owner s = Some (Client i)" for i
    by (auto split: if_splits)
  with sh inv show ?thesis by (simp add: locks_inv_def start_inv_def)
qed

lemma sys_step_inv:
  assumes "sys_step L s s'" "locks_inv s \<and> queue_inv s \<and> start_inv s"
  shows "locks_inv s' \<and> queue_inv s' \<and> start_inv s'"
  using assms
proof (cases rule: sys_step.cases)
  case (step t)
  then consider i where "client_step L i (clients s i) s = Some s'" | "notifier_step L (notifier s) s = Some s'"
    by (auto simp: thread_step_def split: if_splits thread_id.splits)
  then show ?thesis
    using assms(2) client_step_locks client_step_queue client_step_start notifier_step_inv by cases blast+
next
  case (call i pc)
  then have "\<not> publishing pc" "\<not> pushing pc" "pc \<noteq> StartSpawn" by (auto simp: entry_pc_def split: client_pc.splits)
  with call assms(2) show ?thesis
    by (auto simp: locks_inv_def queue_inv_def start_inv_def)
next
  case spurious
  with assms(2) show ?thesis by (auto simp: locks_inv_def queue_inv_def start_inv_def)
next
  case (surroundings srv gw)
  with assms(2) show ?thesis by (auto simp: locks_inv_def queue_inv_def start_inv_def)
qed

lemma reachable_inv: "reachable L s \<Longrightarrow> locks_inv s \<and> queue_inv s \<and> start_inv s"
proof (induction rule: reachable.induct)
  case (init run srv gw)
  show ?case by (simp add: locks_inv_def queue_inv_def start_inv_def sys_init_def new_SubscriptionHandler_def)
next
  case (next_state s s')
  then show ?case using sys_step_inv by blast
qed

section \<open>Schedules\<close>

lemma event_reachable: "reachable L s \<Longrightarrow> reachable L (event_step L e s)"
proof (cases e)
  case (Run t)
  assume "reachable L s"
  with Run show ?thesis by (auto intro: reachable.next_state sys_step.step split: option.splits)
next
  case (Call i pc)
  assume "reachable L s"
  with Call show ?thesis by (auto intro: reachable.next_state sys_step.call split: client_pc.splits)
next
  case Wakeup
  assume "reachable L s"
  with Wakeup show ?thesis by (auto intro: reachable.next_state sys_step.spurious)
qed

lemma run_events_reachable: "reachable L s \<Longrightarrow> reachable L (run_events L es s)"
  by (induction es arbitrary: s) (simp_all add: run_events_def event_reachable)

section \<open>Threads that stop each other\<close>

text \<open>
  A client inside the loop of \<open>publishForVSSPath\<close> waits for \<open>subMutex\<close>, the notification thread
  inside \<open>unsubscribeAll\<close> for \<open>accessMutex\<close>.
\<close>

definition crossed :: "nat \<Rightarrow> 'p sub_sys \<Rightarrow> bool" where
  "crossed i s \<longleftrightarrow> (\<exists>x r dt d. clients s i = PubNext (x # r) dt d) \<and> (\<exists>c. notifier s = NUnsub c) \<and> locks_inv s \<and> start_inv s"

lemma crossed_owners: "crossed i s \<Longrightarrow> access_owner s = Some (Client i) \<and> sub_owner s = Some Notifier"
proof -
  assume c: "crossed i s"
  then have "publishing (clients s i)" "sending (notifier s)" "locks_inv s" by (auto simp: crossed_def)
  then show ?thesis by (simp add: locks_inv_def)
qed

lemma crossed_client:
  assumes c: "crossed i s" and step: "client_step L j (clients s j) s = Some s'"
  shows "j \<noteq> i" "subscriptions (handler s') = subscriptions (handler s)" "notifier s' = notifier s"
    "access_owner s' = access_owner s" "sub_owner s' = sub_owner s" "taken_notes s' = taken_notes s" "clients s' i = clients s i"
proof -
  note own = crossed_owners[OF c]
  from c have pc: "\<exists>x r dt d. clients s i = PubNext (x # r) dt d" "\<exists>c. notifier s = NUnsub c" by (auto simp: crossed_def)
  from c have inv: "\<not> pushing (clients s j)" "publishing (clients s j) \<Longrightarrow> j = i"
    using own unfolding crossed_def locks_inv_def by (metis option.inject thread_id.distinct(1), metis option.inject thread_id.inject)
  from c pc(2) have start: "clients s j \<noteq> StartSpawn" by (auto simp: crossed_def start_inv_def)
  show ne: "j \<noteq> i"
  proof
    assume "j = i"
    with pc(1) step own show False by (auto simp: with_sub_def)
  qed
  from inv(2) ne have np: "\<not> publishing (clients s j)" by blast
  have "subscriptions (handler s') = subscriptions (handler s) \<and> notifier s' = notifier s
     \<and> access_owner s' = access_owner s \<and> sub_owner s' = sub_owner s \<and> taken_notes s' = taken_notes s \<and> clients s' i = clients s i"
    using step own pc inv(1) np ne start
  proof (cases "(L, j, clients s j, s)" rule: client_step.cases)
    case (2 L j path dt attr data s)
    with step ne publish_start_clients[of L j path dt attr data s] show ?thesis by auto
  qed (auto simp: with_Some publish_lock_def startThread_def)
  then show "subscriptions (handler s') = subscriptions (handler s)" "notifier s' = notifier s"
    "access_owner s' = access_owner s" "sub_owner s' = sub_owner s" "taken_notes s' = taken_notes s" "clients s' i = clients s i" by auto
qed

lemma crossed_step:
  assumes c: "crossed i s" and step: "sys_step L s s'"
  shows "crossed i s'" "clients s' i = clients s i" "taken_notes s' = taken_notes s" "subscriptions (handler s') = subscriptions (handler s)"
proof -
  note own = crossed_owners[OF c]
  from c have pc: "\<exists>x r dt d. clients s i = PubNext (x # r) dt d" "\<exists>c. notifier s = NUnsub c" "locks_inv s" "start_inv s"
    by (auto simp: crossed_def)
  from step have all: "notifier s' = notifier s \<and> clients s' i = clients s i \<and> taken_notes s' = taken_notes s
      \<and> subscriptions (handler s') = subscriptions (handler s) \<and> locks_inv s' \<and> start_inv s'"
  proof (cases rule: sys_step.cases)
    case (step t)
    with pc(2) have t: "case t of Client j \<Rightarrow> client_step L j (clients s j) s = Some s' | Notifier \<Rightarrow> notifier_step L (notifier s) s = Some s'"
      by (auto simp: thread_step_def split: thread_id.splits)
    with pc(2) own obtain j where "client_step L j (clients s j) s = Some s'"
      by (cases t) (auto simp: with_Some)
    from crossed_client[OF c this] client_step_locks[OF this pc(3,4)] client_step_start[OF this pc(4)] show ?thesis by auto
  next
    case (call j pc')
    with pc(1) have "j \<noteq> i" by auto
    moreover from call have "\<not> publishing pc'" "\<not> pushing pc'" "pc' \<noteq> StartSpawn" by (auto simp: entry_pc_def split: client_pc.splits)
    ultimately show ?thesis using call pc(3,4) by (auto simp: locks_inv_def start_inv_def)
  next
    case spurious
    with pc(2) show ?thesis by auto
  next
    case (surroundings srv gw)
    with pc(3,4) show ?thesis by (simp add: locks_inv_def start_inv_def)
  qed
  with pc(1,2) show "crossed i s'" "clients s' i = clients s i" "taken_notes s' = taken_notes s"
    "subscriptions (handler s') = subscriptions (handler s)" unfolding crossed_def by auto
qed

lemma crossed_forever:
  assumes "(sys_step L)\<^sup>*\<^sup>* s s'" "crossed i s"
  shows "crossed i s' \<and> clients s' i = clients s i \<and> taken_notes s' = taken_notes s \<and> subscriptions (handler s') = subscriptions (handler s)"
  using assms(1)
proof (induction rule: rtranclp_induct)
  case (step y z)
  with crossed_step[of i y L z] show ?case by simp
qed (use assms(2) in simp)

lemma dead_connection_crosses:
  assumes "reachable L s" "clients s i = PubNext (x # r) dt d" "notifier s = NSend n"
    "send_note L n (ws_server s) (grpc_side s) = (Inr False, srv, gw)" "thread_step L Notifier s = Some s1"
  shows "crossed i s1 \<and> clients s1 i = clients s i \<and> taken_notes s1 = taken_notes s \<and> subscriptions (handler s1) = subscriptions (handler s)"
proof -
  from assms(5,3,4) have s1: "notifier s1 = NUnsub (fst (snd n))" "clients s1 = clients s" "taken_notes s1 = taken_notes s" "handler s1 = handler s"
    by (auto simp: thread_step_def note_send_def)
  moreover have "reachable L s1" using assms(1,5) by (blast intro: reachable.next_state sys_step.step)
  from reachable_inv[OF this] have "locks_inv s1" "start_inv s1" by auto
  ultimately show ?thesis using assms(2) by (simp add: crossed_def)
qed

section \<open>Wake-ups that are lost\<close>

text \<open>Nothing but a push, a stop or a spurious wake-up ends the wait.\<close>

lemma waiting_step:
  assumes "notifier s = NWaiting" "\<forall>i. \<not> pushing (clients s i) \<and> clients s i \<noteq> StopNotify" "start_inv s" "thread_step L t s = Some s'"
  shows "notifier s' = NWaiting \<and> taken_notes s' = taken_notes s \<and> buffer (handler s') = buffer (handler s)"
proof -
  from assms(1,4) obtain i where step: "client_step L i (clients s i) s = Some s'"
    by (auto simp: thread_step_def split: thread_id.splits)
  from assms have "clients s i \<noteq> StartSpawn" "\<not> pushing (clients s i)" "clients s i \<noteq> StopNotify" by (auto simp: start_inv_def)
  then have "notifier s' = notifier s \<and> buffer (handler s') = buffer (handler s)"
    using step
  proof (cases "(L, i, clients s i, s)" rule: client_step.cases)
    case (2 L i path dt attr data s)
    with step show ?thesis by auto
  qed (auto simp: with_Some publish_lock_def split: option.splits if_splits)
  with assms(1) client_step_shape(8)[OF step refl] show ?thesis by simp
qed

definition quiet_step :: "'a lib_scheme \<Rightarrow> 'p sub_sys \<Rightarrow> 'p sub_sys \<Rightarrow> bool" where
  "quiet_step L s s' \<longleftrightarrow> (\<exists>t. thread_step L t s = Some s') \<and> (\<forall>i. \<not> pushing (clients s i) \<and> clients s i \<noteq> StopNotify)"

lemma quiet_waits:
  assumes "(quiet_step L)\<^sup>*\<^sup>* s s'" "notifier s = NWaiting" "start_inv s"
  shows "notifier s' = NWaiting \<and> taken_notes s' = taken_notes s \<and> buffer (handler s') = buffer (handler s)"
proof -
  from assms have "notifier s' = NWaiting \<and> taken_notes s' = taken_notes s \<and> buffer (handler s') = buffer (handler s) \<and> start_inv s'"
  proof (induction rule: rtranclp_induct)
    case (step y z)
    then obtain t where t: "thread_step L t y = Some z" "\<forall>i. \<not> pushing (clients y i) \<and> clients y i \<noteq> StopNotify"
      by (auto simp: quiet_step_def)
    from step have y: "notifier y = NWaiting" "start_inv y" "taken_notes y = taken_notes s" "buffer (handler y) = buffer (handler s)" by auto
    from waiting_step[OF y(1) t(2) y(2) t(1)] have z: "notifier z = NWaiting" "taken_notes z = taken_notes y" "buffer (handler z) = buffer (handler y)" by auto
    from t(1) y(1) obtain i where "client_step L i (clients y i) y = Some z" by (auto simp: thread_step_def split: thread_id.splits)
    from client_step_start[OF this y(2)] z y show ?case by simp
  qed simp
  then show ?thesis by simp
qed

lemma push_before_wait:
  assumes "notifier s = NWait" "clients s i = PubPush subId c rest dt d"
    "thread_step L (Client i) s = Some s1" "thread_step L Notifier s1 = Some s2"
  shows "notifier s2 = NWaiting \<and> (subId, c, dt, d) \<in> set (buffer (handler s2)) \<and> thread_step L Notifier s2 = None"
  using assms by (auto simp: thread_step_def publish_push_def Let_def with_Some push_note_def)

section \<open>The flag of a running thread\<close>

lemma done_step:
  assumes "notifier s = NDone" "start_inv s" "sys_step L s s'"
  shows "notifier s' = NDone \<and> taken_notes s' = taken_notes s \<and> start_inv s'"
  using assms(3)
proof (cases rule: sys_step.cases)
  case (step t)
  with assms(1) obtain i where step: "client_step L i (clients s i) s = Some s'"
    by (auto simp: thread_step_def split: thread_id.splits)
  from assms have "clients s i \<noteq> StartSpawn" by (auto simp: start_inv_def)
  with client_step_shape(6,8)[OF step refl] client_step_start[OF step assms(2)] assms(1) show ?thesis by auto
next
  case (call i pc)
  with assms show ?thesis by (auto simp: start_inv_def entry_pc_def split: client_pc.splits)
qed (use assms in \<open>auto simp: start_inv_def\<close>)

lemma done_forever:
  assumes "(sys_step L)\<^sup>*\<^sup>* s s'" "notifier s = NDone" "start_inv s"
  shows "notifier s' = NDone \<and> taken_notes s' = taken_notes s"
proof -
  from assms(1) have "notifier s' = NDone \<and> taken_notes s' = taken_notes s \<and> start_inv s'"
  proof (induction rule: rtranclp_induct)
    case (step y z)
    with done_step[of y L z] show ?case by simp
  qed (use assms(2,3) in simp)
  then show ?thesis by simp
qed

section \<open>A thread left to run\<close>

abbreviation thread_runs :: "'a lib_scheme \<Rightarrow> thread_id \<Rightarrow> 'p sub_sys \<Rightarrow> 'p sub_sys \<Rightarrow> bool" where
  "thread_runs L t s s' \<equiv> \<exists>n. run_events L (replicate n (Run t)) s = s'"

lemma runs_refl: "thread_runs L t s s"
  by (intro exI[of _ 0]) (simp add: run_events_def)

lemma runs_step: "thread_step L t s = Some s1 \<Longrightarrow> thread_runs L t s1 s' \<Longrightarrow> thread_runs L t s s'"
proof -
  assume "thread_step L t s = Some s1" "thread_runs L t s1 s'"
  then obtain n where "run_events L (replicate n (Run t)) s1 = s'" by blast
  with \<open>thread_step L t s = Some s1\<close> show "thread_runs L t s s'"
    by (intro exI[of _ "Suc n"]) (simp add: run_events_def)
qed

lemma runs_trans: "thread_runs L t s s1 \<Longrightarrow> thread_runs L t s1 s' \<Longrightarrow> thread_runs L t s s'"
proof -
  assume "thread_runs L t s s1" "thread_runs L t s1 s'"
  then obtain m n where "run_events L (replicate m (Run t)) s = s1" "run_events L (replicate n (Run t)) s1 = s'" by blast
  then show "thread_runs L t s s'"
    by (intro exI[of _ "m + n"]) (simp add: run_events_def replicate_add)
qed

text \<open>A client that is not interrupted does what \<open>publishForVSSPath\<close> says.\<close>

lemma publish_loop_runs:
  "clients s i = PubNext rest dt d \<Longrightarrow> sub_owner s = None \<Longrightarrow> notifier s \<noteq> NAborted \<Longrightarrow>
   \<exists>s'. thread_runs L (Client i) s s' \<and> clients s' i = Idle \<and> access_owner s' = None \<and> sub_owner s' = None
     \<and> handler s' = fold (\<lambda>(sid, c). push_note (sid, c, dt, d)) rest (handler s) \<and> taken_notes s' = taken_notes s"
proof (induction rest arbitrary: s)
  case Nil
  then have "thread_step L (Client i) s = Some (set_pc i Idle (s\<lparr>access_owner := None\<rparr>))" by (simp add: thread_step_def)
  from runs_step[OF this runs_refl] Nil show ?case by (intro exI[of _ "set_pc i Idle (s\<lparr>access_owner := None\<rparr>)"]) simp
next
  case (Cons x rest)
  obtain sid c where x: "x = (sid, c)" by (cases x)
  let ?s1 = "set_pc i (PubPush sid c rest dt d) (s\<lparr>sub_owner := Some (Client i)\<rparr>)"
  let ?s2 = "publish_push i sid c rest dt d ?s1"
  have 1: "thread_step L (Client i) s = Some ?s1" "thread_step L (Client i) ?s1 = Some ?s2"
    using Cons.prems x by (simp_all add: thread_step_def with_sub_def)
  have s2: "clients ?s2 i = PubNext rest dt d" "sub_owner ?s2 = None" "notifier ?s2 \<noteq> NAborted"
      "handler ?s2 = push_note (sid, c, dt, d) (handler s)" "taken_notes ?s2 = taken_notes s"
    using Cons.prems by (simp_all add: publish_push_def Let_def)
  from Cons.IH[OF s2(1-3)] obtain s' where "thread_runs L (Client i) ?s2 s'" "clients s' i = Idle" "access_owner s' = None" "sub_owner s' = None"
      "handler s' = fold (\<lambda>(sid, c). push_note (sid, c, dt, d)) rest (handler ?s2)" "taken_notes s' = taken_notes ?s2" by blast
  moreover from runs_step[OF 1(1) runs_step[OF 1(2) this(1)]] have "thread_runs L (Client i) s s'" .
  ultimately show ?case using s2(4,5) x by (intro exI[of _ s']) simp
qed

lemma publish_runs:
  assumes "clients s i = PubStart path dt attr d" "access_owner s = None" "sub_owner s = None" "notifier s \<noteq> NAborted"
  shows "\<exists>s'. thread_runs L (Client i) s s' \<and> clients s' i = Idle \<and> access_owner s' = None \<and> sub_owner s' = None
     \<and> handler s' = snd (publishForVSSPath L path dt attr d (handler s)) \<and> taken_notes s' = taken_notes s"
proof -
  let ?s1 = "publish_start L i path dt attr d s"
  have 1: "thread_step L (Client i) s = Some ?s1" using assms by (simp add: thread_step_def)
  show ?thesis
  proof (cases "clients ?s1 i = Idle")
    case True
    then have "handler ?s1 = snd (publishForVSSPath L path dt attr d (handler s))"
      by (auto simp: publish_start_def publishForVSSPath_def split: sum.splits prod.splits)
    with True runs_step[OF 1 runs_refl] assms show ?thesis by (intro exI[of _ ?s1]) simp
  next
    case False
    with publish_start_clients[of L i path dt attr d s] have pc: "clients ?s1 i = PubLock path dt attr d" by auto
    obtain v where v: "bindE (json_at d ''dp'') (\<lambda>dp. json_at dp attr) = Inr v"
      using False by (cases "bindE (json_at d ''dp'') (\<lambda>dp. json_at dp attr)") (auto simp: publish_start_def)
    obtain r ps where r: "publish_mqtt L (getVSSPath path) v (publishers (handler s)) = (r, ps)" by fastforce
    with v False have "r = Inr ()" by (cases r) (auto simp: publish_start_def)
    with v r have ps: "bindE (json_at d ''dp'') (\<lambda>dp. json_at dp attr) = Inr v"
        "publish_mqtt L (getVSSPath path) v (publishers (handler s)) = (Inr (), ps)" "handler ?s1 = (handler s)\<lparr>publishers := ps\<rparr>"
      by (simp_all add: publish_start_def)
    show ?thesis
    proof (cases "map_of (subscriptions (handler s)) (getVSSPath path, attr)")
      case None
      let ?s2 = "set_pc i Idle ?s1"
      have "thread_step L (Client i) ?s1 = Some ?s2"
        using pc None ps assms by (simp add: thread_step_def publish_lock_def with_access_def)
      from runs_step[OF 1 runs_step[OF this runs_refl]] show ?thesis
        using None ps assms by (intro exI[of _ ?s2]) (simp add: publishForVSSPath_def)
    next
      case (Some handle)
      let ?s2 = "set_pc i (PubNext handle dt d) (?s1\<lparr>access_owner := Some (Client i)\<rparr>)"
      have 2: "thread_step L (Client i) ?s1 = Some ?s2"
        using pc Some ps assms by (simp add: thread_step_def publish_lock_def with_access_def)
      from publish_loop_runs[of ?s2 i handle dt d L] assms obtain s' where s': "thread_runs L (Client i) ?s2 s'" "clients s' i = Idle"
          "access_owner s' = None" "sub_owner s' = None" "taken_notes s' = taken_notes s"
          "handler s' = fold (\<lambda>(sid, c). push_note (sid, c, dt, d)) handle (handler ?s1)" by auto
      with runs_step[OF 1 runs_step[OF 2 s'(1)]] Some ps show ?thesis
        by (intro exI[of _ s']) (simp add: publishForVSSPath_def)
    qed
  qed
qed

text \<open>The notification thread, not interrupted, does one round of \<open>subThread_round\<close>.\<close>

lemma round_runs:
  assumes "notifier s = NCheck" "access_owner s = None" "sub_owner s = None" "buffer (handler s) = n # ns"
    "subThread_round L (handler s) (ws_server s) (grpc_side s) = (Inr (), sh', srv', gw')"
  shows "\<exists>s'. thread_runs L Notifier s s' \<and> notifier s' = NLoop \<and> access_owner s' = None \<and> sub_owner s' = None
     \<and> handler s' = sh' \<and> ws_server s' = srv' \<and> grpc_side s' = gw' \<and> clients s' = clients s \<and> taken_notes s' = taken_notes s @ [n]"
proof -
  let ?s1 = "s\<lparr>notifier := NTake\<rparr>"
  let ?s2 = "?s1\<lparr>sub_owner := Some Notifier, notifier := NSend n, handler := pop_note (handler s), taken_notes := taken_notes s @ [n]\<rparr>"
  let ?s3 = "note_send L n ?s2"
  have st: "thread_step L Notifier s = Some ?s1" "thread_step L Notifier ?s1 = Some ?s2" "thread_step L Notifier ?s2 = Some ?s3"
    using assms by (simp_all add: thread_step_def with_sub_def note_take_def)
  from assms(4,5) obtain ex where send: "send_note L n (ws_server s) (grpc_side s) = (Inr ex, srv', gw')"
      and sh': "sh' = (if ex then pop_note (handler s) else unsubscribeAll (fst (snd n)) (pop_note (handler s)))"
    by (auto simp: subThread_round_def deliver_def split: prod.splits sum.splits)
  show ?thesis
  proof (cases ex)
    case True
    let ?s4 = "?s2\<lparr>ws_server := srv', grpc_side := gw', notifier := NLoop, sub_owner := None\<rparr>"
    have "?s3 = ?s4" using True send by (simp add: note_send_def)
    from runs_step[OF st(1) runs_step[OF st(2) runs_step[OF st(3)[unfolded this] runs_refl]]]
    show ?thesis using True sh' assms(2) by (intro exI[of _ ?s4]) simp
  next
    case False
    let ?s4 = "?s2\<lparr>ws_server := srv', grpc_side := gw', notifier := NUnsub (fst (snd n))\<rparr>"
    let ?s5 = "?s4\<lparr>handler := unsubscribeAll (fst (snd n)) (handler ?s4), sub_owner := None, notifier := NLoop\<rparr>"
    have s4: "?s3 = ?s4" using False send by (simp add: note_send_def)
    have "thread_step L Notifier ?s4 = Some ?s5"
      using assms(2) by (simp add: thread_step_def with_access_def)
    from runs_step[OF st(1) runs_step[OF st(2) runs_step[OF st(3)[unfolded s4] runs_step[OF this runs_refl]]]]
    show ?thesis using False sh' assms(2) by (intro exI[of _ ?s5]) simp
  qed
qed

text \<open>
  Left to run, the thread empties the buffer, whether or not the connections still exist: every
  notification for a web-socket session is at the end of its write queue, in order.
\<close>

definition messages_for :: "'a lib_scheme \<Rightarrow> 64 word \<Rightarrow> notification list \<Rightarrow> string list" where
  "messages_for L k ns = map (\<lambda>(sid, c, dt, d). j_pretty L (projr (notification_answer L sid d)))
     (filter (\<lambda>(sid, c, dt, d). connectionID c = k) ns)"

definition websocket_notes :: "'a lib_scheme \<Rightarrow> notification list \<Rightarrow> bool" where
  "websocket_notes L ns \<longleftrightarrow> (\<forall>(sid, c, dt, d) \<in> set ns. typeOfConnection c \<noteq> GRPC \<and> (\<exists>a. notification_answer L sid d = Inr a))"

lemma websocket_round:
  assumes "isInitialized srv" "sessions_alive srv" "buffer sh = n # ns" "websocket_notes L (n # ns)"
  shows "\<exists>sh' srv'. subThread_round L sh srv gw = (Inr (), sh', srv', gw)
    \<and> buffer sh' = ns \<and> threadRun sh' = threadRun sh \<and> isInitialized srv' \<and> sessions_alive srv' \<and> connHandler srv' = connHandler srv
    \<and> (ws_registered srv k \<longrightarrow> map_option writeQueue (sessions srv' k) = map_option (\<lambda>s. writeQueue s @ messages_for L k [n]) (sessions srv k))"
proof -
  obtain sid c dt d where n: "n = (sid, c, dt, d)" by (cases n)
  from assms(4) obtain a where a: "typeOfConnection c \<noteq> GRPC" "notification_answer L sid d = Inr a"
    by (auto simp: websocket_notes_def n)
  obtain as srv' where send: "SendToConnection (connectionID c) (j_pretty L a) srv = (Inr (registered srv (connectionID c)), as, srv')"
    using SendToConnection_result[OF assms(1,2)] by (metis prod.collapse)
  note q = SendToConnection_queue[OF assms(1,2) send]
  let ?sh = "if registered srv (connectionID c) then pop_note sh else unsubscribeAll c (pop_note sh)"
  have "subThread_round L sh srv gw = (Inr (), ?sh, srv', gw)"
    using assms(3) a send by (simp add: subThread_round_def deliver_def send_note_def n Let_def channel_defs)
  moreover have "buffer ?sh = ns" "threadRun ?sh = threadRun sh" using assms(3) by (auto simp: pop_note_def)
  ultimately show ?thesis
    using q by (intro exI[of _ ?sh] exI[of _ srv']) (auto simp: messages_for_def n a(2))
qed

lemma notifier_drains:
  assumes "notifier s \<in> {NLoop, NCheck}" "threadRun (handler s)" "access_owner s = None" "sub_owner s = None"
    "isInitialized (ws_server s)" "sessions_alive (ws_server s)" "websocket_notes L (buffer (handler s))"
  shows "\<exists>s'. thread_runs L Notifier s s' \<and> buffer (handler s') = [] \<and> taken_notes s' = taken_notes s @ buffer (handler s)
     \<and> (ws_registered (ws_server s) k \<longrightarrow>
          map_option writeQueue (sessions (ws_server s') k)
          = map_option (\<lambda>c. writeQueue c @ messages_for L k (buffer (handler s))) (sessions (ws_server s) k))"
  using assms
proof (induction "buffer (handler s)" arbitrary: s)
  case Nil
  then show ?case by (intro exI[of _ s]) (auto simp: runs_refl messages_for_def option.map_ident)
next
  case (Cons n ns)
  let ?s0 = "s\<lparr>notifier := NCheck\<rparr>"
  have start: "thread_runs L Notifier s ?s0"
  proof (cases "notifier s = NCheck")
    case True
    then have "?s0 = s" by (cases s) simp
    then show ?thesis using runs_refl by metis
  next
    case False
    with Cons.prems(1,2) have "thread_step L Notifier s = Some ?s0" by (auto simp: thread_step_def isThreadRunning_def)
    then show ?thesis by (rule runs_step[OF _ runs_refl])
  qed
  from websocket_round[OF Cons.prems(5,6) Cons.hyps(2)[symmetric], of L "grpc_side s" k] Cons.prems(7) Cons.hyps(2)
  obtain sh' srv' where r: "subThread_round L (handler s) (ws_server s) (grpc_side s) = (Inr (), sh', srv', grpc_side s)"
      "buffer sh' = ns" "threadRun sh' = threadRun (handler s)" "isInitialized srv'" "sessions_alive srv'" "connHandler srv' = connHandler (ws_server s)"
      "ws_registered (ws_server s) k \<longrightarrow> map_option writeQueue (sessions srv' k)
         = map_option (\<lambda>c. writeQueue c @ messages_for L k [n]) (sessions (ws_server s) k)" by auto
  from round_runs[of ?s0 n ns L sh' srv' "grpc_side s"] Cons.prems(3,4) Cons.hyps(2) r(1)
  obtain s1 where s1: "thread_runs L Notifier ?s0 s1" "notifier s1 = NLoop" "access_owner s1 = None" "sub_owner s1 = None"
      "handler s1 = sh'" "ws_server s1 = srv'" "taken_notes s1 = taken_notes s @ [n]" by auto
  have "websocket_notes L ns" using Cons.prems(7) unfolding Cons.hyps(2)[symmetric] by (simp add: websocket_notes_def)
  with Cons.hyps(1)[of s1] s1 r Cons.prems(2)
  obtain s' where s': "thread_runs L Notifier s1 s'" "buffer (handler s') = []" "taken_notes s' = taken_notes s1 @ ns"
      "ws_registered srv' k \<longrightarrow> map_option writeQueue (sessions (ws_server s') k)
         = map_option (\<lambda>c. writeQueue c @ messages_for L k ns) (sessions srv' k)" by auto
  have "messages_for L k (n # ns) = messages_for L k [n] @ messages_for L k ns" by (auto simp: messages_for_def)
  moreover have "ws_registered srv' k \<longleftrightarrow> ws_registered (ws_server s) k" using r(6) by (simp add: ws_registered_def)
  ultimately have "ws_registered (ws_server s) k \<longrightarrow> map_option writeQueue (sessions (ws_server s') k)
      = map_option (\<lambda>c. writeQueue c @ messages_for L k (n # ns)) (sessions (ws_server s) k)"
    using s'(4) r(7) by (cases "sessions srv' k"; cases "sessions (ws_server s) k") auto
  moreover from runs_trans[OF start runs_trans[OF s1(1) s'(1)]] have "thread_runs L Notifier s s'" .
  ultimately show ?case using s'(2,3) s1(7) Cons.hyps(2) by (intro exI[of _ s']) simp
qed

end
