(* ===== verification/SubscribeLaws.thy ===== *)
theory SubscribeLaws
  imports CommandLaws
begin

text \<open>
  Subscribing over the wire: what the two requests answer and change, when a subscription is granted,
  and how subscriptions, published values and unsubscribing fit together.
\<close>

section \<open>Answers of the two requests\<close>

lemma processSubscribe_answer:
  assumes "processSubscribe L E kc req w = (r, w')"
  shows "(\<exists>p j. subscribe L (env_uuid E) kc (w_db w) p (req_attribute L req) (w_sub w) = (Inr (env_uuid E), w_sub w') \<and> r = Inr j
        \<and> req_string L req ''path'' = Inr p
        \<and> \<not> json_contains j ''error'' \<and> json_lookup j ''subscriptionId'' = Some (JStr (uuid_show L (env_uuid E))))
    \<or> (w_sub w' = w_sub w \<and> (\<forall>j. r = Inr j \<longrightarrow> json_contains j ''error''))"
  using assms
  by (auto simp: processSubscribe_def bindE_Inr_conv json_contains_lookup json_build_lookup reject_request_def response_defs json_lookup_set
      split: sum.splits option.splits prod.splits if_splits
      dest: subscribe_cases subscribe_subscriber(1))

lemma processUnsubscribe_answer:
  assumes "processUnsubscribe L E kc req w = (r, w')" "json_lookup req ''subscriptionId'' = Some (JStr (uuid_show L u))" "uuid_doc L"
  shows "w_sub w' = w_sub w \<and> (\<forall>j. r = Inr j \<longrightarrow> json_contains j ''error'')
    \<or> (\<exists>res. unsubscribe u (w_sub w) = (res, w_sub w') \<and> (\<exists>j. r = Inr j))"
  using assms(1,2)
  by (auto simp: processUnsubscribe_def bindE_Inr_conv json_contains_lookup json_build_lookup reject_request_def response_defs json_lookup_set
      req_string_def json_at_lookup uuid_docD[OF assms(3)]
      split: sum.splits option.splits prod.splits if_splits)

text \<open>Another connection keeps its subscriptions when a connection is dropped.\<close>

lemma unsubscribeAll_keeps:
  assumes "\<not> same_channel c kc" "subscriber sh key u = Some c"
  shows "subscriber (unsubscribeAll kc sh) key u = Some c"
proof -
  have "map_of m u = Some c \<Longrightarrow> map_of (erase_first_of kc m) u = Some c" for m
    using assms(1) by (induction m rule: erase_first_of.induct[of _ kc]) auto
  with assms(2) show ?thesis by (simp add: subscriber_def subs_for_unsubscribeAll)
qed

section \<open>A subscription that is granted\<close>

definition subscribe_msg :: "json \<Rightarrow> string \<Rightarrow> string \<Rightarrow> string \<Rightarrow> bool" where
  "subscribe_msg req rid p attr \<longleftrightarrow>
     json_lookup req ''action'' = Some (JStr ''subscribe'') \<and> json_lookup req ''path'' = Some (JStr p)
   \<and> json_lookup req ''requestId'' = Some (JStr rid) \<and> json_lookup req ''filters'' = None \<and> signal_attr attr
   \<and> (json_lookup req ''attribute'' = Some (JStr attr) \<or> json_lookup req ''attribute'' = None \<and> attr = ''value'')"

lemma conforms_subscribe_plain:
  assumes "json_lookup j ''filters'' = None"
  shows "conforms vss_resolver SCHEMA_SUBSCRIBE j \<longleftrightarrow> is_object j \<and> action_in j {''subscribe''}
     \<and> has_string j ''path'' \<and> has_string j ''requestId'' \<and> attribute_ok j"
  using assms by (simp add: conforms_subscribe_iff filters_ok_def)

lemma subscribe_msg_parts:
  assumes "subscribe_msg req rid p attr" "schema_doc L"
  shows "validateSubscribe L req = Inr ()" "req_string L req ''path'' = Inr p" "req_string L req ''requestId'' = Inr rid"
    "req_attribute L req = attr"
proof -
  have obj: "is_object req" using assms(1) by (auto simp: subscribe_msg_def intro: lookup_is_object)
  have "conforms vss_resolver SCHEMA_SUBSCRIBE req"
    using assms(1) obj conforms_subscribe_plain[of req]
    by (auto simp: subscribe_msg_def action_in_def has_string_def attribute_ok_def signal_attr_def)
  then show "validateSubscribe L req = Inr ()"
    using validate_message_iff(1)[OF assms(2)] by (simp add: validateSubscribe_def)
  show "req_string L req ''path'' = Inr p" "req_string L req ''requestId'' = Inr rid"
    using assms(1) by (simp_all add: subscribe_msg_def req_string_def json_at_lookup)
  show "req_attribute L req = attr"
    using assms(1) by (auto simp: subscribe_msg_def req_attribute_def)
qed

lemma subscribe_granted:
  assumes L: "jsonpath_doc L" and sig: "settable L db p attr ss node dt"
    and acc: "checkReadAccess L c (fromVSS L p) = Inr True"
  shows "subscribe L u c db p attr sh = (Inr u, add_subscription (getVSSPath (fromVSS L p), attr) u c sh)"
proof -
  from sig have den: "denotes (fromVSS L p) ss" and node: "path_nodes ss (data_tree db) = [(ss, node)]" by (simp_all add: settable_def)
  have "isSensor node \<or> isActor node" using sig by (auto simp: settable_def isSensor_def isActor_def has_type_def json_contains_lookup)
  then have "pathIsReadable L db (fromVSS L p) = Inr True" by (auto simp: pathIsReadable_iff[OF L den] node)
  with acc show ?thesis by (simp add: subscribe_def pathExists_iff[OF L den] node)
qed

lemma processSubscribe_success:
  assumes docs: "jsonpath_doc L" "schema_doc L" and req: "subscribe_msg req rid p attr"
    and sig: "settable L (w_db w) p attr ss node dt" and acc: "checkReadAccess L c (fromVSS L p) = Inr True"
  shows "processSubscribe L E c req w =
    (Inr (json_build [(''action'', JStr ''subscribe''), (''requestId'', JStr rid),
       (''subscriptionId'', JStr (uuid_show L (env_uuid E))), (''ts'', JStr (stamp E))]),
     w\<lparr>w_sub := add_subscription (getVSSPath (fromVSS L p), attr) (env_uuid E) c (w_sub w)\<rparr>)"
  using subscribe_msg_parts[OF req docs(2)] subscribe_granted[OF docs(1) sig acc]
  by (simp add: processSubscribe_def reject_request_def)

section \<open>Who is notified\<close>

lemma add_subscription_subscriber:
  "subscriber (add_subscription key u c sh) k sid = (if k = key \<and> sid = u then Some c else subscriber sh k sid)"
  "publishers (add_subscription key u c sh) = publishers sh" "buffer (add_subscription key u c sh) = buffer sh"
  by (auto simp: subscriber_def subs_for_def add_subscription_def update_conv' split: option.splits)

lemma subscriber_listed: "subscriber sh key u = Some c \<Longrightarrow> (u, c) \<in> set (subs_for sh key)"
  by (simp add: subscriber_def map_of_SomeD)

lemma listed_subscriber: "subs_wf sh \<Longrightarrow> (u, c) \<in> set (subs_for sh key) \<Longrightarrow> subscriber sh key u = Some c"
  using subs_wf_for[of sh key] by (simp add: subscriber_def map_of_is_SomeI)

text \<open>The notification of a stored value, as it is sent.\<close>

lemma notification_of_point:
  assumes "num_doc L" "clock_ok clock" "signal_attr attr" "snd clock < 10 ^ 9" "fst clock < 2 ^ 63" "gmtime_fits (fst clock)"
  shows "\<exists>a dp. notification_answer L u (data_point path clock attr v) = Inr a
    \<and> json_lookup a ''action'' = Some (JStr ''subscription'') \<and> json_lookup a ''subscriptionId'' = Some (JStr (uuid_show L u))
    \<and> (\<exists>d. json_lookup a ''data'' = Some d \<and> json_lookup d ''path'' = Some (JStr (to_string path)) \<and> json_lookup d ''dp'' = Some dp)
    \<and> json_lookup dp attr = Some v
    \<and> json_lookup dp ''ts'' = Some (JStr (format_FT_T (gmtime (fst clock)) @ ''.'' @ show_nat (nat (snd clock)) @ ''Z''))
    \<and> json_lookup dp ''ts_s'' = None \<and> json_lookup dp ''ts_ns'' = None"
proof -
  obtain dp where dp: "json_lookup (data_point path clock attr v) ''dp'' = Some dp" "is_object dp"
      "json_lookup dp ''ts_s'' = Some (JInt (fst clock))" "json_lookup dp attr = Some v" "json_lookup dp ''ts_ns'' = Some (JInt (snd clock))"
    using data_point_lookup(2)[of path clock attr v] assms(3) by (auto simp: signal_attr_def)
  have range: "0 \<le> fst clock" "0 \<le> snd clock"
    using assms(2) by (auto simp: clock_ok_def num_min_def is_signed.simps)
  note conv = convert_with_stamps[OF assms(1) dp(3,5) range(1) assms(5,6) range(2) assms(4)]
  let ?dp = "json_set (json_erase (json_erase dp ''ts_s'') ''ts_ns'') ''ts''
             (JStr (format_FT_T (gmtime (fst clock)) @ ''.'' @ show_nat (nat (snd clock)) @ ''Z''))"
  have obj: "is_object (data_point path clock attr v)" using dp(1) by (rule lookup_is_object)
  have "notification_answer L u (data_point path clock attr v) = Inr (json_build [(''action'', JStr ''subscription''),
      (''subscriptionId'', JStr (uuid_show L u)), (''data'', json_set (data_point path clock attr v) ''dp'' ?dp)])"
    using dp(1) conv by (simp add: notification_answer_def json_at_lookup)
  then show ?thesis
    using dp(2,4) assms(3) obj data_point_lookup(1)[of path clock attr v]
    by (intro exI[of _ "json_build [(''action'', JStr ''subscription''),
      (''subscriptionId'', JStr (uuid_show L u)), (''data'', json_set (data_point path clock attr v) ''dp'' ?dp)]"] exI[of _ ?dp])
      (auto simp: json_build_lookup json_lookup_set json_lookup_erase signal_attr_def)
qed

section \<open>The connection of a channel\<close>

lemma validate_connection:
  "validate L a c tok = (r, c') \<Longrightarrow> connectionID c' = connectionID c \<and> typeOfConnection c' = typeOfConnection c"
  by (auto simp: validate_def resolvePermissions_def setPermissions_def enableModifyTree_def Let_def
      split: sum.splits prod.splits if_splits dest!: validateToken_frame)

lemma processAction_connection:
  "processAction L E act req c w = (r, c', w') \<Longrightarrow> connectionID c' = connectionID c \<and> typeOfConnection c' = typeOfConnection c"
  by (auto simp: processAction_def processAuthorize_def split: if_splits prod.splits sum.splits dest!: validate_connection)

end
