(* ===== verification/GrpcServer.thy ===== *)
theory GrpcServer
  imports CommandProcessor GrpcStream
begin

text \<open>
  The gRPC service of \<open>src/grpcHandler.cpp\<close>. The two session maps of \<open>RequestServiceImpl\<close> are
  fields of \<open>grpc_state\<close>, next to the objects behind its pointers (\<open>g_world\<close>) and the
  subscription maps and streams (\<open>g_streams\<close>). A call has a \<open>grpc_context\<close>: the peer, the
  metadata entry \<open>connectionid\<close>, the address of the \<open>ServerContext\<close>, and the stream. An exception
  that leaves a call ends it with an error of the gRPC library.
\<close>

datatype request_type = UNKNOWN_TYPE | CURRENT_VALUE | TARGET_VALUE | METADATA

definition AttributeStringMap :: "request_type \<Rightarrow> string option" where
  "AttributeStringMap ty = (if ty = CURRENT_VALUE then Some ''value''
     else if ty = TARGET_VALUE then Some ''targetValue'' else None)"

type_synonym grpc_session = "string \<times> uuid"

record grpc_state =
  g_world :: world
  g_streams :: grpc_world
  grpcSessionMap :: "grpc_session \<Rightarrow> KuksaChannel option"
  grpcSubscribeSessionMap :: "64 word \<Rightarrow> KuksaChannel option"

record grpc_context =
  ctx_peer :: string
  ctx_connectionid :: "string option"
  ctx_addr :: "64 word"
  ctx_stream :: nat

text \<open>
  What the environment supplies for one request of a call: its clocks and the UUID of a
  subscription (\<open>ge_env\<close>), and the UUID generated for its id.
\<close>

record grpc_env =
  ge_env :: env
  ge_rid :: uuid

text \<open>A value-initialised channel: every scalar is zero.\<close>

definition zero_channel :: KuksaChannel where
  "zero_channel = new_channel 0 WEBSOCKET_PLAIN"

text \<open>\<open>std::make_shared<gRPCSubscriptionMap_t>()\<close>.\<close>

definition new_subs_map :: "grpc_world \<Rightarrow> nat \<times> grpc_world" where
  "new_subs_map gw = (next_map gw, gw\<lparr>subs_maps := (subs_maps gw)(next_map gw := []), next_map := Suc (next_map gw)\<rparr>)"

section \<open>Sessions\<close>

definition authorizeHelper :: "'a lib_scheme \<Rightarrow> grpc_env \<Rightarrow> string \<Rightarrow> string \<Rightarrow> grpc_state \<Rightarrow> (exn + json) \<times> grpc_state" where
  "authorizeHelper L E peer token S =
     (let (addr, gw) = new_subs_map (g_streams S);
          S1 = S\<lparr>g_streams := gw\<rparr>;
          newChannel = setType GRPC ((setConnID 0 zero_channel)\<lparr>grpcSubsMap := Some addr\<rparr>)
      in case processAuthorize L (ge_env E) newChannel (uuid_show L (ge_rid E)) token (g_world S1) of
           (Inl e, _) \<Rightarrow> (Inl e, S1)
         | (Inr resJson, newChannel') \<Rightarrow>
             (Inr resJson,
              if \<not> json_contains resJson ''error''
              then S1\<lparr>grpcSessionMap := (grpcSessionMap S1)((peer, ge_rid E) \<mapsto> newChannel')\<rparr> else S1))"

text \<open>\<open>grpcSessionMap[session]\<close> inserts a value-initialised channel for a session it does not know.\<close>

definition authChecker :: "'a lib_scheme \<Rightarrow> grpc_context \<Rightarrow> grpc_state \<Rightarrow> (exn + KuksaChannel option) \<times> grpc_state" where
  "authChecker L ctx S =
     (case ctx_connectionid ctx of
        None \<Rightarrow> (Inr None, S)
      | Some connIdString \<Rightarrow>
          (case uuid_parse L connIdString of
             Inl e \<Rightarrow> (if is_std_exception e then Inr None else Inl e, S)
           | Inr connId \<Rightarrow>
               let session = (ctx_peer ctx, connId)
               in case grpcSessionMap S session of
                    Some kc \<Rightarrow> (Inr (Some kc), S)
                  | None \<Rightarrow> (Inr (Some zero_channel), S\<lparr>grpcSessionMap := (grpcSessionMap S)(session \<mapsto> zero_channel)\<rparr>)))"

definition getKuksaChannelForSubscriptionContext :: "'a lib_scheme \<Rightarrow> grpc_context \<Rightarrow> grpc_state \<Rightarrow> (exn + KuksaChannel option) \<times> grpc_state" where
  "getKuksaChannelForSubscriptionContext L ctx S =
     (case grpcSubscribeSessionMap S (ctx_addr ctx) of
        Some kc \<Rightarrow> (Inr (Some kc), S)
      | None \<Rightarrow>
          (case authChecker L ctx S of
             (Inl e, S1) \<Rightarrow> (Inl e, S1)
           | (Inr None, S1) \<Rightarrow> (Inr None, S1)
           | (Inr (Some kc), S1) \<Rightarrow>
               let (addr, gw) = new_subs_map (g_streams S1);
                   newChannel = (setConnID (ctx_addr ctx) kc)\<lparr>grpcSubsMap := Some addr\<rparr>
               in (Inr (Some newChannel),
                   S1\<lparr>g_streams := gw, grpcSubscribeSessionMap := (grpcSubscribeSessionMap S1)(ctx_addr ctx \<mapsto> newChannel)\<rparr>)))"

section \<open>Statuses\<close>

definition grpc_status_of :: "int \<Rightarrow> string \<Rightarrow> grpc_status" where
  "grpc_status_of code text = \<lparr>statuscode = code, statusdescription = text\<rparr>"

text \<open>The status of an answer with an error object.\<close>

definition failure_status :: "'a lib_scheme \<Rightarrow> json \<Rightarrow> exn + grpc_status" where
  "failure_status L resJson =
     bindE (bindE (json_at resJson ''error'') (\<lambda>e. bindE (json_at e ''number'') (j_num L U32))) (\<lambda>code.
     bindE (bindE (json_at resJson ''error'') (\<lambda>e. req_string L e ''reason'')) (\<lambda>reason.
     bindE (bindE (json_at resJson ''error'') (\<lambda>e. req_string L e ''message'')) (\<lambda>message.
     Inr (grpc_status_of (int_num code) (reason @ '' '' @ message)))))"

definition no_authorization :: grpc_status where
  "no_authorization = grpc_status_of 404 ''No Authorization!.''"

definition some_failed :: grpc_status where
  "some_failed = grpc_status_of 400 ''One or more paths could not be resolved. Try individual requests.''"

section \<open>get\<close>

record get_response =
  get_values :: "grpc_value list"
  get_status :: grpc_status

text \<open>The datatype for the value: empty text when it cannot be found.\<close>

definition datatype_or_empty :: "'a lib_scheme \<Rightarrow> VssDatabase \<Rightarrow> string \<Rightarrow> exn + string" where
  "datatype_or_empty L db path =
     (case getDatatypeForPath L db (fromVSS L path) of
        Inr dt \<Rightarrow> Inr dt
      | Inl e \<Rightarrow> if is_std_exception e then Inr [] else Inl e)"

text \<open>\<open>resJson["data"]["dp"][k].as<T>()\<close>.\<close>

definition dp_num :: "'a lib_scheme \<Rightarrow> numtype \<Rightarrow> json \<Rightarrow> string \<Rightarrow> exn + int" where
  "dp_num L t resJson k = bindE (dp_member resJson k) (\<lambda>j. bindE (j_num L t j) (\<lambda>n. Inr (int_num n)))"

text \<open>The value of a successful answer: filled field by field, an exception leaves the rest.\<close>

definition get_value :: "'a lib_scheme \<Rightarrow> VssDatabase \<Rightarrow> request_type \<Rightarrow> string \<Rightarrow> string \<Rightarrow> json \<Rightarrow> (exn + unit) \<times> grpc_value" where
  "get_value L db ty path attr resJson =
     (if ty \<noteq> METADATA then
        (case datatype_or_empty L db path of
           Inl e \<Rightarrow> (Inl e, new_grpc_value)
         | Inr dt \<Rightarrow>
             (case grpc_fill_value L dt resJson attr new_grpc_value of
                (Inl e, v) \<Rightarrow> (Inl e, v)
              | (Inr _, v) \<Rightarrow>
                  (case dp_num L U64 resJson ''ts_s'' of
                     Inl e \<Rightarrow> (Inl e, v)
                   | Inr s \<Rightarrow>
                       let v1 = v\<lparr>v_seconds := int64_of s\<rparr>
                       in case dp_num L U32 resJson ''ts_ns'' of
                            Inl e \<Rightarrow> (Inl e, v1)
                          | Inr ns \<Rightarrow> (Inr (), v1\<lparr>v_nanos := int32_of ns\<rparr>))))
      else
        (case req_string L resJson ''metadata'' of
           Inl e \<Rightarrow> (Inl e, new_grpc_value)
         | Inr m \<Rightarrow> (Inr (), new_grpc_value\<lparr>v_val := VString m\<rparr>)))"

text \<open>The request of one path, and its run: whether it failed, or the exception.\<close>

definition get_req_json :: "'a lib_scheme \<Rightarrow> grpc_env \<Rightarrow> request_type \<Rightarrow> string \<Rightarrow> json" where
  "get_req_json L E ty path =
     (let base = json_build [(''action'', JStr (if ty = METADATA then ''getMetaData'' else ''get''))];
          r1 = (case AttributeStringMap ty of Some attr \<Rightarrow> json_set base ''attribute'' (JStr attr) | None \<Rightarrow> base)
      in json_set (json_set r1 ''requestId'' (JStr (uuid_show L (ge_rid E)))) ''path'' (JStr path))"

definition attr_of :: "request_type \<Rightarrow> string" where
  "attr_of ty = (case AttributeStringMap ty of Some attr \<Rightarrow> attr | None \<Rightarrow> ''value'')"

definition grpc_get_path :: "'a lib_scheme \<Rightarrow> grpc_env \<Rightarrow> KuksaChannel option \<Rightarrow> request_type \<Rightarrow> string \<Rightarrow> world \<Rightarrow> get_response
    \<Rightarrow> (exn + bool) \<times> world \<times> get_response" where
  "grpc_get_path L E kc ty path w reply =
     (let req_json = get_req_json L E ty path
      in case (if ty \<noteq> METADATA then
                 (case kc of None \<Rightarrow> (Inl Undefined, w) | Some c \<Rightarrow> processGet L (ge_env E) c req_json w)
               else (processGetMetaData L (ge_env E) req_json w, w)) of
           (Inl e, w') \<Rightarrow> (Inl e, w', reply)
         | (Inr resJson, w') \<Rightarrow>
             if json_contains resJson ''error'' then
               (case failure_status L resJson of
                  Inl e \<Rightarrow> (Inl e, w', reply)
                | Inr st \<Rightarrow> (Inr True, w', reply\<lparr>get_status := st\<rparr>))
             else
               (case get_value L (w_db w') ty path (attr_of ty) resJson of
                  (r, v) \<Rightarrow> (bindE r (\<lambda>_. Inr False), w', reply\<lparr>get_values := get_values reply @ [v]\<rparr>)))"

fun grpc_get_loop :: "'a lib_scheme \<Rightarrow> (nat \<Rightarrow> grpc_env) \<Rightarrow> KuksaChannel option \<Rightarrow> request_type \<Rightarrow> nat \<Rightarrow> string list \<Rightarrow> bool \<Rightarrow> world \<Rightarrow> get_response
    \<Rightarrow> (exn + bool) \<times> world \<times> get_response" where
  "grpc_get_loop L Es kc ty i [] singleFailure w reply = (Inr singleFailure, w, reply)"
| "grpc_get_loop L Es kc ty i (path # wanted) singleFailure w reply =
     (case grpc_get_path L (Es i) kc ty path w reply of
        (Inl e, w', reply') \<Rightarrow>
          if is_std_exception e then grpc_get_loop L Es kc ty (Suc i) wanted True w' reply'
          else (Inl e, w', reply')
      | (Inr failed, w', reply') \<Rightarrow> grpc_get_loop L Es kc ty (Suc i) wanted (singleFailure \<or> failed) w' reply')"

definition grpc_get :: "'a lib_scheme \<Rightarrow> (nat \<Rightarrow> grpc_env) \<Rightarrow> grpc_context \<Rightarrow> request_type \<Rightarrow> string list \<Rightarrow> grpc_state
    \<Rightarrow> (exn + get_response) \<times> grpc_state" where
  "grpc_get L Es ctx ty wanted S =
     (let reply = \<lparr>get_values = [], get_status = new_grpc_status\<rparr>
      in case authChecker L ctx S of
           (Inl e, S1) \<Rightarrow> (Inl e, S1)
         | (Inr kc, S1) \<Rightarrow>
             if kc = None \<and> ty \<noteq> METADATA then
               (Inr (reply\<lparr>get_status := grpc_status_of 404 ''No Authorization.''\<rparr>), S1)
             else if wanted = [] then
               (Inr (reply\<lparr>get_status := grpc_status_of 400 ''No valid path found.''\<rparr>), S1)
             else
               (case grpc_get_loop L Es kc ty 0 wanted False (g_world S1) reply of
                  (Inl e, w, _) \<Rightarrow> (Inl e, S1\<lparr>g_world := w\<rparr>)
                | (Inr singleFailure, w, reply') \<Rightarrow>
                    (Inr (if singleFailure \<and> length wanted > 1 then reply'\<lparr>get_status := some_failed\<rparr>
                          else if \<not> singleFailure then
                            reply'\<lparr>get_status := grpc_status_of 200 ''Get request successfully processed''\<rparr>
                          else reply'), S1\<lparr>g_world := w\<rparr>)))"

section \<open>set\<close>

text \<open>The accessors of the \<open>oneof\<close>: the value of the field, or its default.\<close>

definition oneof_json :: "string \<Rightarrow> grpc_val \<Rightarrow> json" where
  "oneof_json dt v =
     (if dt = ''uint8'' \<or> dt = ''uint16'' \<or> dt = ''uint32'' then JInt (case v of VUint32 i \<Rightarrow> i | _ \<Rightarrow> 0)
      else if dt = ''int8'' \<or> dt = ''int16'' \<or> dt = ''int32'' then JInt (case v of VInt32 i \<Rightarrow> i | _ \<Rightarrow> 0)
      else if dt = ''uint64'' then JInt (case v of VUint64 i \<Rightarrow> i | _ \<Rightarrow> 0)
      else if dt = ''int64'' then JInt (case v of VInt64 i \<Rightarrow> i | _ \<Rightarrow> 0)
      else if dt = ''float'' then JReal (case v of VFloat f \<Rightarrow> f | _ \<Rightarrow> Fin 0)
      else if dt = ''double'' then JReal (case v of VDouble f \<Rightarrow> f | _ \<Rightarrow> Fin 0)
      else if dt = ''boolean'' then JBool (case v of VBool b \<Rightarrow> b | _ \<Rightarrow> False)
      else JStr (case v of VString s \<Rightarrow> s | _ \<Rightarrow> []))"

definition set_req_json :: "'a lib_scheme \<Rightarrow> grpc_env \<Rightarrow> string \<Rightarrow> json \<Rightarrow> grpc_value \<Rightarrow> json" where
  "set_req_json L E attr base val =
     json_set (json_set base ''requestId'' (JStr (uuid_show L (ge_rid E)))) ''path'' (JStr (v_path val))"

text \<open>One value; \<open>req_json\<close> keeps its members from one value to the next.\<close>

definition grpc_set_value :: "'a lib_scheme \<Rightarrow> grpc_env \<Rightarrow> KuksaChannel \<Rightarrow> string \<Rightarrow> grpc_value \<Rightarrow> json \<Rightarrow> world \<Rightarrow> grpc_status
    \<Rightarrow> (exn + bool) \<times> json \<times> world \<times> grpc_status" where
  "grpc_set_value L E kc attr val base w st =
     (let req1 = set_req_json L E attr base val
      in case getDatatypeForPath L (w_db w) (fromVSS L (v_path val)) of
           Inl e \<Rightarrow> (Inl e, req1, w, st)
         | Inr dt \<Rightarrow>
             let req2 = json_set req1 attr (oneof_json dt (v_val val))
             in case processSet L (ge_env E) kc req2 w of
                  (Inl e, w') \<Rightarrow> (Inl e, req2, w', st)
                | (Inr resJson, w') \<Rightarrow>
                    if json_contains resJson ''error'' then
                      (case failure_status L resJson of
                         Inl e \<Rightarrow> (Inl e, req2, w', st)
                       | Inr st' \<Rightarrow> (Inr True, req2, w', st'))
                    else (Inr False, req2, w', grpc_status_of 200 ''Set request successfully processed''))"

fun grpc_set_loop :: "'a lib_scheme \<Rightarrow> (nat \<Rightarrow> grpc_env) \<Rightarrow> KuksaChannel \<Rightarrow> string \<Rightarrow> nat \<Rightarrow> grpc_value list \<Rightarrow> bool \<Rightarrow> json \<Rightarrow> world \<Rightarrow> grpc_status
    \<Rightarrow> (exn + bool) \<times> world \<times> grpc_status" where
  "grpc_set_loop L Es kc attr i [] singleFailure req w st = (Inr singleFailure, w, st)"
| "grpc_set_loop L Es kc attr i (val # vals) singleFailure req w st =
     (case grpc_set_value L (Es i) kc attr val req w st of
        (Inl e, req', w', st') \<Rightarrow>
          if is_std_exception e then grpc_set_loop L Es kc attr (Suc i) vals True req' w' st'
          else (Inl e, w', st')
      | (Inr failed, req', w', st') \<Rightarrow> grpc_set_loop L Es kc attr (Suc i) vals (singleFailure \<or> failed) req' w' st')"

definition grpc_set :: "'a lib_scheme \<Rightarrow> (nat \<Rightarrow> grpc_env) \<Rightarrow> grpc_context \<Rightarrow> request_type \<Rightarrow> grpc_value list \<Rightarrow> grpc_state
    \<Rightarrow> (exn + grpc_status) \<times> grpc_state" where
  "grpc_set L Es ctx ty vals S =
     (case authChecker L ctx S of
        (Inl e, S1) \<Rightarrow> (Inl e, S1)
      | (Inr None, S1) \<Rightarrow> (Inr no_authorization, S1)
      | (Inr (Some kc), S1) \<Rightarrow>
          if ty = METADATA then (Inr new_grpc_status, S1)
          else
            (let attr = attr_of ty;
                 req_json = json_build [(''action'', JStr ''set''), (''attribute'', JStr attr)]
             in case grpc_set_loop L Es kc attr 0 vals False req_json (g_world S1) new_grpc_status of
                  (Inl e, w, _) \<Rightarrow> (Inl e, S1\<lparr>g_world := w\<rparr>)
                | (Inr singleFailure, w, st) \<Rightarrow>
                    (Inr (if singleFailure \<and> length vals > 1 then some_failed
                          else if \<not> singleFailure then grpc_status_of 200 ''Set request successfully processed.''
                          else st), S1\<lparr>g_world := w\<rparr>)))"

section \<open>subscribe\<close>

record subscribe_request =
  sub_type :: request_type
  sub_path :: string
  sub_start :: bool

text \<open>
  What the loop over the messages carries: \<open>req_json\<close> and \<open>currentSubs\<close>; the objects it changes
  are the world and the streams.
\<close>

record sub_loop =
  sl_req :: json
  currentSubs :: "string \<times> string \<Rightarrow> string option"
  sl_world :: world
  sl_streams :: grpc_world

definition sl_write :: "nat \<Rightarrow> grpc_status \<Rightarrow> sub_loop \<Rightarrow> sub_loop" where
  "sl_write stream st s = s\<lparr>sl_streams := stream_Write stream \<lparr>resp_status = st, resp_values = None\<rparr> (sl_streams s)\<rparr>"

text \<open>\<open>(*subsMap)[id] = stream\<close> and \<open>subsMap->erase\<close>, through the pointer of the channel.\<close>

definition subs_map_put :: "KuksaChannel \<Rightarrow> uuid \<Rightarrow> nat \<Rightarrow> grpc_world \<Rightarrow> grpc_world" where
  "subs_map_put kc u stream gw = (case grpcSubsMap kc of None \<Rightarrow> gw
     | Some addr \<Rightarrow> gw\<lparr>subs_maps := (subs_maps gw)(addr := AList.update u stream (subs_maps gw addr))\<rparr>)"

definition subs_map_del :: "KuksaChannel \<Rightarrow> uuid \<Rightarrow> grpc_world \<Rightarrow> grpc_world" where
  "subs_map_del kc u gw = (case grpcSubsMap kc of None \<Rightarrow> gw
     | Some addr \<Rightarrow> gw\<lparr>subs_maps := (subs_maps gw)(addr := AList.delete u (subs_maps gw addr))\<rparr>)"

definition subs_map_size :: "KuksaChannel \<Rightarrow> grpc_world \<Rightarrow> nat" where
  "subs_map_size kc gw = (case grpcSubsMap kc of None \<Rightarrow> 0 | Some addr \<Rightarrow> length (subs_maps gw addr))"

definition subs_map_clear :: "KuksaChannel \<Rightarrow> grpc_world \<Rightarrow> grpc_world" where
  "subs_map_clear kc gw = (case grpcSubsMap kc of None \<Rightarrow> gw
     | Some addr \<Rightarrow> gw\<lparr>subs_maps := (subs_maps gw)(addr := [])\<rparr>)"

text \<open>A message with \<open>start\<close>: the body of its \<open>try\<close>.\<close>

definition grpc_start :: "'a lib_scheme \<Rightarrow> grpc_env \<Rightarrow> KuksaChannel \<Rightarrow> nat \<Rightarrow> subscribe_request \<Rightarrow> sub_loop \<Rightarrow> (exn + unit) \<times> sub_loop" where
  "grpc_start L E kc stream m s =
     (let path = sub_path m; attr = attr_of (sub_type m)
      in case processSubscribe L (ge_env E) kc (sl_req s) (sl_world s) of
           (Inl e, w') \<Rightarrow> (Inl e, s\<lparr>sl_world := w'\<rparr>)
         | (Inr resp_json, w') \<Rightarrow>
             let s1 = s\<lparr>sl_world := w'\<rparr>
             in if json_contains resp_json ''error'' then
                  (case failure_status L resp_json of
                     Inl e \<Rightarrow> (Inl e, s1)
                   | Inr st \<Rightarrow> (Inr (), sl_write stream st s1))
                else
                  (let s2 = sl_write stream (grpc_status_of 200 ''Subscribe request successfully processed'') s1
                   in case req_string L resp_json ''subscriptionId'' of
                        Inl e \<Rightarrow> (Inl e, s2)
                      | Inr t \<Rightarrow>
                          let s3 = s2\<lparr>currentSubs := (currentSubs s2)((path, attr) \<mapsto> t)\<rparr>
                          in case uuid_parse L t of
                               Inl e \<Rightarrow> (Inl e, s3)
                             | Inr u \<Rightarrow> (Inr (), s3\<lparr>sl_streams := subs_map_put kc u stream (sl_streams s3)\<rparr>)))"

text \<open>A message without: no \<open>try\<close> around it.\<close>

definition grpc_stop :: "'a lib_scheme \<Rightarrow> grpc_env \<Rightarrow> KuksaChannel \<Rightarrow> nat \<Rightarrow> subscribe_request \<Rightarrow> sub_loop \<Rightarrow> (exn + unit) \<times> sub_loop" where
  "grpc_stop L E kc stream m s =
     (let key = (sub_path m, attr_of (sub_type m))
      in case currentSubs s key of
           None \<Rightarrow> (Inr (), sl_write stream (grpc_status_of 400 ''Subscribe request error. No valid subscription existed'') s)
         | Some t \<Rightarrow>
             let req = json_set (sl_req s) ''subscriptionId'' (JStr t); s0 = s\<lparr>sl_req := req\<rparr>
             in case processUnsubscribe L (ge_env E) kc req (sl_world s0) of
                  (Inl e, w') \<Rightarrow> (Inl e, s0\<lparr>sl_world := w'\<rparr>)
                | (Inr resp_json, w') \<Rightarrow>
                    let s1 = s0\<lparr>sl_world := w'\<rparr>
                    in if json_contains resp_json ''error'' then
                         (case failure_status L resp_json of
                            Inl e \<Rightarrow> (Inl e, s1)
                          | Inr st \<Rightarrow> (Inr (), sl_write stream st s1))
                       else
                         (case uuid_parse L t of
                            Inl e \<Rightarrow> (Inl e, s1)
                          | Inr u \<Rightarrow>
                              let s2 = s1\<lparr>sl_streams := subs_map_del kc u (sl_streams s1),
                                          currentSubs := (currentSubs s1)(key := None)\<rparr>
                              in (Inr (), sl_write stream (grpc_status_of 200 ''Unsubscribe request successfully processed'') s2)))"

text \<open>
  One message. \<open>req_json\<close> outlives the message: the member \<open>attribute\<close> is only overwritten by a
  type that has an attribute.
\<close>

definition grpc_message :: "'a lib_scheme \<Rightarrow> grpc_env \<Rightarrow> KuksaChannel \<Rightarrow> nat \<Rightarrow> subscribe_request \<Rightarrow> sub_loop \<Rightarrow> (exn + unit) \<times> sub_loop" where
  "grpc_message L E kc stream m s =
     (let r1 = json_set (sl_req s) ''requestId'' (JStr (uuid_show L (ge_rid E)))
      in if sub_start m then
           (let r2 = json_set (json_set r1 ''action'' (JStr ''subscribe'')) ''path'' (JStr (sub_path m));
                r3 = (case AttributeStringMap (sub_type m) of Some attr \<Rightarrow> json_set r2 ''attribute'' (JStr attr) | None \<Rightarrow> r2)
            in case grpc_start L E kc stream m (s\<lparr>sl_req := r3\<rparr>) of
                 (Inl e, s') \<Rightarrow> (if is_std_exception e then Inr () else Inl e, s')
               | (Inr _, s') \<Rightarrow> (Inr (), s'))
         else grpc_stop L E kc stream m (s\<lparr>sl_req := json_set r1 ''action'' (JStr ''unsubscribe'')\<rparr>))"

text \<open>The messages the stream delivers until it ends, or until the last subscription is gone.\<close>

fun grpc_sub_loop :: "'a lib_scheme \<Rightarrow> (nat \<Rightarrow> grpc_env) \<Rightarrow> KuksaChannel \<Rightarrow> nat \<Rightarrow> nat \<Rightarrow> subscribe_request list \<Rightarrow> sub_loop \<Rightarrow> (exn + unit) \<times> sub_loop" where
  "grpc_sub_loop L Es kc stream i [] s = (Inr (), s)"
| "grpc_sub_loop L Es kc stream i (m # ms) s =
     (case grpc_message L (Es i) kc stream m s of
        (Inl e, s') \<Rightarrow> (Inl e, s')
      | (Inr _, s') \<Rightarrow>
          if subs_map_size kc (sl_streams s') \<le> 0 then (Inr (), s')
          else grpc_sub_loop L Es kc stream (Suc i) ms s')"

definition grpc_subscribe :: "'a lib_scheme \<Rightarrow> (nat \<Rightarrow> grpc_env) \<Rightarrow> grpc_context \<Rightarrow> subscribe_request list \<Rightarrow> grpc_state
    \<Rightarrow> (exn + unit) \<times> grpc_state" where
  "grpc_subscribe L Es ctx ms S =
     (case getKuksaChannelForSubscriptionContext L ctx S of
        (Inl e, S1) \<Rightarrow> (Inl e, S1)
      | (Inr None, S1) \<Rightarrow>
          (Inr (), S1\<lparr>g_streams := stream_Write (ctx_stream ctx) \<lparr>resp_status = no_authorization, resp_values = None\<rparr> (g_streams S1)\<rparr>)
      | (Inr (Some kc), S1) \<Rightarrow>
          (case grpc_sub_loop L Es kc (ctx_stream ctx) 0 ms
                  \<lparr>sl_req = json_new, currentSubs = Map.empty, sl_world = g_world S1, sl_streams = g_streams S1\<rparr> of
             (Inl e, s) \<Rightarrow> (Inl e, S1\<lparr>g_world := sl_world s, g_streams := sl_streams s\<rparr>)
           | (Inr _, s) \<Rightarrow>
               (Inr (), S1\<lparr>g_world := (sl_world s)\<lparr>w_sub := unsubscribeAll kc (w_sub (sl_world s))\<rparr>,
                           g_streams := subs_map_clear kc (sl_streams s)\<rparr>)))"

section \<open>authorize\<close>

record auth_response =
  auth_status :: grpc_status
  auth_connectionid :: string

definition grpc_authorize :: "'a lib_scheme \<Rightarrow> grpc_env \<Rightarrow> grpc_context \<Rightarrow> string \<Rightarrow> grpc_state \<Rightarrow> (exn + auth_response) \<times> grpc_state" where
  "grpc_authorize L E ctx token S =
     (case authorizeHelper L E (ctx_peer ctx) token S of
        (Inl e, S1) \<Rightarrow> (Inl e, S1)
      | (Inr resJson, S1) \<Rightarrow>
          (if \<not> json_contains resJson ''error'' then
             bindE (req_string L resJson ''requestId'') (\<lambda>rid.
               Inr \<lparr>auth_status = grpc_status_of 200 ''Authorization Successful.'', auth_connectionid = rid\<rparr>)
           else
             bindE (failure_status L resJson) (\<lambda>st. Inr \<lparr>auth_status = st, auth_connectionid = []\<rparr>), S1))"

section \<open>Starting the server\<close>

text \<open>\<open>file\<close> is the content of a file, \<open>None\<close> when it cannot be opened; then \<open>data\<close> stays.\<close>

definition grpc_read :: "(string \<Rightarrow> string option) \<Rightarrow> string \<Rightarrow> string \<Rightarrow> string" where
  "grpc_read file filename data = (case file filename of Some content \<Rightarrow> content | None \<Rightarrow> data)"

datatype credentials = InsecureCredentials | SslCredentials string string string

text \<open>
  The listening port and its credentials: private key, certificate chain and root certificates, in
  the order of \<open>PemKeyCertPair\<close>.
\<close>

definition RunServer :: "(string \<Rightarrow> string option) \<Rightarrow> string \<Rightarrow> bool \<Rightarrow> string \<times> credentials" where
  "RunServer file certPath allowInsecureConn =
     (''0.0.0.0:50051'',
      if allowInsecureConn then InsecureCredentials
      else
        let cert = grpc_read file (certPath @ ''/Server.key'') [];
            key = grpc_read file (certPath @ ''/Server.pem'') [];
            root = grpc_read file (certPath @ ''/CA.pem'') []
        in SslCredentials cert key root)"

end
