(* ===== verification/GrpcLaws.thy ===== *)
theory GrpcLaws
  imports GrpcServer CommandLaws
begin

text \<open>
  What the gRPC service guarantees: its sessions, that only a session with write access changes the
  database, the two single-value calls, and the bookkeeping of the subscription loop.
\<close>

section \<open>Sessions\<close>

text \<open>The channel of a session: none without metadata or with an id that is no UUID.\<close>

definition session_key :: "'a lib_scheme \<Rightarrow> grpc_context \<Rightarrow> grpc_session option" where
  "session_key L ctx = (case ctx_connectionid ctx of None \<Rightarrow> None
     | Some t \<Rightarrow> (case uuid_parse L t of Inl e \<Rightarrow> None | Inr u \<Rightarrow> Some (ctx_peer ctx, u)))"

definition session_of :: "'a lib_scheme \<Rightarrow> grpc_context \<Rightarrow> grpc_state \<Rightarrow> KuksaChannel option" where
  "session_of L ctx S = (case session_key L ctx of None \<Rightarrow> None | Some k \<Rightarrow> grpcSessionMap S k)"

lemma authChecker_cases:
  assumes "authChecker L ctx S = (Inr r, S1)"
  shows "g_world S1 = g_world S" "g_streams S1 = g_streams S" "grpcSubscribeSessionMap S1 = grpcSubscribeSessionMap S"
    "r = None \<longrightarrow> session_key L ctx = None"
    "r = Some kc \<Longrightarrow> session_of L ctx S = Some kc \<and> S1 = S \<or> session_of L ctx S = None \<and> kc = zero_channel"
proof -
  consider "session_key L ctx = None" "r = None" "S1 = S"
    | "session_of L ctx S = None" "r = Some zero_channel" "g_world S1 = g_world S" "g_streams S1 = g_streams S"
        "grpcSubscribeSessionMap S1 = grpcSubscribeSessionMap S"
    | c where "session_of L ctx S = Some c" "r = Some c" "S1 = S"
    using assms
    by (simp add: authChecker_def session_of_def session_key_def Let_def split: option.splits sum.splits if_splits) auto
  then have "g_world S1 = g_world S \<and> g_streams S1 = g_streams S \<and> grpcSubscribeSessionMap S1 = grpcSubscribeSessionMap S
    \<and> (r = None \<longrightarrow> session_key L ctx = None)
    \<and> (r = Some kc \<longrightarrow> session_of L ctx S = Some kc \<and> S1 = S \<or> session_of L ctx S = None \<and> kc = zero_channel)"
    by cases auto
  then show "g_world S1 = g_world S" "g_streams S1 = g_streams S" "grpcSubscribeSessionMap S1 = grpcSubscribeSessionMap S"
    "r = None \<longrightarrow> session_key L ctx = None"
    "r = Some kc \<Longrightarrow> session_of L ctx S = Some kc \<and> S1 = S \<or> session_of L ctx S = None \<and> kc = zero_channel"
    by auto
qed

lemma authChecker_session:
  "session_of L ctx S = Some kc \<Longrightarrow> authChecker L ctx S = (Inr (Some kc), S)"
  by (auto simp: authChecker_def session_of_def session_key_def split: option.splits sum.splits)

lemma authChecker_frame: "authChecker L ctx S = (r, S1) \<Longrightarrow> g_world S1 = g_world S \<and> g_streams S1 = g_streams S"
  by (auto simp: authChecker_def Let_def split: option.splits sum.splits)

lemma zero_channel_denied:
  assumes "regex_doc L" "json_doc L"
  shows "checkSignalAccess L zero_channel path (c # req) = Inr False"
proof -
  have "holds_policy L zero_channel []" "good_policy []"
    by (simp_all add: holds_policy_def good_policy_def sorted_keys_def zero_channel_def new_channel_def channel_defs)
  from checkSignalAccess_policy[OF assms this(2,1)] show ?thesis by simp
qed

text \<open>After a successful authorize, the peer with the returned id has the channel of its token.\<close>

lemma processAuthorize_cases:
  assumes "processAuthorize L E c rid tok w = (Inr j, c')"
  obtains ttl where "validate L (w_auth w) c tok = (Inr ttl, c')" "json_contains j ''error'' \<longleftrightarrow> ttl = -1"
    "json_lookup j ''requestId'' = Some (JStr rid)"
proof -
  from assms obtain ttl where "validate L (w_auth w) c tok = (Inr ttl, c')"
    by (auto simp: processAuthorize_def split: sum.splits prod.splits)
  then show ?thesis
    using assms by (intro that[of ttl]) (auto simp: processAuthorize_def json_contains_lookup json_build_lookup split: if_splits)
qed

lemma validate_authorised:
  assumes "validate L a c tok = (Inr n, c')" "n \<noteq> -1"
  shows "authorized c' \<and> authToken c' = tok \<and> typeOfConnection c' = typeOfConnection c \<and> connectionID c' = connectionID c
    \<and> jwt_verify L (pubkey a) tok = Inr ()"
proof -
  from assms obtain c1 where tok: "validateToken L a c tok = (Inr n, c1)"
      and c': "c' = c1 \<or> resolvePermissions L c1 = (Inr (), c')"
    by (auto simp: validate_def split: sum.splits if_splits prod.splits)
  from validateToken_success[OF tok assms(2)] c' resolvePermissions_frame[of L c1 "Inr ()" c'] show ?thesis by auto
qed

lemma authorized_session:
  assumes L: "uuid_doc L" and auth: "grpc_authorize L E ctx tok S = (Inr r, S1)" and ok: "auth_connectionid r \<noteq> []"
  shows "\<exists>kc. (\<forall>ctx'. ctx_peer ctx' = ctx_peer ctx \<longrightarrow> ctx_connectionid ctx' = Some (auth_connectionid r) \<longrightarrow>
      session_of L ctx' S1 = Some kc)
    \<and> authorized kc \<and> authToken kc = tok \<and> typeOfConnection kc = GRPC \<and> jwt_verify L (pubkey (w_auth (g_world S))) tok = Inr ()
    \<and> auth_connectionid r = uuid_show L (ge_rid E)
    \<and> (\<forall>k. k \<noteq> (ctx_peer ctx, ge_rid E) \<longrightarrow> grpcSessionMap S1 k = grpcSessionMap S k)"
proof -
  define c where "c = setType GRPC ((setConnID 0 zero_channel)\<lparr>grpcSubsMap := Some (fst (new_subs_map (g_streams S)))\<rparr>)"
  from auth ok obtain j where helper: "authorizeHelper L E (ctx_peer ctx) tok S = (Inr j, S1)" "\<not> json_contains j ''error''"
      and rid: "json_lookup j ''requestId'' = Some (JStr (auth_connectionid r))
        \<or> (\<exists>v. json_lookup j ''requestId'' = Some v \<and> auth_connectionid r = as_string L v)"
    by (auto simp: grpc_authorize_def bindE_Inr_conv req_string_def json_at_Inr split: sum.splits prod.splits if_splits)
  from helper obtain kc where pa: "processAuthorize L (ge_env E) c (uuid_show L (ge_rid E)) tok (g_world S) = (Inr j, kc)"
      and S1: "grpcSessionMap S1 = (grpcSessionMap S)((ctx_peer ctx, ge_rid E) \<mapsto> kc)"
    by (auto simp: authorizeHelper_def Let_def c_def split: prod.splits sum.splits)
  from processAuthorize_cases[OF pa] helper(2) obtain ttl where val: "validate L (w_auth (g_world S)) c tok = (Inr ttl, kc)" "ttl \<noteq> -1"
      and "json_lookup j ''requestId'' = Some (JStr (uuid_show L (ge_rid E)))" by metis
  with rid have id: "auth_connectionid r = uuid_show L (ge_rid E)" by auto
  from validate_authorised[OF val] have "authorized kc \<and> authToken kc = tok \<and> typeOfConnection kc = GRPC \<and> jwt_verify L (pubkey (w_auth (g_world S))) tok = Inr ()"
    by (simp add: c_def channel_defs)
  with id S1 show ?thesis
    by (intro exI[of _ kc]) (auto simp: session_of_def session_key_def uuid_docD[OF L])
qed

section \<open>Setting values\<close>

lemma set_req_json_parts:
  assumes "is_object base" "signal_attr attr"
  shows "req_string L (json_set (set_req_json L E attr base val) attr j) ''path'' = Inr (v_path val)"
    "is_object (json_set (set_req_json L E attr base val) attr j)"
  using assms by (auto simp: set_req_json_def req_string_def json_at_lookup json_lookup_set signal_attr_def)

lemma attr_of_signal: "signal_attr (attr_of ty)"
  by (simp add: attr_of_def AttributeStringMap_def signal_attr_def)

lemma grpc_set_value_guard:
  assumes "grpc_set_value L E kc attr val base w st = (r, base', w', st')" "is_object base" "signal_attr attr"
  shows "is_object base' \<and> (w' = w \<or> checkWriteAccess L kc (fromVSS L (v_path val)) = Inr True)"
proof -
  have "is_object (set_req_json L E attr base val)" using assms(2) by (simp add: set_req_json_def)
  with assms(1) have "is_object base'"
    by (auto simp: grpc_set_value_def Let_def split: sum.splits prod.splits if_splits)
  moreover have "w' = w \<or> (\<exists>r'' j. processSet L (ge_env E) kc (json_set (set_req_json L E attr base val) attr j) w = (r'', w'))"
    using assms(1) by (auto simp: grpc_set_value_def Let_def split: sum.splits prod.splits if_splits)
  moreover have "checkWriteAccess L kc (fromVSS L (v_path val)) = Inr True"
    if "processSet L (ge_env E) kc (json_set (set_req_json L E attr base val) attr j) w = (r'', w')" "w' \<noteq> w" for r'' j
    using processSet_guard[OF that] set_req_json_parts(1)[OF assms(2,3), of L E val j] by auto
  ultimately show ?thesis by blast
qed

lemma grpc_set_loop_guard:
  "grpc_set_loop L Es kc attr i vals f base w st = (r, w', st') \<Longrightarrow> is_object base \<Longrightarrow> signal_attr attr \<Longrightarrow>
   w' = w \<or> (\<exists>val \<in> set vals. checkWriteAccess L kc (fromVSS L (v_path val)) = Inr True)"
proof (induction vals arbitrary: i f base w st)
  case (Cons val vals)
  obtain r1 base1 w1 st1 where one: "grpc_set_value L (Es i) kc attr val base w st = (r1, base1, w1, st1)"
    by (cases "grpc_set_value L (Es i) kc attr val base w st")
  note guard = grpc_set_value_guard[OF one Cons.prems(2,3)]
  from Cons.prems(1) one have "(\<exists>f'. grpc_set_loop L Es kc attr (Suc i) vals f' base1 w1 st1 = (r, w', st')) \<or> w' = w1"
    by (auto split: sum.splits if_splits)
  with Cons.IH[of "Suc i" _ base1 w1 st1] guard Cons.prems(3) show ?case by auto
qed simp

text \<open>Only the channel of a known session with write access to one of the paths changes anything.\<close>

lemma grpc_set_guard:
  assumes docs: "regex_doc L" "json_doc L" and set: "grpc_set L Es ctx ty vals S = (r, S')" and changed: "g_world S' \<noteq> g_world S"
  shows "\<exists>kc. session_of L ctx S = Some kc \<and> (\<exists>val \<in> set vals. checkWriteAccess L kc (fromVSS L (v_path val)) = Inr True)"
proof -
  from set changed obtain kc S1 where auth: "authChecker L ctx S = (Inr (Some kc), S1)" "ty \<noteq> METADATA"
    by (auto simp: grpc_set_def dest: authChecker_frame split: sum.splits option.splits prod.splits if_splits)
  with set changed obtain r' st where loop: "grpc_set_loop L Es kc (attr_of ty) 0 vals False
      (json_build [(''action'', JStr ''set''), (''attribute'', JStr (attr_of ty))]) (g_world S1) new_grpc_status = (r', g_world S', st)"
    by (auto simp: grpc_set_def Let_def split: sum.splits prod.splits)
  from grpc_set_loop_guard[OF loop] authChecker_cases(1)[OF auth(1)] changed
  obtain val where val: "val \<in> set vals" "checkWriteAccess L kc (fromVSS L (v_path val)) = Inr True"
    by (auto simp: attr_of_signal)
  then have "kc \<noteq> zero_channel" using zero_channel_denied[OF docs] by (auto simp: checkWriteAccess_def)
  with authChecker_cases(5)[OF auth(1)] val show ?thesis by auto
qed

text \<open>A single value that passes every check.\<close>

lemma settable_datatype:
  assumes "jsonpath_doc L" "settable L db p attr ss node dt"
  shows "getDatatypeForPath L db (fromVSS L p) = Inr dt"
proof -
  from assms(2) have den: "denotes (fromVSS L p) ss" and node: "path_nodes ss (data_tree db) = [(ss, node)]"
    and dt: "json_lookup node ''datatype'' = Some (JStr dt)" and ty: "isSensor node \<or> isActor node"
    by (auto simp: settable_def isSensor_def isActor_def has_type_def json_contains_lookup)
  from ty have "isSensor node \<or> isActor node \<or> isAttribute node" by auto
  with dt node show ?thesis
    by (simp add: getDatatypeForPath_def pathExists_iff[OF assms(1) den] pathIsReadable_iff[OF assms(1) den]
        query_denotes[OF assms(1) den])
qed

lemma set_request_of_value:
  "set_request (json_set (set_req_json L E (attr_of ty) (json_build [(''action'', JStr ''set''), (''attribute'', JStr (attr_of ty))]) val)
     (attr_of ty) j) (uuid_show L (ge_rid E)) (v_path val) (attr_of ty) j"
  using attr_of_signal[of ty]
  by (auto simp: set_request_def set_req_json_def json_lookup_set json_build_lookup signal_attr_def)

lemma grpc_set_single:
  assumes docs: "jsonpath_doc L" "schema_doc L" and sess: "session_of L ctx S = Some kc" and ty: "ty \<noteq> METADATA"
    and sig: "settable L (w_db (g_world S)) (v_path val) (attr_of ty) ss node dt"
    and acc: "checkWriteAccess L kc (fromVSS L (v_path val)) = Inr True"
    and check: "checkAndSanitizeType L node (oneof_json dt (v_val val)) = Inr v'"
    and pubs: "publishers_ok L (publishers (w_sub (g_world S)))"
  shows "\<exists>w'. grpc_set L Es ctx ty [val] S = (Inr (grpc_status_of 200 ''Set request successfully processed.''), S\<lparr>g_world := w'\<rparr>)
    \<and> w_db w' = (w_db (g_world S))\<lparr>data_tree := path_replace ss (stored (env_clock (ge_env (Es 0))) (attr_of ty) v' node) (data_tree (w_db (g_world S)))\<rparr>
    \<and> buffer (w_sub w') = buffer (w_sub (g_world S))
        @ map (\<lambda>(sid, c). (sid, c, dt, data_point (fromVSS L (v_path val)) (env_clock (ge_env (Es 0))) (attr_of ty) v'))
            (subs_for (w_sub (g_world S)) (getVSSPath (fromVSS L (v_path val)), attr_of ty))"
proof -
  from processSet_success[OF docs set_request_of_value[of L "Es 0" ty val] sig acc check pubs, of "ge_env (Es 0)"]
  obtain w' where "processSet L (ge_env (Es 0)) kc (json_set (set_req_json L (Es 0) (attr_of ty)
        (json_build [(''action'', JStr ''set''), (''attribute'', JStr (attr_of ty))]) val) (attr_of ty) (oneof_json dt (v_val val))) (g_world S)
      = (Inr (json_build [(''action'', JStr ''set''), (''requestId'', JStr (uuid_show L (ge_rid (Es 0)))), (''ts'', JStr (stamp (ge_env (Es 0))))]), w')"
    and eff: "w_db w' = (w_db (g_world S))\<lparr>data_tree := path_replace ss (stored (env_clock (ge_env (Es 0))) (attr_of ty) v' node) (data_tree (w_db (g_world S)))\<rparr>"
      "buffer (w_sub w') = buffer (w_sub (g_world S))
        @ map (\<lambda>(sid, c). (sid, c, dt, data_point (fromVSS L (v_path val)) (env_clock (ge_env (Es 0))) (attr_of ty) v'))
            (subs_for (w_sub (g_world S)) (getVSSPath (fromVSS L (v_path val)), attr_of ty))"
    by blast
  with sess ty settable_datatype[OF docs(1) sig] show ?thesis
    by (intro exI[of _ w'])
      (simp add: grpc_set_def authChecker_session grpc_set_value_def json_contains_lookup Let_def)
qed

text \<open>A path that does not exist ends the one-value call with a status nobody set.\<close>

lemma grpc_set_unknown_path:
  assumes sess: "session_of L ctx S = Some kc" and ty: "ty \<noteq> METADATA"
    and path: "pathExists L (w_db (g_world S)) (fromVSS L (v_path val)) = Inr False"
  shows "grpc_set L Es ctx ty [val] S = (Inr new_grpc_status, S)"
  using assms
  by (simp add: grpc_set_def authChecker_session grpc_set_value_def getDatatypeForPath_def Let_def)

text \<open>Without a recorder there is none afterwards.\<close>

lemma set_loop_norec: "set_loop L E attr pairs w = (r, w') \<Longrightarrow> w_rec w = None \<Longrightarrow> w_rec w' = None"
  by (induction L E attr pairs w arbitrary: r w' rule: set_loop.induct)
    (auto simp: database_setSignal_def Let_def split: prod.splits sum.splits)

lemma processSet_norec: "processSet L E c req w = (r, w') \<Longrightarrow> w_rec w = None \<Longrightarrow> w_rec w' = None"
  by (auto simp: processSet_def Let_def simp del: set_loop.simps split: sum.splits option.splits prod.splits dest!: set_loop_norec)

lemma grpc_set_norec:
  assumes "grpc_set L Es ctx ty [val] S = (r, S')" "w_rec (g_world S) = None"
  shows "w_rec (g_world S') = None"
  using assms by (auto simp: grpc_set_def grpc_set_value_def Let_def split: prod.splits option.splits sum.splits if_splits
      dest!: authChecker_frame dest: processSet_norec)

section \<open>Getting values\<close>

lemma get_request_of_path:
  "ty \<noteq> METADATA \<Longrightarrow> get_request (get_req_json L E ty p) (uuid_show L (ge_rid E)) p (attr_of ty)"
  by (auto simp: get_request_def get_req_json_def attr_of_def AttributeStringMap_def signal_attr_def json_lookup_set json_build_lookup Let_def)

lemma settable_leaf:
  assumes "jsonpath_doc L" "settable L db p attr ss node dt"
  shows "getLeafPaths L db (fromVSS L p) = Inr [fromJSON L (getJSONPath (fromVSS L p)) (isGen1Origin (fromVSS L p))]"
    "denotes (fromJSON L (getJSONPath (fromVSS L p)) g) ss"
    "signal_attr attr \<Longrightarrow> pathIsAttributable L db (fromVSS L p) attr = Inr True"
proof -
  from assms(2) have den: "denotes (fromVSS L p) ss" and node: "path_nodes ss (data_tree db) = [(ss, node)]"
    and ty: "json_lookup node ''type'' = Some (JStr ''actuator'') \<or> json_lookup node ''type'' = Some (JStr ''sensor'') \<and> attr = ''value''"
    by (simp_all add: settable_def)
  from ty have leaf: "\<not> is_branch L node" and att: "signal_attr attr \<Longrightarrow> attr = ''value'' \<or> attr = ''targetValue'' \<and> type_text_is L node ''actuator''"
    by (auto simp: is_branch_def type_text_is_def signal_attr_def)
  show "getLeafPaths L db (fromVSS L p) = Inr [fromJSON L (getJSONPath (fromVSS L p)) (isGen1Origin (fromVSS L p))]"
    by (rule getLeafPaths_single[OF assms(1) den node leaf])
  from den show "denotes (fromJSON L (getJSONPath (fromVSS L p)) g) ss"
    by (simp add: denotes_def fromJSON_def getJSONPath_def Let_def)
  show "pathIsAttributable L db (fromVSS L p) attr = Inr True" if "signal_attr attr"
    using att[OF that] by (simp add: pathIsAttributable_single[OF assms(1) den node])
qed

text \<open>One path, its value stored by an earlier \<open>set\<close>.\<close>

definition leaf_of :: "'a lib_scheme \<Rightarrow> string \<Rightarrow> VSSPath" where
  "leaf_of L p = fromJSON L (getJSONPath (fromVSS L p)) (isGen1Origin (fromVSS L p))"

lemma grpc_get_single:
  assumes docs: "jsonpath_doc L" "schema_doc L" "num_doc L" and sess: "session_of L ctx S = Some kc" and ty: "ty \<noteq> METADATA"
    and kc: "typeOfConnection kc = GRPC" "w_rec (g_world S) = None"
    and sig: "settable L (w_db (g_world S)) p (attr_of ty) ss (stored clock (attr_of ty) v node) dt"
    and node: "is_object node" "clock_ok clock" and acc: "checkReadAccess L kc (leaf_of L p) = Inr True"
    and conv: "grpc_convert L dt v = Inr x"
  shows "grpc_get L Es ctx ty [p] S = (Inr \<lparr>get_values = [\<lparr>v_path = to_string (leaf_of L p), v_val = x, v_seconds = int64_of (fst clock), v_nanos = int32_of (snd clock)\<rparr>],
      get_status = grpc_status_of 200 ''Get request successfully processed''\<rparr>, S)"
proof -
  note leaf = settable_leaf[OF docs(1) sig]
  let ?point = "data_point (leaf_of L p) clock (attr_of ty) v"
  have nodes: "path_nodes ss (data_tree (w_db (g_world S))) = [(ss, stored clock (attr_of ty) v node)]"
    using sig by (simp add: settable_def)
  have point: "getSignal L (leaf_of L p) (attr_of ty) False (w_db (g_world S)) = Inr ?point"
    unfolding leaf_of_def by (rule getSignal_data_point[OF docs(1,3) leaf(2) nodes node attr_of_signal])
  have get: "processGet L (ge_env (Es 0)) kc (get_req_json L (Es 0) ty p) (g_world S) =
      (Inr (json_build [(''data'', ?point), (''action'', JStr ''get''), (''requestId'', JStr (uuid_show L (ge_rid (Es 0)))),
         (''ts'', JStr (stamp (ge_env (Es 0))))]), g_world S)"
    using processGet_success[OF docs(2) get_request_of_path[OF ty] leaf(1), of kc "[?point]"]
      acc point kc leaf(3)[OF attr_of_signal] by (simp add: leaf_of_def channel_defs)
  have num: "j_num L U64 (JInt (fst clock)) = Inr (IVal (fst clock))" "j_num L U32 (JInt (snd clock)) = Inr (IVal (snd clock))"
    using node(2) num_doc_int[OF docs(3)] by (simp_all only: clock_ok_def)
  have other: "attr_of ty \<noteq> ''ts_s''" "attr_of ty \<noteq> ''ts_ns''" using attr_of_signal[of ty] by (auto simp: signal_attr_def)
  obtain dp where dp: "json_lookup ?point ''dp'' = Some dp" "json_lookup dp (attr_of ty) = Some v"
      "json_lookup dp ''ts_s'' = Some (JInt (fst clock))" "json_lookup dp ''ts_ns'' = Some (JInt (snd clock))"
      "json_lookup ?point ''path'' = Some (JStr (to_string (leaf_of L p)))"
    using other by (simp add: data_point_def json_lookup_set json_build_lookup)
  let ?j = "json_build [(''data'', ?point), (''action'', JStr ''get''), (''requestId'', JStr (uuid_show L (ge_rid (Es 0)))), (''ts'', JStr (stamp (ge_env (Es 0))))]"
  have data: "json_lookup ?j ''data'' = Some ?point" by (simp add: json_build_lookup)
  have dt: "datatype_or_empty L (w_db (g_world S)) p = Inr dt"
    by (simp add: datatype_or_empty_def settable_datatype[OF docs(1) sig])
  have "get_value L (w_db (g_world S)) ty p (attr_of ty) ?j =
      (Inr (), \<lparr>v_path = to_string (leaf_of L p), v_val = x, v_seconds = int64_of (fst clock), v_nanos = int32_of (snd clock)\<rparr>)"
    using ty dp num
    by (simp add: get_value_def dt grpc_fill_ok[OF data dp(1,2) conv dp(5)] dp_num_def dp_member_def json_at_lookup[OF data] json_at_lookup new_grpc_value_def)
  with get sess ty show ?thesis
    by (simp add: grpc_get_def authChecker_session grpc_get_path_def json_contains_lookup Let_def)
qed

lemma clock_narrowed:
  assumes "clock_ok clock"
  shows "fst clock < 2 ^ 63 \<Longrightarrow> int64_of (fst clock) = fst clock" "snd clock < 10 ^ 9 \<Longrightarrow> int32_of (snd clock) = snd clock"
  using assms int64_of_unsigned[of "fst clock"] int32_of_unsigned[of "snd clock"]
  by (simp_all add: clock_ok_def num_min_def num_max_def)

text \<open>An integer of the declared type, as the client sends it.\<close>

definition int_field :: "string \<Rightarrow> int \<Rightarrow> grpc_val" where
  "int_field dt i =
     (if dt = ''uint8'' \<or> dt = ''uint16'' \<or> dt = ''uint32'' then VUint32 i
      else if dt = ''int8'' \<or> dt = ''int16'' \<or> dt = ''int32'' then VInt32 i
      else if dt = ''uint64'' then VUint64 i else VInt64 i)"

lemma int_datatypes:
  assumes "num_of_datatype dt = Some t" "is_int_type t"
  shows "dt \<in> {''uint8'', ''uint16'', ''uint32'', ''int8'', ''int16'', ''int32'', ''uint64'', ''int64''}"
  using assms by (auto simp: num_of_datatype_def split: if_splits)

lemma int_field_json:
  assumes "num_of_datatype dt = Some t" "is_int_type t" shows "oneof_json dt (int_field dt i) = JInt i"
  using int_datatypes[OF assms] by (auto simp: oneof_json_def int_field_def)

lemma int_field_convert:
  assumes L: "num_doc L" and dt: "num_of_datatype dt = Some t" "is_int_type t" and i: "num_min t \<le> i" "i \<le> num_max t"
  shows "grpc_convert L dt (JInt i) = Inr (int_field dt i)"
proof -
  have num: "j_num L u (JInt i) = Inr (IVal i)" if "is_int_type u" "num_min u \<le> i" "i \<le> num_max u" for u
    using num_doc_int[OF L, of u i] that by simp
  show ?thesis
    using int_datatypes[OF dt] dt i num[of U32] num[of I32] num[of U64] num[of I64]
    by (auto simp: grpc_convert_def int_field_def num_of_datatype_def num_min_def num_max_def split: if_splits)
qed

lemma stored_settable:
  assumes "settable L db p attr ss node dt" "signal_attr attr"
    and "db' = db\<lparr>data_tree := path_replace ss (stored clock attr v node) (data_tree db)\<rparr>"
  shows "settable L db' p attr ss (stored clock attr v node) dt"
proof -
  from assms(1) have obj: "is_object node" by (auto simp: settable_def intro: lookup_is_object)
  with assms stored_meta[OF obj assms(2), of "''datatype''" clock v] stored_meta[OF obj assms(2), of "''type''" clock v]
  show ?thesis by (auto simp: settable_def path_nodes_replace)
qed

end
