(* ===== verification/GrpcStreams.thy ===== *)
theory GrpcStreams
  imports SubscribeLaws GrpcLaws
begin

text \<open>
  The subscription call: what each message does to the subscriptions and to the maps that lead a
  notification to its stream, the invariant of the loop, and what is left when the call ends.
\<close>

section \<open>Streams of a channel\<close>

definition streams_of :: "KuksaChannel \<Rightarrow> grpc_world \<Rightarrow> uuid \<Rightarrow> nat option" where
  "streams_of kc gw u = (case grpcSubsMap kc of None \<Rightarrow> None | Some a \<Rightarrow> map_of (subs_maps gw a) u)"

lemma streams_of_changes [simp]:
  "streams_of kc (subs_map_put kc u stream gw) u' = (if u' = u \<and> grpcSubsMap kc \<noteq> None then Some stream else streams_of kc gw u')"
  "streams_of kc (subs_map_del kc u gw) u' = (if u' = u then None else streams_of kc gw u')"
  "streams_of kc (subs_map_clear kc gw) u' = None"
  "streams_of kc (stream_Write str resp gw) u' = streams_of kc gw u'"
  by (auto simp: streams_of_def subs_map_put_def subs_map_del_def subs_map_clear_def stream_Write_def update_conv' delete_conv'
      split: option.splits)

lemma sl_write_simps [simp]:
  "currentSubs (sl_write str st s) = currentSubs s" "sl_world (sl_write str st s) = sl_world s" "sl_req (sl_write str st s) = sl_req s"
  "streams_of kc (sl_streams (sl_write str st s)) u = streams_of kc (sl_streams s) u"
  by (simp_all add: sl_write_def)

text \<open>Nothing changed that the invariant speaks about.\<close>

definition sub_same :: "KuksaChannel \<Rightarrow> sub_loop \<Rightarrow> sub_loop \<Rightarrow> bool" where
  "sub_same kc s s' \<longleftrightarrow> w_sub (sl_world s') = w_sub (sl_world s) \<and> currentSubs s' = currentSubs s
     \<and> (\<forall>u. streams_of kc (sl_streams s') u = streams_of kc (sl_streams s) u)"

lemma grpc_start_effect:
  assumes L: "uuid_doc L" and kc: "grpcSubsMap kc \<noteq> None" and start: "grpc_start L E kc stream m s = (r, s')"
  shows "w_db (sl_world s') = w_db (sl_world s)"
    "sub_same kc s s' \<or> (\<exists>p u. u = env_uuid (ge_env E) \<and> r = Inr () \<and> req_string L (sl_req s) ''path'' = Inr p
       \<and> currentSubs s' = (currentSubs s)((sub_path m, attr_of (sub_type m)) \<mapsto> uuid_show L u)
       \<and> (\<forall>u'. streams_of kc (sl_streams s') u' = (if u' = u then Some stream else streams_of kc (sl_streams s) u'))
       \<and> subscribe L u kc (w_db (sl_world s)) p (req_attribute L (sl_req s)) (w_sub (sl_world s)) = (Inr u, w_sub (sl_world s')))"
proof -
  obtain r1 w1 where sub: "processSubscribe L (ge_env E) kc (sl_req s) (sl_world s) = (r1, w1)" by fastforce
  from processSubscribe_effect(1)[OF sub] start sub show "w_db (sl_world s') = w_db (sl_world s)"
    by (auto simp: grpc_start_def Let_def split: sum.splits if_splits)
  from processSubscribe_answer[OF sub]
  show "sub_same kc s s' \<or> (\<exists>p u. u = env_uuid (ge_env E) \<and> r = Inr () \<and> req_string L (sl_req s) ''path'' = Inr p
       \<and> currentSubs s' = (currentSubs s)((sub_path m, attr_of (sub_type m)) \<mapsto> uuid_show L u)
       \<and> (\<forall>u'. streams_of kc (sl_streams s') u' = (if u' = u then Some stream else streams_of kc (sl_streams s) u'))
       \<and> subscribe L u kc (w_db (sl_world s)) p (req_attribute L (sl_req s)) (w_sub (sl_world s)) = (Inr u, w_sub (sl_world s')))"
  proof (elim disjE exE conjE)
    fix p j assume "subscribe L (env_uuid (ge_env E)) kc (w_db (sl_world s)) p (req_attribute L (sl_req s)) (w_sub (sl_world s)) = (Inr (env_uuid (ge_env E)), w_sub w1)"
      "r1 = Inr j" "req_string L (sl_req s) ''path'' = Inr p" "\<not> json_contains j ''error''"
      "json_lookup j ''subscriptionId'' = Some (JStr (uuid_show L (env_uuid (ge_env E))))"
    with start sub kc show ?thesis
      by (auto simp: grpc_start_def Let_def req_string_def json_at_lookup uuid_docD[OF L])
  next
    assume "w_sub w1 = w_sub (sl_world s)" "\<forall>j. r1 = Inr j \<longrightarrow> json_contains j ''error''"
    with start sub show ?thesis
      by (auto simp: grpc_start_def Let_def sub_same_def split: sum.splits if_splits)
  qed
qed

lemma grpc_stop_effect:
  assumes L: "uuid_doc L" and stop: "grpc_stop L E kc stream m s = (r, s')" and obj: "is_object (sl_req s)"
    and cur: "\<forall>t. currentSubs s (sub_path m, attr_of (sub_type m)) = Some t \<longrightarrow> t = uuid_show L u"
  shows "w_db (sl_world s') = w_db (sl_world s)"
    "sub_same kc s s' \<or> (\<exists>res. currentSubs s (sub_path m, attr_of (sub_type m)) \<noteq> None
       \<and> unsubscribe u (w_sub (sl_world s)) = (res, w_sub (sl_world s'))
       \<and> (currentSubs s' = (currentSubs s)((sub_path m, attr_of (sub_type m)) := None)
            \<and> (\<forall>u'. streams_of kc (sl_streams s') u' = (if u' = u then None else streams_of kc (sl_streams s) u'))
          \<or> currentSubs s' = currentSubs s \<and> (\<forall>u'. streams_of kc (sl_streams s') u' = streams_of kc (sl_streams s) u')))"
proof -
  let ?key = "(sub_path m, attr_of (sub_type m))"
  have "w_db (sl_world s') = w_db (sl_world s) \<and> (sub_same kc s s' \<or> (\<exists>res. currentSubs s ?key \<noteq> None
       \<and> unsubscribe u (w_sub (sl_world s)) = (res, w_sub (sl_world s'))
       \<and> (currentSubs s' = (currentSubs s)(?key := None)
            \<and> (\<forall>u'. streams_of kc (sl_streams s') u' = (if u' = u then None else streams_of kc (sl_streams s) u'))
          \<or> currentSubs s' = currentSubs s \<and> (\<forall>u'. streams_of kc (sl_streams s') u' = streams_of kc (sl_streams s) u'))))"
  proof (cases "currentSubs s ?key")
    case None
    with stop show ?thesis by (auto simp: grpc_stop_def sub_same_def Let_def)
  next
    case (Some t)
    with cur have t: "t = uuid_show L u" by simp
    let ?req = "json_set (sl_req s) ''subscriptionId'' (JStr (uuid_show L u))"
    obtain r1 w1 where un: "processUnsubscribe L (ge_env E) kc ?req (sl_world s) = (r1, w1)" by fastforce
    have "json_lookup ?req ''subscriptionId'' = Some (JStr (uuid_show L u))" using obj by (simp add: json_lookup_set)
    from processUnsubscribe_answer[OF un this L] show ?thesis
    proof (elim disjE exE conjE)
      assume "w_sub w1 = w_sub (sl_world s)" "\<forall>j. r1 = Inr j \<longrightarrow> json_contains j ''error''"
      with stop un Some t processUnsubscribe_effect(1)[OF un] show ?thesis
        by (auto simp: grpc_stop_def Let_def sub_same_def split: sum.splits if_splits)
    next
      fix res j assume "unsubscribe u (w_sub (sl_world s)) = (res, w_sub w1)" "r1 = Inr j"
      with stop un Some t processUnsubscribe_effect(1)[OF un] show ?thesis
        by (cases "json_contains j ''error''") (auto simp: grpc_stop_def Let_def uuid_docD[OF L] split: sum.splits if_splits)
    qed
  qed
  then show "w_db (sl_world s') = w_db (sl_world s)"
    "sub_same kc s s' \<or> (\<exists>res. currentSubs s ?key \<noteq> None
       \<and> unsubscribe u (w_sub (sl_world s)) = (res, w_sub (sl_world s'))
       \<and> (currentSubs s' = (currentSubs s)(?key := None)
            \<and> (\<forall>u'. streams_of kc (sl_streams s') u' = (if u' = u then None else streams_of kc (sl_streams s) u'))
          \<or> currentSubs s' = currentSubs s \<and> (\<forall>u'. streams_of kc (sl_streams s') u' = streams_of kc (sl_streams s) u')))"
    by auto
qed

section \<open>The invariant of the loop\<close>

text \<open>Partial maps that give no value twice.\<close>

definition inj_map :: "('k \<Rightarrow> 'v option) \<Rightarrow> bool" where
  "inj_map f \<longleftrightarrow> (\<forall>k k' v. f k = Some v \<longrightarrow> f k' = Some v \<longrightarrow> k = k')"

lemma inj_mapD: "inj_map f \<Longrightarrow> f k = Some v \<Longrightarrow> f k' = Some v \<Longrightarrow> k = k'"
  and inj_map_upd: "inj_map f \<Longrightarrow> (\<And>k'. f k' \<noteq> Some v) \<Longrightarrow> inj_map (f(k \<mapsto> v))"
  and inj_map_del: "inj_map f \<Longrightarrow> inj_map (f(k := None))"
  and inj_map_empty [simp]: "inj_map Map.empty"
  unfolding inj_map_def by (auto split: if_splits)

text \<open>
  \<open>ids\<close> are the subscription ids generated so far in the call. Other ids are as they were when
  it began; every subscription the loop lists leads to the stream; no two entries share an id.
\<close>

definition loop_inv :: "'a lib_scheme \<Rightarrow> KuksaChannel \<Rightarrow> nat \<Rightarrow> SubscriptionHandler \<Rightarrow> uuid set \<Rightarrow> sub_loop \<Rightarrow> bool" where
  "loop_inv L kc stream sh0 ids s \<longleftrightarrow>
     is_object (sl_req s)
   \<and> (\<forall>key u. u \<notin> ids \<longrightarrow> subscriber (w_sub (sl_world s)) key u = subscriber sh0 key u)
   \<and> (\<forall>k t. currentSubs s k = Some t \<longrightarrow> (\<exists>u \<in> ids. t = uuid_show L u \<and> streams_of kc (sl_streams s) u = Some stream))
   \<and> inj_map (currentSubs s)"

lemma loop_inv_lists:
  "loop_inv L kc stream sh0 ids s \<Longrightarrow> currentSubs s k = Some t \<Longrightarrow>
   \<exists>u \<in> ids. t = uuid_show L u \<and> streams_of kc (sl_streams s) u = Some stream"
  unfolding loop_inv_def by blast

lemma loop_inv_others:
  "loop_inv L kc stream sh0 ids s \<Longrightarrow> u \<notin> ids \<Longrightarrow> subscriber (w_sub (sl_world s)) key u = subscriber sh0 key u"
  unfolding loop_inv_def by blast

lemma loop_inv_same:
  assumes "loop_inv L kc stream sh0 ids s" "sub_same kc s0 s'" "is_object (sl_req s')" "ids \<subseteq> ids'"
    and "w_sub (sl_world s0) = w_sub (sl_world s)" "currentSubs s0 = currentSubs s" "sl_streams s0 = sl_streams s"
  shows "loop_inv L kc stream sh0 ids' s'"
proof -
  from assms(2,5,6,7) have same: "w_sub (sl_world s') = w_sub (sl_world s)" "currentSubs s' = currentSubs s"
    "\<And>u. streams_of kc (sl_streams s') u = streams_of kc (sl_streams s) u" by (auto simp: sub_same_def)
  show ?thesis
    using assms(1,3,4) unfolding loop_inv_def same by blast
qed

lemma loop_inv_put:
  assumes L: "uuid_doc L" and inv: "loop_inv L kc stream sh0 ids s" and new: "u \<notin> ids" and obj: "is_object (sl_req s')"
    and cur: "currentSubs s' = (currentSubs s)(k \<mapsto> uuid_show L u)"
    and str: "\<And>u'. streams_of kc (sl_streams s') u' = (if u' = u then Some stream else streams_of kc (sl_streams s) u')"
    and sub: "\<And>key u'. u' \<noteq> u \<Longrightarrow> subscriber (w_sub (sl_world s')) key u' = subscriber (w_sub (sl_world s)) key u'"
  shows "loop_inv L kc stream sh0 (insert u ids) s'"
proof -
  have old: "\<exists>u' \<in> ids. t = uuid_show L u' \<and> streams_of kc (sl_streams s) u' = Some stream" if "currentSubs s k' = Some t" for k' t
    by (rule loop_inv_lists[OF inv that])
  have fresh: "currentSubs s k' \<noteq> Some (uuid_show L u)" for k'
    using old[of k' "uuid_show L u"] new uuid_docD[OF L] by (metis Inr_inject)
  have "inj_map (currentSubs s')"
    using inv fresh unfolding cur loop_inv_def by (intro inj_map_upd) blast+
  moreover have "\<exists>u' \<in> insert u ids. t = uuid_show L u' \<and> streams_of kc (sl_streams s') u' = Some stream"
    if "currentSubs s' k' = Some t" for k' t
    using that old[of k' t] new by (auto simp: cur str split: if_splits)
  moreover have "\<forall>key u'. u' \<notin> insert u ids \<longrightarrow> subscriber (w_sub (sl_world s')) key u' = subscriber sh0 key u'"
    using inv sub by (auto simp: loop_inv_def)
  ultimately show ?thesis using obj by (simp add: loop_inv_def)
qed

lemma loop_inv_del:
  assumes L: "uuid_doc L" and inv: "loop_inv L kc stream sh0 ids s" and old: "u \<in> ids" "currentSubs s k = Some (uuid_show L u)"
    and obj: "is_object (sl_req s')" and sub: "unsubscribe u (w_sub (sl_world s)) = (res, w_sub (sl_world s'))" and sup: "ids \<subseteq> ids'"
    and cur: "currentSubs s' = (currentSubs s)(k := None)
            \<and> (\<forall>u'. streams_of kc (sl_streams s') u' = (if u' = u then None else streams_of kc (sl_streams s) u'))
          \<or> currentSubs s' = currentSubs s \<and> (\<forall>u'. streams_of kc (sl_streams s') u' = streams_of kc (sl_streams s) u')"
  shows "loop_inv L kc stream sh0 ids' s'"
proof -
  have lists: "\<exists>u' \<in> ids. t = uuid_show L u' \<and> streams_of kc (sl_streams s) u' = Some stream" if "currentSubs s k' = Some t" for k' t
    by (rule loop_inv_lists[OF inv that])
  have inj: "k' = k" if "currentSubs s k' = Some (uuid_show L u)" for k'
    using inv inj_mapD[of "currentSubs s" k' "uuid_show L u" k] that old(2) by (simp add: loop_inv_def)
  have "inj_map (currentSubs s')"
    using inv cur inj_map_del[of "currentSubs s" k] unfolding loop_inv_def by metis
  moreover have "\<exists>u' \<in> ids'. t = uuid_show L u' \<and> streams_of kc (sl_streams s') u' = Some stream"
    if t: "currentSubs s' k' = Some t" for k' t
  proof -
    from t cur have "currentSubs s k' = Some t" by (auto split: if_splits)
    from lists[OF this] obtain u' where u': "u' \<in> ids" "t = uuid_show L u'" "streams_of kc (sl_streams s) u' = Some stream" by blast
    have "u' \<noteq> u" if "currentSubs s' = (currentSubs s)(k := None)"
      using t that inj[of k'] \<open>currentSubs s k' = Some t\<close> u'(2) by (auto split: if_splits)
    with cur u' sup show ?thesis by (intro bexI[of _ u']) auto
  qed
  moreover have "\<forall>key u'. u' \<notin> ids' \<longrightarrow> subscriber (w_sub (sl_world s')) key u' = subscriber sh0 key u'"
    using loop_inv_others[OF inv] old(1) sup unsubscribe_subscriber(1)[OF sub] by (metis subsetD)
  ultimately show ?thesis using obj by (simp add: loop_inv_def)
qed

lemma grpc_start_req: "grpc_start L E kc stream m s = (r, s') \<Longrightarrow> sl_req s' = sl_req s"
  by (auto simp: grpc_start_def Let_def split: sum.splits prod.splits if_splits)

lemma grpc_stop_req: "grpc_stop L E kc stream m s = (r, s') \<Longrightarrow> is_object (sl_req s) \<Longrightarrow> is_object (sl_req s')"
  by (auto simp: grpc_stop_def Let_def split: option.splits sum.splits prod.splits if_splits)

lemma grpc_message_inv:
  assumes L: "uuid_doc L" and kc: "grpcSubsMap kc \<noteq> None" and inv: "loop_inv L kc stream sh0 ids s"
    and new: "env_uuid (ge_env E) \<notin> ids" and msg: "grpc_message L E kc stream m s = (r, s')"
  shows "w_db (sl_world s') = w_db (sl_world s) \<and> loop_inv L kc stream sh0 (insert (env_uuid (ge_env E)) ids) s'"
proof (cases "sub_start m")
  case True
  define req where "req = (let r1 = json_set (sl_req s) ''requestId'' (JStr (uuid_show L (ge_rid E)));
      r2 = json_set (json_set r1 ''action'' (JStr ''subscribe'')) ''path'' (JStr (sub_path m))
    in case AttributeStringMap (sub_type m) of Some attr \<Rightarrow> json_set r2 ''attribute'' (JStr attr) | None \<Rightarrow> r2)"
  from inv have obj: "is_object req" by (auto simp: req_def Let_def loop_inv_def split: option.splits)
  from msg True obtain r1 where start: "grpc_start L E kc stream m (s\<lparr>sl_req := req\<rparr>) = (r1, s')"
    by (auto simp: grpc_message_def req_def Let_def split: prod.splits sum.splits)
  note eff = grpc_start_effect[OF L kc start]
  have obj': "is_object (sl_req s')" using grpc_start_req[OF start] obj by simp
  from eff(2) have "loop_inv L kc stream sh0 (insert (env_uuid (ge_env E)) ids) s'"
  proof
    assume "sub_same kc (s\<lparr>sl_req := req\<rparr>) s'"
    from loop_inv_same[OF inv this obj'] show ?thesis by auto
  next
    assume "\<exists>p u. u = env_uuid (ge_env E) \<and> r1 = Inr () \<and> req_string L (sl_req (s\<lparr>sl_req := req\<rparr>)) ''path'' = Inr p
       \<and> currentSubs s' = (currentSubs (s\<lparr>sl_req := req\<rparr>))((sub_path m, attr_of (sub_type m)) \<mapsto> uuid_show L u)
       \<and> (\<forall>u'. streams_of kc (sl_streams s') u' = (if u' = u then Some stream else streams_of kc (sl_streams (s\<lparr>sl_req := req\<rparr>)) u'))
       \<and> subscribe L u kc (w_db (sl_world (s\<lparr>sl_req := req\<rparr>))) p (req_attribute L (sl_req (s\<lparr>sl_req := req\<rparr>))) (w_sub (sl_world (s\<lparr>sl_req := req\<rparr>))) = (Inr u, w_sub (sl_world s'))"
    then obtain p u where u: "u = env_uuid (ge_env E)"
        and cur: "currentSubs s' = (currentSubs s)((sub_path m, attr_of (sub_type m)) \<mapsto> uuid_show L u)"
        and str: "\<And>u'. streams_of kc (sl_streams s') u' = (if u' = u then Some stream else streams_of kc (sl_streams s) u')"
        and sub: "subscribe L u kc (w_db (sl_world s)) p (req_attribute L req) (w_sub (sl_world s)) = (Inr u, w_sub (sl_world s'))"
      by auto
    from new have "u \<notin> ids" by (simp add: u)
    from loop_inv_put[OF L inv this obj' cur str] subscribe_subscriber(2)[OF sub] show ?thesis by (simp add: u)
  qed
  with eff(1) show ?thesis by simp
next
  case False
  define req where "req = json_set (json_set (sl_req s) ''requestId'' (JStr (uuid_show L (ge_rid E)))) ''action'' (JStr ''unsubscribe'')"
  let ?key = "(sub_path m, attr_of (sub_type m))"
  from inv have obj: "is_object req" by (auto simp: req_def loop_inv_def)
  from msg False have stop: "grpc_stop L E kc stream m (s\<lparr>sl_req := req\<rparr>) = (r, s')"
    by (simp add: grpc_message_def req_def Let_def)
  have obj': "is_object (sl_req s')" using grpc_stop_req[OF stop] obj by simp
  obtain u where u: "\<And>t. currentSubs s ?key = Some t \<Longrightarrow> u \<in> ids \<and> t = uuid_show L u"
    using loop_inv_lists[OF inv] by (cases "currentSubs s ?key") (simp, metis option.inject)
  then have cur: "\<forall>t. currentSubs (s\<lparr>sl_req := req\<rparr>) ?key = Some t \<longrightarrow> t = uuid_show L u" by simp
  have "is_object (sl_req (s\<lparr>sl_req := req\<rparr>))" using obj by simp
  note eff = grpc_stop_effect[OF L stop this cur]
  from eff(2) have "loop_inv L kc stream sh0 (insert (env_uuid (ge_env E)) ids) s'"
  proof (elim disjE)
    assume "sub_same kc (s\<lparr>sl_req := req\<rparr>) s'"
    from loop_inv_same[OF inv this obj'] show ?thesis by auto
  next
    assume *: "\<exists>res. currentSubs (s\<lparr>sl_req := req\<rparr>) ?key \<noteq> None
       \<and> unsubscribe u (w_sub (sl_world (s\<lparr>sl_req := req\<rparr>))) = (res, w_sub (sl_world s'))
       \<and> (currentSubs s' = (currentSubs (s\<lparr>sl_req := req\<rparr>))(?key := None)
            \<and> (\<forall>u'. streams_of kc (sl_streams s') u' = (if u' = u then None else streams_of kc (sl_streams (s\<lparr>sl_req := req\<rparr>)) u'))
          \<or> currentSubs s' = currentSubs (s\<lparr>sl_req := req\<rparr>) \<and> (\<forall>u'. streams_of kc (sl_streams s') u' = streams_of kc (sl_streams (s\<lparr>sl_req := req\<rparr>)) u'))"
    then obtain t res where t: "currentSubs s ?key = Some t" and un: "unsubscribe u (w_sub (sl_world s)) = (res, w_sub (sl_world s'))"
      by auto
    from u[OF t] t have "u \<in> ids" "currentSubs s ?key = Some (uuid_show L u)" by simp_all
    have s: "currentSubs (s\<lparr>sl_req := req\<rparr>) = currentSubs s" "sl_streams (s\<lparr>sl_req := req\<rparr>) = sl_streams s" by simp_all
    show ?thesis
      using * unfolding s by (intro loop_inv_del[OF L inv \<open>u \<in> ids\<close> \<open>currentSubs s ?key = Some (uuid_show L u)\<close> obj' un subset_insertI]) blast
  qed
  with eff(1) show ?thesis by simp
qed

lemma grpc_sub_loop_inv:
  assumes L: "uuid_doc L" and kc: "grpcSubsMap kc \<noteq> None"
  shows "grpc_sub_loop L Es kc stream i ms s = (r, s') \<Longrightarrow> inj_on (\<lambda>j. env_uuid (ge_env (Es j))) {..<i + length ms} \<Longrightarrow>
    loop_inv L kc stream sh0 ((\<lambda>j. env_uuid (ge_env (Es j))) ` {..<i}) s \<Longrightarrow>
    w_db (sl_world s') = w_db (sl_world s) \<and> (\<exists>n \<le> i + length ms. loop_inv L kc stream sh0 ((\<lambda>j. env_uuid (ge_env (Es j))) ` {..<n}) s')"
proof (induction ms arbitrary: i s)
  case (Cons m ms)
  obtain r1 s1 where msg: "grpc_message L (Es i) kc stream m s = (r1, s1)" by fastforce
  have new: "env_uuid (ge_env (Es i)) \<notin> (\<lambda>j. env_uuid (ge_env (Es j))) ` {..<i}"
    proof
    assume "env_uuid (ge_env (Es i)) \<in> (\<lambda>j. env_uuid (ge_env (Es j))) ` {..<i}"
    then obtain j where "env_uuid (ge_env (Es i)) = env_uuid (ge_env (Es j))" "j < i" by blast
    with inj_onD[OF Cons.prems(2) this(1)] show False by simp
  qed
  from grpc_message_inv[OF L kc Cons.prems(3) new msg]
  have step: "w_db (sl_world s1) = w_db (sl_world s)" "loop_inv L kc stream sh0 ((\<lambda>j. env_uuid (ge_env (Es j))) ` {..<Suc i}) s1"
    by (simp_all add: lessThan_Suc)
  from Cons.prems(1) msg have "s' = s1 \<or> grpc_sub_loop L Es kc stream (Suc i) ms s1 = (r, s')"
    by (auto split: sum.splits if_splits)
  then show ?case
  proof
    assume "s' = s1"
    with step show ?thesis by (intro conjI exI[of _ "Suc i"]) auto
  next
    assume loop: "grpc_sub_loop L Es kc stream (Suc i) ms s1 = (r, s')"
    have "inj_on (\<lambda>j. env_uuid (ge_env (Es j))) {..<Suc i + length ms}" using Cons.prems(2) by simp
    from Cons.IH[OF loop this step(2)] step(1) show ?thesis by simp
  qed
qed auto

section \<open>The call as a whole\<close>

lemma subscription_channel:
  assumes "getKuksaChannelForSubscriptionContext L ctx S = (Inr (Some kc), S1)"
    and "\<forall>k c. grpcSubscribeSessionMap S k = Some c \<longrightarrow> grpcSubsMap c \<noteq> None"
  shows "grpcSubsMap kc \<noteq> None" "g_world S1 = g_world S" "grpcSubscribeSessionMap S1 (ctx_addr ctx) = Some kc"
  using assms
  by (auto simp: getKuksaChannelForSubscriptionContext_def Let_def split: option.splits sum.splits prod.splits dest: authChecker_frame)

text \<open>
  When the call ends, no stream is led to any more and the subscriptions of others are untouched;
  but the channel stays under the address of the call, for whoever comes next with that address.
\<close>

lemma grpc_subscribe_end:
  assumes L: "uuid_doc L" and inj: "inj_on (\<lambda>j. env_uuid (ge_env (Es j))) {..<length ms}"
    and maps: "\<forall>k c. grpcSubscribeSessionMap S k = Some c \<longrightarrow> grpcSubsMap c \<noteq> None"
    and chan: "getKuksaChannelForSubscriptionContext L ctx S = (Inr (Some kc), S1)"
    and call: "grpc_subscribe L Es ctx ms S = (Inr (), S')"
  shows "w_db (g_world S') = w_db (g_world S) \<and> (\<forall>u. streams_of kc (g_streams S') u = None)
    \<and> (\<forall>ctx'. ctx_addr ctx' = ctx_addr ctx \<longrightarrow> getKuksaChannelForSubscriptionContext L ctx' S' = (Inr (Some kc), S'))
    \<and> (\<forall>key u c. u \<notin> (\<lambda>j. env_uuid (ge_env (Es j))) ` {..<length ms} \<longrightarrow> subscriber (w_sub (g_world S)) key u = Some c \<longrightarrow> \<not> same_channel c kc \<longrightarrow>
         subscriber (w_sub (g_world S')) key u = Some c)"
proof -
  note ch = subscription_channel[OF chan maps]
  let ?s0 = "\<lparr>sl_req = json_new, currentSubs = Map.empty, sl_world = g_world S1, sl_streams = g_streams S1\<rparr>"
  let ?id = "\<lambda>j. env_uuid (ge_env (Es j))"
  from call chan obtain s where loop: "grpc_sub_loop L Es kc (ctx_stream ctx) 0 ms ?s0 = (Inr (), s)"
      and S': "S' = S1\<lparr>g_world := (sl_world s)\<lparr>w_sub := unsubscribeAll kc (w_sub (sl_world s))\<rparr>, g_streams := subs_map_clear kc (sl_streams s)\<rparr>"
    by (auto simp: grpc_subscribe_def split: prod.splits sum.splits)
  have "loop_inv L kc (ctx_stream ctx) (w_sub (g_world S)) (?id ` {..<0}) ?s0"
    by (simp add: loop_inv_def ch(2))
  from grpc_sub_loop_inv[OF L ch(1) loop _ this] inj obtain n
    where n: "n \<le> length ms" and db: "w_db (sl_world s) = w_db (g_world S)" and inv: "loop_inv L kc (ctx_stream ctx) (w_sub (g_world S)) (?id ` {..<n}) s"
    using ch(2) by auto
  have "subscriber (unsubscribeAll kc (w_sub (sl_world s))) key u = Some c"
    if "u \<notin> ?id ` {..<length ms}" "subscriber (w_sub (g_world S)) key u = Some c" "\<not> same_channel c kc" for key u c
  proof -
    from that(1) n have "u \<notin> ?id ` {..<n}" by auto
    with inv that(2) have "subscriber (w_sub (sl_world s)) key u = Some c" by (cases key) (simp add: loop_inv_def)
    with that(3) show ?thesis by (rule unsubscribeAll_keeps)
  qed
  with db ch(3) show ?thesis by (simp add: S' getKuksaChannelForSubscriptionContext_def)
qed

end
