(* ===== verification/GrpcMessages.thy ===== *)
theory GrpcMessages
  imports GrpcStreams
begin

text \<open>
  What the gRPC service sends: every field of a message is the member of the data point it stands for, at the
  width of the field; and a notification of a target value cannot be sent.
\<close>

section \<open>Values within their fields\<close>

text \<open>The integers of a message are within the width of their fields.\<close>

definition value_ok :: "grpc_value \<Rightarrow> bool" where
  "value_ok v \<longleftrightarrow> val_fits (v_val v) \<and> - (2 ^ 63) \<le> v_seconds v \<and> v_seconds v < 2 ^ 63 \<and> - (2 ^ 31) \<le> v_nanos v \<and> v_nanos v < 2 ^ 31"

lemma new_value_ok [simp]: "value_ok new_grpc_value"
  by (simp add: value_ok_def new_grpc_value_def)

lemma value_ok_changes:
  "value_ok v \<Longrightarrow> val_fits x \<Longrightarrow> value_ok (v\<lparr>v_val := x\<rparr>)"
  "value_ok v \<Longrightarrow> value_ok (v\<lparr>v_path := p\<rparr>)"
  "value_ok v \<Longrightarrow> value_ok (v\<lparr>v_seconds := int64_of n\<rparr>)"
  "value_ok v \<Longrightarrow> value_ok (v\<lparr>v_nanos := int32_of n\<rparr>)"
  using narrow_range[of n] by (simp_all add: value_ok_def)

lemma grpc_fill_value_ok:
  assumes "num_doc L" "value_ok v" "grpc_fill_value L dt data attr v = (r, v')"
  shows "value_ok v'"
proof -
  have "val_fits x" if "bindE (dp_member data attr) (grpc_convert L dt) = Inr x" for x
    using that grpc_convert_fits[OF assms(1)] by (auto simp: bindE_Inr_conv)
  with assms(2,3) show ?thesis
    by (auto simp: grpc_fill_value_def Let_def intro: value_ok_changes split: sum.splits)
qed

lemma get_value_ok:
  assumes L: "num_doc L" and get: "get_value L db ty path attr j = (r, v)"
  shows "value_ok v"
proof -
  have fill: "value_ok v1" if "grpc_fill_value L dt j attr new_grpc_value = (r1, v1)" for dt r1 v1
    by (rule grpc_fill_value_ok[OF L new_value_ok that])
  from get show ?thesis
    by (auto simp: get_value_def Let_def intro!: value_ok_changes dest: fill split: if_splits sum.splits prod.splits)
qed

lemma grpc_get_path_ok:
  assumes "num_doc L" "grpc_get_path L E kc ty path w reply = (r, w', reply')" "\<forall>v \<in> set (get_values reply). value_ok v"
  shows "\<forall>v \<in> set (get_values reply'). value_ok v"
  using assms(2,3) get_value_ok[OF assms(1)]
  by (auto simp: grpc_get_path_def Let_def split: sum.splits prod.splits if_splits)

lemma grpc_get_loop_ok:
  assumes L: "num_doc L"
  shows "grpc_get_loop L Es kc ty i wanted f w reply = (r, w', reply') \<Longrightarrow> \<forall>v \<in> set (get_values reply). value_ok v \<Longrightarrow>
    \<forall>v \<in> set (get_values reply'). value_ok v"
proof (induction wanted arbitrary: i f w reply)
  case (Cons path wanted)
  obtain r1 w1 reply1 where one: "grpc_get_path L (Es i) kc ty path w reply = (r1, w1, reply1)"
    by (cases "grpc_get_path L (Es i) kc ty path w reply")
  from grpc_get_path_ok[OF L one Cons.prems(2)] have ok: "\<forall>v \<in> set (get_values reply1). value_ok v" .
  from Cons.prems(1) one have "reply' = reply1 \<or> (\<exists>f'. grpc_get_loop L Es kc ty (Suc i) wanted f' w1 reply1 = (r, w', reply'))"
    by (auto split: sum.splits if_splits)
  with ok Cons.IH show ?case by blast
qed simp

lemma grpc_get_values:
  assumes "num_doc L" "grpc_get L Es ctx ty wanted S = (Inr reply, S')"
  shows "\<forall>v \<in> set (get_values reply). value_ok v"
  using assms(2) grpc_get_loop_ok[OF assms(1)]
  by (fastforce simp: grpc_get_def Let_def split: sum.splits prod.splits if_splits)

section \<open>The values of an answer\<close>

text \<open>
  \<open>filled\<close>: a message whose value and path are those of a data point in \<open>data\<close>; \<open>get_message\<close>: one that
  answers the get of a path, with the time stamp of the data point as far as it fits.
\<close>

definition filled :: "'a lib_scheme \<Rightarrow> string \<Rightarrow> string \<Rightarrow> json \<Rightarrow> grpc_value \<Rightarrow> bool" where
  "filled L dt attr data v \<longleftrightarrow>
     (\<exists>d dp j p. json_lookup data ''data'' = Some d \<and> json_lookup d ''dp'' = Some dp \<and> json_lookup dp attr = Some j
        \<and> grpc_convert L dt j = Inr (v_val v) \<and> json_lookup d ''path'' = Some p \<and> v_path v = as_string L p)"

definition get_message :: "'a lib_scheme \<Rightarrow> grpc_env \<Rightarrow> KuksaChannel \<Rightarrow> request_type \<Rightarrow> VssDatabase \<Rightarrow> string \<Rightarrow> grpc_value \<Rightarrow> bool" where
  "get_message L E kc ty db path v \<longleftrightarrow>
     (\<exists>w w' resJson dt s ns. w_db w = db \<and> processGet L (ge_env E) kc (get_req_json L E ty path) w = (Inr resJson, w')
        \<and> datatype_or_empty L db path = Inr dt \<and> filled L dt (attr_of ty) resJson v
        \<and> dp_num L U64 resJson ''ts_s'' = Inr s \<and> 0 \<le> s \<and> s < 2 ^ 64 \<and> v_seconds v = (if s < 2 ^ 63 then s else s - 2 ^ 64)
        \<and> dp_num L U32 resJson ''ts_ns'' = Inr ns \<and> 0 \<le> ns \<and> ns < 2 ^ 32 \<and> v_nanos v = (if ns < 2 ^ 31 then ns else ns - 2 ^ 32))"

lemma grpc_fill_filled:
  "grpc_fill_value L dt data attr v = (Inr (), v') \<Longrightarrow>
   filled L dt attr data v' \<and> v_seconds v' = v_seconds v \<and> v_nanos v' = v_nanos v"
  by (auto simp: grpc_fill_value_def dp_member_def bindE_Inr_conv json_at_Inr filled_def Let_def split: sum.splits)

lemma dp_num_range:
  assumes "num_doc L" "dp_num L t j k = Inr n" "is_int_type t"
  shows "num_min t \<le> n \<and> n \<le> num_max t"
  using assms(2) num_typed_int[OF assms(3) num_doc_typed[OF assms(1)]] by (auto simp: dp_num_def bindE_Inr_conv)

lemma get_value_fields:
  assumes L: "num_doc L" and ty: "ty \<noteq> METADATA" and get: "get_value L db ty path attr j = (Inr (), v)"
  shows "\<exists>dt s ns. datatype_or_empty L db path = Inr dt \<and> filled L dt attr j v
        \<and> dp_num L U64 j ''ts_s'' = Inr s \<and> 0 \<le> s \<and> s < 2 ^ 64 \<and> v_seconds v = (if s < 2 ^ 63 then s else s - 2 ^ 64)
        \<and> dp_num L U32 j ''ts_ns'' = Inr ns \<and> 0 \<le> ns \<and> ns < 2 ^ 32 \<and> v_nanos v = (if ns < 2 ^ 31 then ns else ns - 2 ^ 32)"
proof -
  from get ty obtain dt v1 s ns where parts: "datatype_or_empty L db path = Inr dt"
      "grpc_fill_value L dt j attr new_grpc_value = (Inr (), v1)" "dp_num L U64 j ''ts_s'' = Inr s" "dp_num L U32 j ''ts_ns'' = Inr ns"
      "v = v1\<lparr>v_seconds := int64_of s, v_nanos := int32_of ns\<rparr>"
    by (auto simp: get_value_def Let_def split: sum.splits prod.splits)
  have "filled L dt attr j v" using grpc_fill_filled[OF parts(2)] parts(5) by (simp add: filled_def)
  moreover have "0 \<le> s \<and> s < 2 ^ 64" "0 \<le> ns \<and> ns < 2 ^ 32"
    using dp_num_range[OF L parts(3)] dp_num_range[OF L parts(4)] by (simp_all add: num_min_def num_max_def)
  ultimately show ?thesis using parts by (simp add: int64_of_unsigned int32_of_unsigned)
qed

lemma grpc_get_path_message:
  assumes "num_doc L" "ty \<noteq> METADATA" "grpc_get_path L E (Some kc) ty path w reply = (Inr False, w', reply')"
  shows "w_db w' = w_db w" "\<exists>v. get_values reply' = get_values reply @ [v] \<and> get_message L E kc ty (w_db w) path v"
proof -
  obtain r1 w1 where get: "processGet L (ge_env E) kc (get_req_json L E ty path) w = (r1, w1)" by fastforce
  with assms(2,3) obtain j v where j: "r1 = Inr j" "w' = w1" "get_value L (w_db w1) ty path (attr_of ty) j = (Inr (), v)"
      "get_values reply' = get_values reply @ [v]"
    by (auto simp: grpc_get_path_def Let_def bindE_Inr_conv split: sum.splits prod.splits if_splits)
  from processGet_frame[OF get] have db: "w_db w1 = w_db w" by simp
  with j(2) show "w_db w' = w_db w" by simp
  from get_value_fields[OF assms(1,2) j(3)] get j(1) have "get_message L E kc ty (w_db w) path v"
    unfolding get_message_def db by blast
  with j(4) show "\<exists>v. get_values reply' = get_values reply @ [v] \<and> get_message L E kc ty (w_db w) path v" by blast
qed

text \<open>A get without a failure: one message per path, in the order of the paths.\<close>

lemma grpc_get_loop_messages:
  assumes L: "num_doc L" and ty: "ty \<noteq> METADATA"
  shows "grpc_get_loop L Es (Some kc) ty i wanted f w reply = (Inr False, w', reply') \<Longrightarrow>
    \<exists>vs. get_values reply' = get_values reply @ vs \<and> length vs = length wanted
      \<and> (\<forall>k < length wanted. get_message L (Es (i + k)) kc ty (w_db w) (wanted ! k) (vs ! k))"
proof (induction wanted arbitrary: i f w reply)
  case (Cons path wanted)
  obtain r1 w1 reply1 where one: "grpc_get_path L (Es i) (Some kc) ty path w reply = (r1, w1, reply1)"
    by (cases "grpc_get_path L (Es i) (Some kc) ty path w reply")
  have never: "grpc_get_loop L Es (Some kc) ty i' ps True w2 reply2 \<noteq> (Inr False, w', reply')" for i' ps w2 reply2
    by (induction ps arbitrary: i' w2 reply2) (auto split: sum.splits prod.splits)
  from Cons.prems one never have rest: "r1 = Inr False" "grpc_get_loop L Es (Some kc) ty (Suc i) wanted f w1 reply1 = (Inr False, w', reply')"
    by (auto split: sum.splits if_splits) (metis (full_types) never)+
  from grpc_get_path_message[OF L ty one[unfolded rest(1)]] obtain v where
    v: "w_db w1 = w_db w" "get_values reply1 = get_values reply @ [v]" "get_message L (Es i) kc ty (w_db w) path v" by blast
  from Cons.IH[OF rest(2)] v(1) obtain vs where vs: "get_values reply' = get_values reply1 @ vs" "length vs = length wanted"
      "\<forall>k < length wanted. get_message L (Es (Suc i + k)) kc ty (w_db w) (wanted ! k) (vs ! k)" by auto
  with v show ?case by (intro exI[of _ "v # vs"]) (auto simp: nth_Cons split: nat.splits)
qed simp

section \<open>What goes over the streams\<close>

text \<open>What a step adds to the streams: \<open>P\<close> holds of every value in it.\<close>

definition stream_adds :: "(grpc_value \<Rightarrow> bool) \<Rightarrow> grpc_world \<Rightarrow> grpc_world \<Rightarrow> bool" where
  "stream_adds P gw gw' \<longleftrightarrow>
     (\<forall>stream. \<exists>new. stream_log gw' stream = stream_log gw stream @ new
        \<and> (\<forall>resp \<in> set new. case resp_values resp of None \<Rightarrow> True | Some v \<Rightarrow> P v))"

lemma stream_adds_refl [simp]: "stream_adds P gw gw"
  by (simp add: stream_adds_def)

lemma stream_adds_trans:
  assumes "stream_adds P gw gw'" "stream_adds P gw' gw''" shows "stream_adds P gw gw''"
  unfolding stream_adds_def
proof
  fix stream
  from assms obtain as bs where "stream_log gw' stream = stream_log gw stream @ as" "stream_log gw'' stream = stream_log gw' stream @ bs"
      "\<forall>resp \<in> set as \<union> set bs. case resp_values resp of None \<Rightarrow> True | Some v \<Rightarrow> P v"
    unfolding stream_adds_def by (metis Un_iff)
  then show "\<exists>new. stream_log gw'' stream = stream_log gw stream @ new
      \<and> (\<forall>resp \<in> set new. case resp_values resp of None \<Rightarrow> True | Some v \<Rightarrow> P v)"
    by (intro exI[of _ "as @ bs"]) auto
qed

lemma stream_adds_Write:
  "(\<And>v. resp_values resp = Some v \<Longrightarrow> P v) \<Longrightarrow> stream_adds P gw (stream_Write stream resp gw)"
  by (auto simp: stream_adds_def stream_Write_def split: option.splits)

lemma stream_adds_log: "stream_log gw' = stream_log gw \<Longrightarrow> stream_adds P gw gw'"
  by (simp add: stream_adds_def)

lemma stream_log_maps [simp]:
  "stream_log (subs_map_put kc u stream gw) = stream_log gw" "stream_log (subs_map_del kc u gw) = stream_log gw"
  "stream_log (subs_map_clear kc gw) = stream_log gw"
  by (simp_all add: subs_map_put_def subs_map_del_def subs_map_clear_def split: option.splits)

text \<open>A notification: the attribute \<open>value\<close> of its data point, without a time stamp.\<close>

definition note_message :: "'a lib_scheme \<Rightarrow> notification \<Rightarrow> grpc_value \<Rightarrow> bool" where
  "note_message L note v \<longleftrightarrow>
     (case note of (sid, _, dt, data) \<Rightarrow>
        \<exists>answer. notification_answer L sid data = Inr answer \<and> filled L dt ''value'' answer v \<and> v_seconds v = 0 \<and> v_nanos v = 0 \<and> value_ok v)"

lemma send_note_adds:
  assumes L: "num_doc L" and send: "send_note L note srv gw = (r, srv', gw')"
  shows "stream_adds (note_message L note) gw gw'"
proof -
  obtain sid c dt data where parts: "note = (sid, c, dt, data)" by (cases "note")
  have "note_message L note v" if "notification_answer L sid data = Inr a" "grpc_fill_value L dt a ''value'' new_grpc_value = (Inr (), v)" for a v
    using that grpc_fill_filled[OF that(2)] grpc_fill_value_ok[OF L new_value_ok that(2)]
    by (auto simp: note_message_def parts new_grpc_value_def)
  then show ?thesis
    using send by (auto simp: parts send_note_def grpc_send_object_to_stream_def Let_def split: sum.splits option.splits prod.splits if_splits
        intro!: stream_adds_Write)
qed

lemma subThread_round_adds:
  assumes "num_doc L" "subThread_round L sh srv gw = (r, sh', srv', gw')"
  shows "stream_adds (\<lambda>v. buffer sh \<noteq> [] \<and> note_message L (hd (buffer sh)) v) gw gw'"
proof (cases "buffer sh = []")
  case False
  with assms(2) obtain r1 srv1 where "send_note L (hd (buffer sh)) srv gw = (r1, srv1, gw')"
    by (auto simp: subThread_round_def deliver_def split: sum.splits prod.splits)
  from send_note_adds[OF assms(1) this] False show ?thesis by simp
qed (use assms(2) in \<open>simp add: subThread_round_def\<close>)

text \<open>A subscription call itself writes statuses only.\<close>

abbreviation status_only :: "grpc_world \<Rightarrow> grpc_world \<Rightarrow> bool" where
  "status_only \<equiv> stream_adds (\<lambda>_. False)"

lemma status_only_sl_write: "status_only gw (sl_streams s) \<Longrightarrow> status_only gw (sl_streams (sl_write stream st s))"
  unfolding sl_write_def by (auto intro!: stream_adds_trans[OF _ stream_adds_Write])

lemma status_only_maps:
  "status_only gw gw' \<Longrightarrow> status_only gw (subs_map_put kc u stream gw')" "status_only gw gw' \<Longrightarrow> status_only gw (subs_map_del kc u gw')"
  "status_only gw gw' \<Longrightarrow> status_only gw (subs_map_clear kc gw')"
  by (simp_all add: stream_adds_def)

lemmas status_only_intros = status_only_maps status_only_sl_write stream_adds_refl

lemma grpc_start_adds: "grpc_start L E kc stream m s = (r, s') \<Longrightarrow> status_only (sl_streams s) (sl_streams s')"
  by (auto simp: grpc_start_def Let_def intro!: status_only_intros split: sum.splits prod.splits if_splits)

lemma grpc_stop_adds: "grpc_stop L E kc stream m s = (r, s') \<Longrightarrow> status_only (sl_streams s) (sl_streams s')"
  by (auto simp: grpc_stop_def Let_def intro!: status_only_intros split: option.splits sum.splits prod.splits if_splits)

lemma grpc_message_adds: "grpc_message L E kc stream m s = (r, s') \<Longrightarrow> status_only (sl_streams s) (sl_streams s')"
  by (auto simp: grpc_message_def Let_def dest!: grpc_start_adds grpc_stop_adds split: sum.splits prod.splits if_splits)

lemma grpc_sub_loop_adds: "grpc_sub_loop L Es kc stream i ms s = (r, s') \<Longrightarrow> status_only (sl_streams s) (sl_streams s')"
proof (induction ms arbitrary: i s)
  case (Cons m ms)
  obtain r1 s1 where msg: "grpc_message L (Es i) kc stream m s = (r1, s1)" by fastforce
  from Cons.prems msg have "s' = s1 \<or> grpc_sub_loop L Es kc stream (Suc i) ms s1 = (r, s')"
    by (auto split: sum.splits if_splits)
  with grpc_message_adds[OF msg] Cons.IH show ?case by (blast intro: stream_adds_trans)
qed simp

lemma subscription_context_adds:
  "getKuksaChannelForSubscriptionContext L ctx S = (r, S1) \<Longrightarrow> status_only (g_streams S) (g_streams S1)"
  by (auto simp: getKuksaChannelForSubscriptionContext_def new_subs_map_def Let_def
      intro!: stream_adds_log dest!: authChecker_frame split: option.splits sum.splits prod.splits)

lemma grpc_subscribe_adds:
  assumes "grpc_subscribe L Es ctx ms S = (r, S')"
  shows "status_only (g_streams S) (g_streams S')"
proof -
  obtain r1 S1 where c: "getKuksaChannelForSubscriptionContext L ctx S = (r1, S1)" by fastforce
  have "status_only (g_streams S1) (g_streams S')"
    using assms c by (auto simp: grpc_subscribe_def intro!: stream_adds_Write status_only_maps split: sum.splits option.splits prod.splits dest!: grpc_sub_loop_adds)
  with subscription_context_adds[OF c] show ?thesis by (rule stream_adds_trans)
qed

section \<open>Notifications of a target value\<close>

text \<open>The data point of a target value has no member \<open>value\<close>, which the sending function reads.\<close>

lemma notification_no_value:
  assumes "notification_answer L u (data_point path clock ''targetValue'' v) = Inr a"
  shows "\<exists>d kvs. json_lookup a ''data'' = Some d \<and> json_lookup d ''dp'' = Some (JObj kvs) \<and> map_of kvs ''value'' = None"
proof -
  define dp where "dp = json_build [(''targetValue'', v), (''ts_s'', JInt (fst clock)), (''ts_ns'', JInt (snd clock))]"
  have pt: "json_lookup (data_point path clock ''targetValue'' v) ''dp'' = Some dp"
      "is_object (data_point path clock ''targetValue'' v)"
    by (simp_all add: data_point_def dp_def json_lookup_set)
  from assms obtain dp' where conv: "convertJSONTimeStampToISO8601 L dp = Inr dp'"
    and a: "a = json_build [(''action'', JStr ''subscription''), (''subscriptionId'', JStr (uuid_show L u)),
       (''data'', json_set (data_point path clock ''targetValue'' v) ''dp'' dp')]"
    by (auto simp: notification_answer_def json_at_lookup[OF pt(1)] bindE_Inr_conv)
  have "is_object dp'" "json_lookup dp' ''value'' = None"
    using conv by (auto simp: convertJSONTimeStampToISO8601_def dp_def bindE_Inr_conv json_lookup_set json_lookup_erase json_build_lookup Let_def split: if_splits)
  then show ?thesis
    using pt(2) by (cases dp') (simp_all add: a json_build_lookup json_lookup_set)
qed

lemma target_note_fails:
  assumes "note = (sid, c, dt, data_point path clock ''targetValue'' v)" "typeOfConnection c = GRPC" "grpcSubsMap c = Some addr"
    "map_of (subs_maps gw addr) sid = Some stream" "notification_answer L sid (data_point path clock ''targetValue'' v) = Inr a"
  shows "send_note L note srv gw = (Inl (KeyNotFound ''value''), srv, gw)"
proof -
  obtain d kvs where "json_lookup a ''data'' = Some d" "json_lookup d ''dp'' = Some (JObj kvs)" "map_of kvs ''value'' = None"
    using notification_no_value[OF assms(5)] by blast
  from grpc_send_needs_value[OF this, of L dt stream gw] assms show ?thesis by (simp add: send_note_def channel_defs)
qed

end
