(* ===== verification/Logger.thy ===== *)
theory Logger
  imports Prelude "HOL-Library.Word"
begin

text \<open>
  \<open>src/BasicLogger.cpp\<close> and the levels of \<open>include/interface/ILogger.hpp\<close>: which messages are
  printed. \<open>out\<close> holds the lines written to standard output.
\<close>

unbundle bit_operations_syntax

datatype LogLevel = LOG_NONE | VERBOSE | INFO | WARNING | ERROR | LOG_ALL

definition level_bits :: "LogLevel \<Rightarrow> 8 word" where
  "level_bits level = (case level of LOG_NONE \<Rightarrow> 0x0 | VERBOSE \<Rightarrow> 0x1 | INFO \<Rightarrow> 0x2 | WARNING \<Rightarrow> 0x4 | ERROR \<Rightarrow> 0x8 | LOG_ALL \<Rightarrow> 0xF)"

definition GetLevelString :: "LogLevel \<Rightarrow> string" where
  "GetLevelString level = (case level of VERBOSE \<Rightarrow> ''VERBOSE: '' | INFO \<Rightarrow> ''INFO: '' | WARNING \<Rightarrow> ''WARNING: ''
     | ERROR \<Rightarrow> ''ERROR: '' | _ \<Rightarrow> ''UNKNOWN: '')"

record BasicLogger =
  logLevels :: "8 word"
  out :: "string list"

definition new_BasicLogger :: "8 word \<Rightarrow> BasicLogger" where
  "new_BasicLogger logEventsEnabled = \<lparr>logLevels = logEventsEnabled, out = [''Log START'']\<rparr>"

definition delete_BasicLogger :: "BasicLogger \<Rightarrow> BasicLogger" where
  "delete_BasicLogger l = l\<lparr>out := out l @ [''Log END'']\<rparr>"

definition Log :: "LogLevel \<Rightarrow> string \<Rightarrow> BasicLogger \<Rightarrow> BasicLogger" where
  "Log level logString l =
     (if level_bits level AND logLevels l \<noteq> 0 then l\<lparr>out := out l @ [GetLevelString level @ logString]\<rparr> else l)"

section \<open>The levels of the command line\<close>

definition level_of_token :: "string \<Rightarrow> LogLevel option" where
  "level_of_token tok =
     (if tok = ''NONE'' then Some LOG_NONE
      else if tok = ''VERBOSE'' then Some VERBOSE
      else if tok = ''INFO'' then Some INFO
      else if tok = ''WARNING'' then Some WARNING
      else if tok = ''ERROR'' then Some ERROR
      else if tok = ''ALL'' then Some LOG_ALL
      else None)"

text \<open>The loop of \<open>main\<close>; \<open>None\<close> is the early return of \<open>-1\<close>.\<close>

fun active_levels :: "string list \<Rightarrow> 8 word \<Rightarrow> 8 word option" where
  "active_levels [] logLevelsActive = Some logLevelsActive"
| "active_levels (tok # rest) logLevelsActive =
     (case level_of_token tok of
        None \<Rightarrow> None
      | Some level \<Rightarrow> active_levels rest (logLevelsActive OR level_bits level))"

section \<open>Lemmas\<close>

text \<open>The levels of messages, each a bit of its own.\<close>

definition message_level :: "LogLevel \<Rightarrow> bool" where
  "message_level level \<longleftrightarrow> level \<in> {VERBOSE, INFO, WARNING, ERROR}"

lemma level_meets:
  assumes "message_level l"
  shows "level_bits l AND level_bits k \<noteq> 0 \<longleftrightarrow> k = l \<or> k = LOG_ALL"
  using assms by (cases l; cases k) (simp_all add: message_level_def level_bits_def)

lemma active_levels_meets:
  "active_levels toks w = Some w' \<Longrightarrow> message_level l \<Longrightarrow>
   level_bits l AND w' \<noteq> 0 \<longleftrightarrow> level_bits l AND w \<noteq> 0 \<or> (\<exists>tok \<in> set toks. level_of_token tok \<in> {Some l, Some LOG_ALL})"
proof (induction toks w rule: active_levels.induct)
  case (2 tok rest w)
  then obtain k where k: "level_of_token tok = Some k" "active_levels rest (w OR level_bits k) = Some w'"
    by (auto split: option.splits)
  have "level_bits l AND (w OR level_bits k) \<noteq> 0 \<longleftrightarrow> level_bits l AND w \<noteq> 0 \<or> level_bits l AND level_bits k \<noteq> 0"
    by (simp add: bit.conj_disj_distrib or_eq_0_iff)
  with 2 k level_meets[OF 2(3), of k] show ?case by auto
qed simp

lemma active_levels_None: "active_levels toks w = None \<longleftrightarrow> (\<exists>tok \<in> set toks. level_of_token tok = None)"
  by (induction toks w rule: active_levels.induct) (auto split: option.splits)

text \<open>A message is printed if its level, or all levels, were asked for; nothing else is written.\<close>

lemma log_printed:
  assumes "active_levels toks 0 = Some w" "message_level l"
  shows "out (Log l m (new_BasicLogger w)) =
    (if \<exists>tok \<in> set toks. level_of_token tok \<in> {Some l, Some LOG_ALL} then [''Log START'', GetLevelString l @ m] else [''Log START''])"
  using active_levels_meets[OF assms] by (auto simp: Log_def new_BasicLogger_def)

text \<open>The words of the command line decide what is printed.\<close>

lemma log_levels:
  "(active_levels toks 0 = None \<longleftrightarrow> (\<exists>tok \<in> set toks. tok \<notin> {''NONE'', ''VERBOSE'', ''INFO'', ''WARNING'', ''ERROR'', ''ALL''}))
   \<and> (\<forall>w l m. active_levels toks 0 = Some w \<longrightarrow> message_level l \<longrightarrow>
        out (Log l m (new_BasicLogger w)) =
          (if \<exists>tok \<in> set toks. level_of_token tok \<in> {Some l, Some LOG_ALL} then [''Log START'', GetLevelString l @ m] else [''Log START'']))"
proof -
  have "level_of_token tok = None \<longleftrightarrow> tok \<notin> {''NONE'', ''VERBOSE'', ''INFO'', ''WARNING'', ''ERROR'', ''ALL''}" for tok
    by (auto simp: level_of_token_def)
  then show ?thesis by (intro conjI allI impI) (simp add: active_levels_None, rule log_printed)
qed

end
