(* ===== verification/ServerMain.thy ===== *)
theory ServerMain
  imports CommandLaws GrpcServer WebSockServer Logger
begin

text \<open>
  \<open>src/OverlayLoader.cpp\<close> and \<open>src/main.cpp\<close>: how the server is put together. The parsed options are
  the record \<open>server_options\<close> (the parser of \<open>boost::program_options\<close> and the configuration file are
  not modelled), the files the server reads the record \<open>file_system\<close>.
\<close>

record dir_entry =
  entry_path :: string
  entry_name :: string
  entry_extension :: string
  entry_regular :: bool

record file_system =
  fs_is_directory :: "string \<Rightarrow> bool"
  fs_entries :: "string \<Rightarrow> exn + dir_entry list"
  fs_content :: "string \<Rightarrow> string"
  fs_key :: "string \<Rightarrow> string option option"

section \<open>Overlays\<close>

text \<open>
  \<open>gatherOverlays\<close>: the directory iterator gives the entries in no particular order; \<open>sort\<close> orders
  them by file name.
\<close>

definition is_overlay :: "dir_entry \<Rightarrow> bool" where
  "is_overlay p \<longleftrightarrow> entry_regular p \<and> entry_extension p = ''.json''"

definition gatherOverlays :: "file_system \<Rightarrow> string \<Rightarrow> exn + dir_entry list" where
  "gatherOverlays fs overlaydir =
     (if \<not> fs_is_directory fs overlaydir then
        Inl (StdException (''Overlays need to be a directory. \"'' @ overlaydir @ ''\" is not.''))
      else bindE (fs_entries fs overlaydir) (\<lambda>entries. Inr (sort_key entry_name (filter is_overlay entries))))"

text \<open>\<open>operator/\<close> of paths puts a separator between the two where there is none.\<close>

definition path_append :: "string \<Rightarrow> string \<Rightarrow> string" where
  "path_append d name = (if d = [] \<or> last d = CHR ''/'' then d @ name else d @ ''/'' @ name)"

text \<open>The channel that may change the tree; its number and type are never set.\<close>

definition mockChannel :: "64 word \<Rightarrow> conn_type \<Rightarrow> KuksaChannel" where
  "mockChannel some_id some_type = enableModifyTree (new_channel some_id some_type)"

fun applyOverlays :: "'a lib_scheme \<Rightarrow> file_system \<Rightarrow> KuksaChannel \<Rightarrow> dir_entry list \<Rightarrow> VssDatabase \<Rightarrow> (exn + unit) \<times> VssDatabase" where
  "applyOverlays L fs channel [] db = (Inr (), db)"
| "applyOverlays L fs channel (p # rest) db =
     (case (case j_parse L (fs_content fs (entry_path p)) of
              Inl e \<Rightarrow> (Inl e, db)
            | Inr overlay \<Rightarrow> updateJsonTree L channel overlay db) of
        (Inl e, db') \<Rightarrow>
          (Inl (if is_std_exception e then StdException (''Error loading \"'' @ entry_path p @ ''\": '' @ what L e) else e), db')
      | (Inr _, db') \<Rightarrow> applyOverlays L fs channel rest db')"

section \<open>Paths to publish\<close>

text \<open>White space and quotation marks are removed; \<open>getline\<close> with \<open>;\<close> gives no empty last token.\<close>

definition is_space :: "char \<Rightarrow> bool" where
  "is_space c \<longleftrightarrow> c \<in> {CHR '' '', CHR 0x09, CHR 0x0A, CHR 0x0B, CHR 0x0C, CHR 0x0D}"

definition publish_tokens :: "string \<Rightarrow> string list" where
  "publish_tokens path_to_publish =
     (let stripped = filter (\<lambda>c. \<not> is_space c \<and> c \<noteq> CHR 0x22) path_to_publish;
          ws = split_on CHR '';'' stripped
      in if last ws = [] then butlast ws else ws)"

fun add_publish_paths :: "'a lib_scheme \<Rightarrow> VssDatabase \<Rightarrow> string list \<Rightarrow> MQTTPublisher \<Rightarrow> BasicLogger \<Rightarrow> (exn + unit) \<times> MQTTPublisher \<times> BasicLogger" where
  "add_publish_paths L db [] p logger = (Inr (), p, logger)"
| "add_publish_paths L db (tok # rest) p logger =
     (case checkPathValid L db (fromVSSGen1 L tok) of
        Inl e \<Rightarrow> (Inl e, p, logger)
      | Inr valid \<Rightarrow>
          if valid then add_publish_paths L db rest (addPublishPath tok p) logger
          else add_publish_paths L db rest p (Log ERROR (''main: '' @ tok @ '' is not a valid path to publish'') logger))"

section \<open>main\<close>

record server_options =
  so_help :: bool
  so_vss :: string
  so_overlays :: "string option"
  so_cert_path :: string
  so_insecure :: bool
  so_record :: string
  so_record_path :: string
  so_log_level :: "string list"
  so_mqtt :: mqtt_options

record server_app =
  app_world :: world
  app_logger :: BasicLogger
  app_http :: "nat WsServer"
  app_grpc :: "string \<times> credentials"

text \<open>How \<open>main\<close> ends: with an exit status, with an exception nothing catches, or with both servers running.\<close>

datatype main_result = Exited int | Uncaught exn | Running server_app

text \<open>
  The classes of \<open>include/exception.hpp\<close> derive from \<open>std::exception\<close>, what the code throws as
  \<open>std::runtime_error\<close> is a \<open>StdException\<close> of the model, and \<open>rt\<close> says which exceptions of the
  libraries are runtime errors.
\<close>

fun caught_by_main :: "(exn \<Rightarrow> bool) \<Rightarrow> exn \<Rightarrow> bool" where
  "caught_by_main rt (NoPathFoundOnTree _) = False"
| "caught_by_main rt (GenException _) = False"
| "caught_by_main rt (NoPermission _) = False"
| "caught_by_main rt (OutOfBound _) = False"
| "caught_by_main rt (NotValid _) = False"
| "caught_by_main rt (NotSet _) = False"
| "caught_by_main rt (StdException _) = True"
| "caught_by_main rt e = rt e"

definition main_catch :: "(exn \<Rightarrow> bool) \<Rightarrow> exn \<Rightarrow> main_result" where
  "main_catch rt e = (if caught_by_main rt e then Exited (-1) else Uncaught e)"

text \<open>\<open>database.reset\<close>, by the option \<open>record\<close>.\<close>

definition record_mode :: "server_options \<Rightarrow> exn + VssDatabase_Record option" where
  "record_mode opts =
     (if so_record opts = ''recordSet'' \<or> so_record opts = ''recordSetAndGet''
      then Inr (Some (new_VssDatabase_Record (so_record_path opts) (so_record opts)))
      else if so_record opts \<noteq> ''noRecord'' then Inl (StdException (''record option \"'' @ so_record opts @ ''\" is invalid''))
      else Inr None)"

text \<open>
  The part of \<open>main\<close> inside \<open>try\<close>. The publisher is shared between \<open>main\<close> and the subscription
  handler, so the paths added to it are those of the handler's publisher. What \<open>initJsonTree\<close> throws
  for an unreadable file is a plain \<open>std::exception\<close>.
\<close>

definition server_setup :: "'a lib_scheme \<Rightarrow> (exn \<Rightarrow> bool) \<Rightarrow> file_system \<Rightarrow> mosquitto \<Rightarrow> 64 word \<times> conn_type \<Rightarrow> (string \<Rightarrow> string option)
    \<Rightarrow> server_options \<Rightarrow> BasicLogger \<Rightarrow> main_result" where
  "server_setup L rt fs M mock file opts logger =
     (case (case so_overlays opts of None \<Rightarrow> Inr [] | Some d \<Rightarrow> gatherOverlays fs d) of
        Inl e \<Rightarrow> main_catch rt e
      | Inr overlayfiles \<Rightarrow>
          let jwtPubkey = getPublicKeyFromFile (fs_key fs) (path_append (so_cert_path opts) ''jwt.key.pub'');
              auth = new_Authenticator jwtPubkey ''RS256'';
              publisher = new_MQTTPublisher (so_mqtt opts);
              db0 = \<lparr>data_tree = json_new, meta_tree = json_new\<rparr>
          in (case record_mode opts of
                Inl e \<Rightarrow> main_catch rt e
              | Inr rec \<Rightarrow>
                  (case initJsonTree L (fs_content fs (so_vss opts)) db0 of
                     (Inl e, _) \<Rightarrow> if e = StdException ''std::exception'' then Uncaught e else main_catch rt e
                   | (Inr _, db1) \<Rightarrow>
                       (case applyOverlays L fs (mockChannel (fst mock) (snd mock)) overlayfiles db1 of
                          (Inl e, _) \<Rightarrow> main_catch rt e
                        | (Inr _, db2) \<Rightarrow>
                            (case add_publish_paths L db2 (publish_tokens (opt_publish (so_mqtt opts))) publisher logger of
                               (Inl e, _, _) \<Rightarrow> main_catch rt e
                             | (Inr _, publisher', logger') \<Rightarrow>
                                 Running
                                   \<lparr>app_world = \<lparr>w_db = db2, w_sub = addPublisher (M, publisher') new_SubscriptionHandler,
                                                w_auth = auth, w_rec = rec\<rparr>,
                                    app_logger = logger',
                                    app_http = new_WsServer,
                                    app_grpc = RunServer file (so_cert_path opts) (so_insecure opts)\<rparr>)))))"

definition server_main :: "'a lib_scheme \<Rightarrow> (exn \<Rightarrow> bool) \<Rightarrow> file_system \<Rightarrow> mosquitto \<Rightarrow> 64 word \<times> conn_type \<Rightarrow> (string \<Rightarrow> string option)
    \<Rightarrow> server_options \<Rightarrow> main_result" where
  "server_main L rt fs M mock file opts =
     (if so_help opts then Exited 0
      else case active_levels (so_log_level opts) (level_bits LOG_NONE) of
             None \<Rightarrow> Exited (-1)
           | Some w \<Rightarrow> server_setup L rt fs M mock file opts (new_BasicLogger w))"

text \<open>
  \<open>httpRunServer\<close>, the thread of the web-socket server: the command processor (object 0) listens to
  everything. An exception that leaves a thread ends the program.
\<close>

definition httpRunServer :: "(string \<Rightarrow> string option) \<Rightarrow> (string \<Rightarrow> string \<Rightarrow> exn + unit) \<Rightarrow> exn + unit \<Rightarrow> exn + unit \<Rightarrow> bool
    \<Rightarrow> server_options \<Rightarrow> nat WsServer \<Rightarrow> (exn + action list) \<times> nat WsServer" where
  "httpRunServer file use_cert resolve listen acceptor_open opts srv =
     (case Initialize file use_cert resolve listen (so_cert_path opts) (so_insecure opts) (AddListener OBS_ALL 0 srv) of
        (Inl e, srv') \<Rightarrow> (Inl e, srv')
      | (Inr _, srv') \<Rightarrow> Start acceptor_open srv')"

section \<open>Lemmas\<close>

text \<open>Entries with different names have one order by name.\<close>

lemma sort_key_unique:
  assumes "mset xs = mset ys" "inj_on f (set xs)"
  shows "sort_key f xs = sort_key f ys"
proof (rule properties_for_sort_key)
  show "mset (sort_key f ys) = mset xs" using assms(1) by simp
  show "sorted (map f (sort_key f ys))" by simp
  fix k assume k: "k \<in> set (sort_key f ys)"
  then have "k \<in> set xs" using assms(1) by (metis set_sort mset_eq_setD)
  with assms(2) have same: "filter (\<lambda>x. f k = f x) zs = filter (\<lambda>x. x = k) zs" if "set zs = set xs" for zs
    using that by (intro filter_cong) (auto simp: inj_on_def)
  have "filter (\<lambda>x. x = k) zs = replicate (count (mset zs) k) k" for zs
    by (induction zs) auto
  with same[of xs] same[of "sort_key f ys"] assms(1) mset_eq_setD[OF assms(1)]
  show "filter (\<lambda>x. f k = f x) (sort_key f ys) = filter (\<lambda>x. f k = f x) xs" by simp
qed

lemma gatherOverlays_order:
  assumes "fs_is_directory fs d" "fs_entries fs d = Inr es" "fs_is_directory fs' d" "fs_entries fs' d = Inr es'"
    and "mset es = mset es'" "inj_on entry_name (set es)"
  shows "gatherOverlays fs d = gatherOverlays fs' d"
proof -
  have "mset (filter is_overlay es) = mset (filter is_overlay es')" using assms(5) by simp
  moreover have "inj_on entry_name (set (filter is_overlay es))" using assms(6) by (auto simp: inj_on_def)
  ultimately have "sort_key entry_name (filter is_overlay es) = sort_key entry_name (filter is_overlay es')" by (rule sort_key_unique)
  with assms(1-4) show ?thesis by (simp add: gatherOverlays_def)
qed

lemma gatherOverlays_result:
  "gatherOverlays fs d = Inr ps \<Longrightarrow> \<exists>es. fs_entries fs d = Inr es \<and> set ps = {p \<in> set es. is_overlay p} \<and> sorted (map entry_name ps)"
  by (auto simp: gatherOverlays_def bindE_Inr_conv split: if_splits)

lemma applyOverlays_append:
  "applyOverlays L fs c (ps @ qs) db =
     (case applyOverlays L fs c ps db of (Inl e, db') \<Rightarrow> (Inl e, db') | (Inr _, db') \<Rightarrow> applyOverlays L fs c qs db')"
  by (induction ps arbitrary: db) (auto split: prod.splits sum.splits)

text \<open>One overlay after the other, each on the tree the ones before it have left.\<close>

lemma applyOverlays_success:
  "applyOverlays L fs c ps db = (Inr (), db') \<longleftrightarrow>
   (\<exists>dbs. length dbs = Suc (length ps) \<and> hd dbs = db \<and> last dbs = db' \<and>
      (\<forall>i < length ps. \<exists>j. j_parse L (fs_content fs (entry_path (ps ! i))) = Inr j
         \<and> updateJsonTree L c j (dbs ! i) = (Inr (), dbs ! Suc i)))"
proof (induction ps arbitrary: db)
  case Nil
  have "(\<exists>dbs. length dbs = Suc 0 \<and> hd dbs = db \<and> last dbs = db') \<longleftrightarrow> db = db'"
    by (metis One_nat_def last_ConsL length_Cons length_Suc_conv list.sel(1) list.size(3) length_0_conv)
  then show ?case by auto
next
  case (Cons p ps)
  let ?steps = "\<lambda>ps db dbs. length dbs = Suc (length ps) \<and> hd dbs = db \<and> last dbs = db' \<and>
      (\<forall>i < length ps. \<exists>j. j_parse L (fs_content fs (entry_path (ps ! i))) = Inr j \<and> updateJsonTree L c j (dbs ! i) = (Inr (), dbs ! Suc i))"
  have "applyOverlays L fs c (p # ps) db = (Inr (), db') \<longleftrightarrow> (\<exists>j db1. j_parse L (fs_content fs (entry_path p)) = Inr j
      \<and> updateJsonTree L c j db = (Inr (), db1) \<and> applyOverlays L fs c ps db1 = (Inr (), db'))"
    by (auto split: sum.splits prod.splits)
  also have "\<dots> \<longleftrightarrow> (\<exists>j db1 dbs. j_parse L (fs_content fs (entry_path p)) = Inr j \<and> updateJsonTree L c j db = (Inr (), db1) \<and> ?steps ps db1 dbs)"
    unfolding Cons.IH by blast
  also have "\<dots> \<longleftrightarrow> (\<exists>dbs. ?steps (p # ps) db dbs)"
  proof
    assume "\<exists>j db1 dbs. j_parse L (fs_content fs (entry_path p)) = Inr j \<and> updateJsonTree L c j db = (Inr (), db1) \<and> ?steps ps db1 dbs"
    then obtain j db1 dbs where *: "j_parse L (fs_content fs (entry_path p)) = Inr j" "updateJsonTree L c j db = (Inr (), db1)" "?steps ps db1 dbs" by blast
    then have ne: "dbs \<noteq> []" by auto
    with * have "dbs ! 0 = db1" by (simp add: hd_conv_nth)
    with * ne have "?steps (p # ps) db (db # dbs)" by (auto simp: less_Suc_eq_0_disj)
    then show "\<exists>dbs. ?steps (p # ps) db dbs" by blast
  next
    assume "\<exists>dbs. ?steps (p # ps) db dbs"
    then obtain dbs where *: "?steps (p # ps) db dbs" by blast
    then obtain d1 d2 ds where dbs: "dbs = d1 # d2 # ds" by (auto simp: length_Suc_conv)
    with * have "updateJsonTree L c j db = (Inr (), d2)" if "j_parse L (fs_content fs (entry_path p)) = Inr j" for j
      using that by fastforce
    moreover from * obtain j where "j_parse L (fs_content fs (entry_path p)) = Inr j" by fastforce
    moreover from * dbs have "?steps ps d2 (d2 # ds)" by fastforce
    ultimately show "\<exists>j db1 dbs. j_parse L (fs_content fs (entry_path p)) = Inr j \<and> updateJsonTree L c j db = (Inr (), db1) \<and> ?steps ps db1 dbs"
      by blast
  qed
  finally show ?case .
qed

lemma add_publish_paths_result:
  "add_publish_paths L db toks p l = (Inr (), p', l') \<Longrightarrow>
   p' = p\<lparr>paths := paths p @ filter (\<lambda>t. checkPathValid L db (fromVSSGen1 L t) = Inr True) toks\<rparr>"
proof (induction toks arbitrary: p l)
  case (Cons tok toks)
  then obtain valid where valid: "checkPathValid L db (fromVSSGen1 L tok) = Inr valid" by (auto split: sum.splits)
  show ?case
  proof (cases valid)
    case True
    with valid Cons.prems have "add_publish_paths L db toks (addPublishPath tok p) l = (Inr (), p', l')" by simp
    from Cons.IH[OF this] valid True show ?thesis by (simp add: addPublishPath_def)
  next
    case False
    with valid Cons show ?thesis by auto
  qed
qed simp

text \<open>What a server that runs was started with.\<close>

lemma server_main_running:
  assumes "server_main L rt fs M mock file opts = Running app"
  shows "\<not> so_help opts" "\<exists>w. active_levels (so_log_level opts) 0 = Some w"
    "record_mode opts = Inr (w_rec (app_world app))"
    "subscriptions (w_sub (app_world app)) = []" "buffer (w_sub (app_world app)) = []"
    "\<exists>ps db. (case so_overlays opts of None \<Rightarrow> Inr [] | Some d \<Rightarrow> gatherOverlays fs d) = Inr ps
      \<and> initJsonTree L (fs_content fs (so_vss opts)) \<lparr>data_tree = json_new, meta_tree = json_new\<rparr> = (Inr (), db)
      \<and> applyOverlays L fs (mockChannel (fst mock) (snd mock)) ps db = (Inr (), w_db (app_world app))"
    "publishers (w_sub (app_world app)) = [(M, (new_MQTTPublisher (so_mqtt opts))\<lparr>paths :=
       filter (\<lambda>t. checkPathValid L (w_db (app_world app)) (fromVSSGen1 L t) = Inr True) (publish_tokens (opt_publish (so_mqtt opts)))\<rparr>)]"
    "app_grpc app = RunServer file (so_cert_path opts) (so_insecure opts)"
proof -
  let ?over = "case so_overlays opts of None \<Rightarrow> Inr [] | Some d \<Rightarrow> gatherOverlays fs d"
  from assms obtain w where nohelp: "\<not> so_help opts" and w: "active_levels (so_log_level opts) 0 = Some w"
      and started: "server_setup L rt fs M mock file opts (new_BasicLogger w) = Running app"
    by (auto simp: server_main_def level_bits_def split: if_splits option.splits)
  have catch: "main_catch rt e \<noteq> Running app" for e by (simp add: main_catch_def)
  from started obtain ps where ps: "?over = Inr ps"
    by (cases ?over) (auto simp: server_setup_def catch)
  from started ps obtain rec where rec: "record_mode opts = Inr rec"
    by (cases "record_mode opts") (auto simp: server_setup_def catch)
  obtain r1 db1 where init: "initJsonTree L (fs_content fs (so_vss opts)) \<lparr>data_tree = json_new, meta_tree = json_new\<rparr> = (r1, db1)" by fastforce
  with started ps rec have r1: "r1 = Inr ()" by (cases r1) (auto simp: server_setup_def catch split: if_splits)
  obtain r2 db2 where over: "applyOverlays L fs (mockChannel (fst mock) (snd mock)) ps db1 = (r2, db2)" by fastforce
  with started ps rec init r1 have r2: "r2 = Inr ()" by (cases r2) (auto simp: server_setup_def catch)
  obtain r3 p l where pub: "add_publish_paths L db2 (publish_tokens (opt_publish (so_mqtt opts))) (new_MQTTPublisher (so_mqtt opts)) (new_BasicLogger w) = (r3, p, l)"
    by (metis prod_cases3)
  with started ps rec init r1 over r2 have r3: "r3 = Inr ()" by (cases r3) (auto simp: server_setup_def catch)
  from started ps rec init r1 over r2 pub r3 have app: "app = \<lparr>app_world = \<lparr>w_db = db2, w_sub = addPublisher (M, p) new_SubscriptionHandler,
      w_auth = new_Authenticator (getPublicKeyFromFile (fs_key fs) (path_append (so_cert_path opts) ''jwt.key.pub'')) ''RS256'', w_rec = rec\<rparr>,
      app_logger = l, app_http = new_WsServer, app_grpc = RunServer file (so_cert_path opts) (so_insecure opts)\<rparr>"
    by (auto simp: server_setup_def)
  have "p = (new_MQTTPublisher (so_mqtt opts))\<lparr>paths := filter (\<lambda>t. checkPathValid L db2 (fromVSSGen1 L t) = Inr True) (publish_tokens (opt_publish (so_mqtt opts)))\<rparr>"
    using add_publish_paths_result[OF pub[unfolded r3]] by (simp add: new_MQTTPublisher_def)
  then show "publishers (w_sub (app_world app)) = [(M, (new_MQTTPublisher (so_mqtt opts))\<lparr>paths :=
       filter (\<lambda>t. checkPathValid L (w_db (app_world app)) (fromVSSGen1 L t) = Inr True) (publish_tokens (opt_publish (so_mqtt opts)))\<rparr>)]"
    by (simp add: app addPublisher_def new_SubscriptionHandler_def)
  show "\<not> so_help opts" "\<exists>w. active_levels (so_log_level opts) 0 = Some w" "record_mode opts = Inr (w_rec (app_world app))"
    "subscriptions (w_sub (app_world app)) = []" "buffer (w_sub (app_world app)) = []"
    "app_grpc app = RunServer file (so_cert_path opts) (so_insecure opts)"
    using nohelp w rec by (simp_all add: app addPublisher_def new_SubscriptionHandler_def)
  show "\<exists>ps db. ?over = Inr ps
      \<and> initJsonTree L (fs_content fs (so_vss opts)) \<lparr>data_tree = json_new, meta_tree = json_new\<rparr> = (Inr (), db)
      \<and> applyOverlays L fs (mockChannel (fst mock) (snd mock)) ps db = (Inr (), w_db (app_world app))"
    using ps init r1 over r2 by (simp add: app)
qed

text \<open>
  A signal file that is no JSON does not end with the message for a runtime error: what is thrown
  is no runtime error any more.
\<close>

lemma broken_vss_uncaught:
  assumes "\<not> so_help opts" "active_levels (so_log_level opts) 0 = Some w" "so_overlays opts = None" "record_mode opts = Inr rec"
    and "j_parse L (fs_content fs (so_vss opts)) = Inl e" "is_std_exception e"
  shows "server_main L rt fs M mock file opts = Uncaught (StdException ''std::exception'')"
  using assms by (simp add: server_main_def server_setup_def level_bits_def initJsonTree_def Let_def)

end
