(* ===== verification/ServerOptions.thy ===== *)
theory ServerOptions
  imports ServerMain
begin

text \<open>
  The options of the server, as the first part of \<open>src/main.cpp\<close> gathers them from the command line
  and the configuration file. \<open>boost::program_options\<close> and \<open>boost::filesystem\<close> are the parameter
  \<open>option_parser\<close>. Nothing of this is inside the \<open>try\<close> of \<open>main\<close>: an exception ends the program.
\<close>

datatype opt_value = OText string | ONumber int | OFlag bool | OTexts "string list"

text \<open>\<open>variables_map\<close>: the value of an option and whether it is only the default.\<close>

type_synonym variables = "string \<Rightarrow> (opt_value \<times> bool) option"

record option_parser =
  po_command_line :: "exn + (string \<times> opt_value) list"
  po_config_file :: "string \<Rightarrow> exn + (string \<times> opt_value) list"
  po_store :: "(string \<times> opt_value) list \<Rightarrow> variables \<Rightarrow> exn + variables"
  po_notify :: "variables \<Rightarrow> exn + unit"
  po_absolute :: "string \<Rightarrow> string \<Rightarrow> string"
  po_parent_path :: "string \<Rightarrow> string"

text \<open>The options with a default value.\<close>

definition default_options :: "(string \<times> opt_value) list" where
  "default_options =
     [(''config-file'', OText ''config.ini''), (''cert-path'', OText ''.''), (''insecure'', OFlag False),
      (''address'', OText ''127.0.0.1''), (''port'', ONumber 8090), (''record'', OText ''noRecord''), (''record-path'', OText ''.''),
      (''mqtt.insecure'', OFlag False), (''mqtt.address'', OText ''localhost''), (''mqtt.port'', ONumber 1883), (''mqtt.qos'', ONumber 0),
      (''mqtt.keepalive'', ONumber 60), (''mqtt.retry'', ONumber 3), (''mqtt.topic-prefix'', OText ''vss''), (''mqtt.publish'', OText [])]"

text \<open>\<open>variables[k].as<path>()\<close>; for an option without a value it is \<open>boost::bad_any_cast\<close>.\<close>

definition as_path :: "variables \<Rightarrow> string \<Rightarrow> exn + string" where
  "as_path vars k = (case vars k of Some (OText t, _) \<Rightarrow> Inr t | _ \<Rightarrow> Inl (StdException ''boost::bad_any_cast''))"

text \<open>A relative path is taken relative to the directory of the configuration file; whether it is the default is kept.\<close>

definition update_path :: "option_parser \<Rightarrow> string \<Rightarrow> string \<Rightarrow> variables \<Rightarrow> exn + variables" where
  "update_path P configFilePath k vars =
     bindE (as_path vars k) (\<lambda>p.
     Inr (vars(k := map_option (\<lambda>(_, d). (OText (po_absolute P p (po_parent_path P configFilePath)), d)) (vars k))))"

definition read_config :: "option_parser \<Rightarrow> (string \<Rightarrow> string option) \<Rightarrow> string \<Rightarrow> variables \<Rightarrow> exn + variables" where
  "read_config P open_file configFile vars =
     (case open_file configFile of
        None \<Rightarrow> Inr vars
      | Some content \<Rightarrow>
          bindE (po_config_file P content) (\<lambda>cfg.
          bindE (po_store P cfg vars) (\<lambda>vars2.
          bindE (update_path P configFile ''vss'' vars2) (\<lambda>vars3.
          update_path P configFile ''cert-path'' vars3))))"

definition read_options :: "option_parser \<Rightarrow> (string \<Rightarrow> string option) \<Rightarrow> exn + variables" where
  "read_options P open_file =
     bindE (po_command_line P) (\<lambda>cl.
     bindE (po_store P cl Map.empty) (\<lambda>vars.
     if vars ''config-file'' = None then Inr vars
     else
       bindE (as_path vars ''config-file'') (\<lambda>configFile.
       bindE (read_config P open_file configFile vars) (\<lambda>vars'.
       po_store P cl vars'))))"

text \<open>What the rest of \<open>main\<close> reads from the map. \<open>logLevels\<close> is bound to the option \<open>log-level\<close>.\<close>

definition opt_of :: "variables \<Rightarrow> string \<Rightarrow> opt_value option" where
  "opt_of vars k = map_option fst (vars k)"

definition text_of :: "variables \<Rightarrow> string \<Rightarrow> string" where
  "text_of vars k = (case opt_of vars k of Some (OText t) \<Rightarrow> t | _ \<Rightarrow> [])"

definition number_of :: "variables \<Rightarrow> string \<Rightarrow> int" where
  "number_of vars k = (case opt_of vars k of Some (ONumber i) \<Rightarrow> i | _ \<Rightarrow> 0)"

definition flag_of :: "variables \<Rightarrow> string \<Rightarrow> bool" where
  "flag_of vars k = (opt_of vars k = Some (OFlag True))"

definition mqtt_options_of :: "variables \<Rightarrow> mqtt_options" where
  "mqtt_options_of vars =
     \<lparr>opt_insecure = flag_of vars ''mqtt.insecure'',
      opt_username = map_option (\<lambda>_. text_of vars ''mqtt.username'') (vars ''mqtt.username''),
      opt_password = map_option (\<lambda>_. text_of vars ''mqtt.password'') (vars ''mqtt.password''),
      opt_address = text_of vars ''mqtt.address'', opt_port = number_of vars ''mqtt.port'', opt_qos = number_of vars ''mqtt.qos'',
      opt_keepalive = number_of vars ''mqtt.keepalive'', opt_retry = number_of vars ''mqtt.retry'',
      opt_topic_prefix = text_of vars ''mqtt.topic-prefix'', opt_publish = text_of vars ''mqtt.publish''\<rparr>"

definition options_of :: "variables \<Rightarrow> server_options" where
  "options_of vars =
     \<lparr>so_help = (vars ''help'' \<noteq> None), so_vss = text_of vars ''vss'',
      so_overlays = map_option (\<lambda>_. text_of vars ''overlays'') (vars ''overlays''),
      so_cert_path = text_of vars ''cert-path'', so_insecure = flag_of vars ''insecure'',
      so_record = text_of vars ''record'', so_record_path = text_of vars ''record-path'',
      so_log_level = (case opt_of vars ''log-level'' of Some (OTexts ls) \<Rightarrow> ls | _ \<Rightarrow> [''NONE'']),
      so_mqtt = mqtt_options_of vars\<rparr>"

text \<open>The whole program: the options, then the rest.\<close>

definition main_program :: "'a lib_scheme \<Rightarrow> option_parser \<Rightarrow> (string \<Rightarrow> string option) \<Rightarrow> (exn \<Rightarrow> bool) \<Rightarrow> file_system \<Rightarrow> mosquitto
    \<Rightarrow> 64 word \<times> conn_type \<Rightarrow> main_result" where
  "main_program L P open_file rt fs M mock =
     (case read_options P open_file of
        Inl e \<Rightarrow> Uncaught e
      | Inr vars \<Rightarrow>
          if vars ''help'' \<noteq> None then Exited 0
          else
            (case po_notify P vars of
               Inl e \<Rightarrow> Uncaught e
             | Inr _ \<Rightarrow> server_main L rt fs M mock open_file (options_of vars)))"

section \<open>What the library promises\<close>

text \<open>
  \<open>store\<close>: a value that is there and not the default stays, a new value is taken over, and an option
  with a default has at least that. \<open>log-level\<close> is composing: its values are collected.
\<close>

definition stored_as_documented :: "(string \<times> opt_value) list \<Rightarrow> variables \<Rightarrow> variables \<Rightarrow> bool" where
  "stored_as_documented ps vs vs' \<longleftrightarrow>
     (\<forall>k. k \<noteq> ''log-level'' \<longrightarrow> vs' k =
        (case vs k of
           Some (v, False) \<Rightarrow> Some (v, False)
         | old \<Rightarrow> (case map_of ps k of
             Some v \<Rightarrow> Some (v, False)
           | None \<Rightarrow> (case old of Some x \<Rightarrow> Some x | None \<Rightarrow> map_option (\<lambda>v. (v, True)) (map_of default_options k)))))"

definition store_doc :: "option_parser \<Rightarrow> bool" where
  "store_doc P \<longleftrightarrow> (\<forall>ps vs vs'. po_store P ps vs = Inr vs' \<longrightarrow> stored_as_documented ps vs vs')"

section \<open>Lemmas\<close>

lemma stored_final: "stored_as_documented ps vs vs' \<Longrightarrow> k \<noteq> ''log-level'' \<Longrightarrow> vs k = Some (v, False) \<Longrightarrow> vs' k = Some (v, False)"
  by (simp add: stored_as_documented_def)

lemma store_final:
  "store_doc P \<Longrightarrow> po_store P ps vs = Inr vs' \<Longrightarrow> k \<noteq> ''log-level'' \<Longrightarrow> vs k = Some (v, False) \<Longrightarrow> vs' k = Some (v, False)"
  unfolding store_doc_def by (metis stored_final)

lemma stored_new:
  assumes "stored_as_documented ps vs vs'" "k \<noteq> ''log-level''" "map_of ps k = Some v" "\<And>u. vs k \<noteq> Some (u, False)"
  shows "vs' k = Some (v, False)"
proof (cases "vs k")
  case (Some x)
  with assms show ?thesis by (cases x; cases "snd x") (auto simp: stored_as_documented_def)
qed (use assms in \<open>simp add: stored_as_documented_def\<close>)

lemma stored_default:
  "stored_as_documented ps Map.empty vs' \<Longrightarrow> k \<noteq> ''log-level'' \<Longrightarrow> map_of ps k = None \<Longrightarrow>
   vs' k = map_option (\<lambda>v. (v, True)) (map_of default_options k)"
  by (simp add: stored_as_documented_def)

lemma read_config_frame:
  assumes "read_config P open_file configFile vars = Inr vars'" "store_doc P" "k \<noteq> ''log-level''" "k \<noteq> ''vss''" "k \<noteq> ''cert-path''"
    and "vars k = Some (v, False)"
  shows "vars' k = Some (v, False)"
proof (cases "open_file configFile")
  case (Some content)
  with assms(1) obtain c vars2 where "po_store P c vars = Inr vars2" "vars' k = vars2 k"
    using assms(4,5) by (auto simp: read_config_def update_path_def bindE_Inr_conv)
  with store_final[OF assms(2) this(1) assms(3,6)] show ?thesis by simp
qed (use assms in \<open>simp add: read_config_def\<close>)

text \<open>The command line comes before the configuration file, except for the two paths.\<close>

lemma command_line_wins:
  assumes P: "store_doc P" and cl: "po_command_line P = Inr cl" and vars: "read_options P open_file = Inr vars"
    and k: "k \<noteq> ''log-level''" "k \<noteq> ''vss''" "k \<noteq> ''cert-path''" "map_of cl k = Some v"
  shows "vars k = Some (v, False)"
proof -
  from cl vars obtain vars1 where first: "po_store P cl Map.empty = Inr vars1"
    and last: "vars = vars1 \<or> (\<exists>f vars2. read_config P open_file f vars1 = Inr vars2 \<and> po_store P cl vars2 = Inr vars)"
    by (auto simp: read_options_def bindE_Inr_conv split: if_splits)
  have vars1: "vars1 k = Some (v, False)"
    using first P k by (intro stored_new[of cl Map.empty]) (auto simp: store_doc_def)
  from last show ?thesis
  proof (elim disjE exE conjE)
    fix f vars2 assume read: "read_config P open_file f vars1 = Inr vars2" and store: "po_store P cl vars2 = Inr vars"
    show ?thesis by (rule store_final[OF P store k(1) read_config_frame[OF read P k(1-3) vars1]])
  qed (use vars1 in simp)
qed

text \<open>
  Where a configuration file is read, even a signal file and a certificate directory given on the command line
  are looked up next to the configuration file; where none is read they stay.
\<close>

definition config_file_of :: "(string \<times> opt_value) list \<Rightarrow> string \<Rightarrow> bool" where
  "config_file_of cl f \<longleftrightarrow> map_of cl ''config-file'' = Some (OText f) \<or> map_of cl ''config-file'' = None \<and> f = ''config.ini''"

lemma config_file_stored:
  assumes "stored_as_documented cl Map.empty vars" "config_file_of cl f"
  shows "\<exists>d. vars ''config-file'' = Some (OText f, d)"
  using assms(2) stored_new[OF assms(1), of "''config-file''"] stored_default[OF assms(1), of "''config-file''"]
  by (auto simp: config_file_of_def default_options_def)

lemma path_moved:
  assumes P: "store_doc P" and cl: "po_command_line P = Inr cl" "map_of cl k = Some (OText p)" and vars: "read_options P open_file = Inr vars"
    and cfg: "config_file_of cl f" and k: "k = ''vss'' \<or> k = ''cert-path''"
  shows "vars k = Some (OText (case open_file f of None \<Rightarrow> p | Some _ \<Rightarrow> po_absolute P p (po_parent_path P f)), False)"
proof -
  from k have log: "k \<noteq> ''log-level''" by auto
  from cl(1) vars obtain vars1 where first: "po_store P cl Map.empty = Inr vars1" by (auto simp: read_options_def bindE_Inr_conv)
  with P have doc: "stored_as_documented cl Map.empty vars1" by (simp add: store_doc_def)
  have vars1: "vars1 k = Some (OText p, False)" using stored_new[OF doc log cl(2)] by simp
  from config_file_stored[OF doc cfg] obtain d where "vars1 ''config-file'' = Some (OText f, d)" ..
  with vars cl(1) first obtain vars4 where 1: "read_config P open_file f vars1 = Inr vars4" and 5: "po_store P cl vars4 = Inr vars"
    by (auto simp: read_options_def as_path_def bindE_Inr_conv)
  have "vars4 k = Some (OText (case open_file f of None \<Rightarrow> p | Some _ \<Rightarrow> po_absolute P p (po_parent_path P f)), False)"
  proof (cases "open_file f")
    case None
    with 1 vars1 show ?thesis by (simp add: read_config_def)
  next
    case (Some content)
    with 1 obtain c vars2 vars3 where 2: "po_store P c vars1 = Inr vars2"
      and 3: "update_path P f ''vss'' vars2 = Inr vars3" and 4: "update_path P f ''cert-path'' vars3 = Inr vars4"
      by (auto simp: read_config_def bindE_Inr_conv)
    from store_final[OF P 2 log vars1] 3 4 k Some show ?thesis
      by (auto simp: update_path_def as_path_def bindE_Inr_conv)
  qed
  from store_final[OF P 5 log this] show ?thesis .
qed

text \<open>
  A configuration file that can be read but names no signal file ends a program without that option with an
  exception, even one that was only asked for help.
\<close>

lemma config_without_vss:
  assumes P: "store_doc P" and cl: "po_command_line P = Inr cl" "map_of cl ''vss'' = None" "map_of cl ''config-file'' = None"
    and first: "po_store P cl Map.empty = Inr vars1" and cfg: "open_file ''config.ini'' = Some content" "po_config_file P content = Inr c"
      "map_of c ''vss'' = None" "po_store P c vars1 = Inr vars2"
  shows "main_program L P open_file rt fs M mock = Uncaught (StdException ''boost::bad_any_cast'')"
proof -
  have k: "''vss'' \<noteq> ''log-level''" "''config-file'' \<noteq> ''log-level''" by simp_all
  from P first have doc: "stored_as_documented cl Map.empty vars1" by (simp add: store_doc_def)
  have "vars1 ''vss'' = None" "vars1 ''config-file'' = Some (OText ''config.ini'', True)"
    using stored_default[OF doc k(1) cl(2)] stored_default[OF doc k(2) cl(3)] by (simp_all add: default_options_def)
  moreover from P cfg(4) have "stored_as_documented c vars1 vars2" by (simp add: store_doc_def)
  ultimately have "vars2 ''vss'' = None" using cfg(3) by (simp add: stored_as_documented_def default_options_def)
  with \<open>vars1 ''config-file'' = _\<close> cl(1) first cfg show ?thesis
    by (simp add: main_program_def read_options_def read_config_def as_path_def update_path_def)
qed

text \<open>A required option that is missing is not reported with the usage text: nothing catches the exception.\<close>

lemma missing_option_uncaught:
  assumes "read_options P open_file = Inr vars" "vars ''help'' = None" "po_notify P vars = Inl e"
  shows "main_program L P open_file rt fs M mock = Uncaught e"
  using assms by (simp add: main_program_def)

text \<open>The documented behaviour of \<open>store\<close> can be had.\<close>

definition ref_store :: "(string \<times> opt_value) list \<Rightarrow> variables \<Rightarrow> exn + variables" where
  "ref_store ps vs = Inr (\<lambda>k. case vs k of
       Some (v, False) \<Rightarrow> Some (v, False)
     | old \<Rightarrow> (case map_of ps k of
         Some v \<Rightarrow> Some (v, False)
       | None \<Rightarrow> (case old of Some x \<Rightarrow> Some x | None \<Rightarrow> map_option (\<lambda>v. (v, True)) (map_of default_options k))))"

lemma ref_store_documented: "po_store P = ref_store \<Longrightarrow> store_doc P"
  by (auto simp: store_doc_def stored_as_documented_def ref_store_def)

end
