(* ===== verification/SessionRequests.thy ===== *)
theory SessionRequests
  imports CommandLaws WebSockServer
begin

text \<open>
  From the bytes of a connection to the command processor and back: a web-socket session whose
  messages are answered by the processor, as \<open>main\<close> connects them.
\<close>

section \<open>One request after another\<close>

text \<open>What a client expects: every text is one query, on the channel and world the one before it left.\<close>

fun queries :: "'a lib_scheme \<Rightarrow> (nat \<Rightarrow> env) \<Rightarrow> nat \<Rightarrow> string list \<Rightarrow> KuksaChannel \<Rightarrow> world \<Rightarrow> (exn + string list) \<times> KuksaChannel \<times> world" where
  "queries L Es i [] c w = (Inr [], c, w)"
| "queries L Es i (t # ts) c w =
     (case processQuery L (Es i) t c w of
        (Inl e, c', w') \<Rightarrow> (Inl e, c', w')
      | (Inr ans, c', w') \<Rightarrow>
          (case queries L Es (Suc i) ts c' w' of
             (Inl e, r) \<Rightarrow> (Inl e, r)
           | (Inr rest, r) \<Rightarrow> (Inr (as_string L ans # rest), r)))"

text \<open>
  What the session does: each message is put into the buffer by the library, and \<open>onRead\<close> is called
  with its length. The listener is the one command processor.
\<close>

definition processor_handler :: "'a lib_scheme \<Rightarrow> env \<Rightarrow> world request_handler" where
  "processor_handler L E = HandleRequest L (\<lambda>p. processQuery L E) [(OBS_ALL, 0 :: nat)]"

fun session_reads :: "'a lib_scheme \<Rightarrow> (nat \<Rightarrow> env) \<Rightarrow> (nat \<Rightarrow> nat) \<Rightarrow> nat \<Rightarrow> string list \<Rightarrow> WsSession \<Rightarrow> ConnectionHandler \<Rightarrow> world
    \<Rightarrow> (exn + action list) \<times> WsSession \<times> ConnectionHandler \<times> world" where
  "session_reads L Es clock_at i [] s h w = (Inr [], s, h, w)"
| "session_reads L Es clock_at i (t # ts) s h w =
     (case ws_onRead (processor_handler L (Es i)) NoError (length t) (clock_at i) (s\<lparr>bufferRead := bufferRead s @ t\<rparr>) h w of
        (Inl e, r) \<Rightarrow> (Inl e, r)
      | (Inr as, s', h', w') \<Rightarrow>
          (case session_reads L Es clock_at (Suc i) ts s' h' w' of
             (Inl e, r) \<Rightarrow> (Inl e, r)
           | (Inr bs, r) \<Rightarrow> (Inr (as @ bs), r)))"

lemma processor_handler_query:
  "processor_handler L E t c w =
     (case processQuery L E t c w of (Inl e, c', w') \<Rightarrow> (Inl e, c', w') | (Inr j, c', w') \<Rightarrow> (Inr (as_string L j), c', w'))"
  unfolding processor_handler_def by (rule HandleRequest_single) simp

text \<open>One message.\<close>

lemma onRead_answers:
  assumes q: "processQuery L E t (session_channel s) w = (Inr ans, c', w')" and s: "bufferRead s = []" "write_ready s"
  shows "\<exists>as s'. ws_onRead (processor_handler L E) NoError (length t) now (s\<lparr>bufferRead := bufferRead s @ t\<rparr>) h w = (Inr (as @ [AsyncRead]), s', h, w')
    \<and> writeQueue s' = writeQueue s @ [as_string L ans] \<and> session_channel s' = c' \<and> bufferRead s' = [] \<and> write_ready s'
    \<and> AsyncRead \<notin> set as \<and> writes as = (if writeQueue s = [] then [as_string L ans] else [])"
proof -
  let ?s2 = "(activity now (s\<lparr>bufferRead := t\<rparr>))\<lparr>session_channel := c', bufferRead := []\<rparr>"
  obtain as s' where wr: "ws_write (as_string L ans) ?s2 = (as, s')" by fastforce
  have s2: "write_ready ?s2" "writeQueue ?s2 = writeQueue s" "session_channel ?s2 = c'" "bufferRead ?s2 = []"
    using s(2) by (simp_all add: write_ready_def activity_def rearm_def)
  note eff = ws_write_effect[OF s2(1) wr]
  have "session_channel s' = c'" "bufferRead s' = []" using s2(3,4) by (subst eff(4); simp)+
  moreover have "AsyncRead \<notin> set as" using wr by (auto simp: ws_write_def Let_def split: if_splits)
  moreover have "ws_onRead (processor_handler L E) NoError (length t) now (s\<lparr>bufferRead := bufferRead s @ t\<rparr>) h w = (Inr (as @ [AsyncRead]), s', h, w')"
    using q wr s(1) by (simp add: ws_onRead_def processor_handler_query Let_def activity_def rearm_def)
  ultimately show ?thesis using eff s2(2) by auto
qed

lemma onRead_escapes:
  assumes "processQuery L E t (session_channel s) w = (Inl e, c', w')" "bufferRead s = []"
  shows "fst (ws_onRead (processor_handler L E) NoError (length t) now (s\<lparr>bufferRead := bufferRead s @ t\<rparr>) h w) = Inl e"
  using assms by (simp add: ws_onRead_def processor_handler_query Let_def activity_def rearm_def)

text \<open>All of them: the answers are queued in the order of the requests, and each time a new read is started.\<close>

lemma session_reads_answers:
  assumes "queries L Es i ts (session_channel s) w = (Inr answers, c', w')" "bufferRead s = []" "write_ready s"
  shows "\<exists>as s'. session_reads L Es clock_at i ts s h w = (Inr as, s', h, w') \<and> writeQueue s' = writeQueue s @ answers
    \<and> session_channel s' = c' \<and> bufferRead s' = [] \<and> write_ready s' \<and> length (filter (\<lambda>a. a = AsyncRead) as) = length ts"
  using assms
proof (induction ts arbitrary: i s w answers)
  case (Cons t ts)
  obtain r c1 w1 where q: "processQuery L (Es i) t (session_channel s) w = (r, c1, w1)" by (metis prod_cases3)
  with Cons.prems(1) obtain ans rest where r: "r = Inr ans" "queries L Es (Suc i) ts c1 w1 = (Inr rest, c', w')" "answers = as_string L ans # rest"
    by (auto split: sum.splits prod.splits)
  from onRead_answers[OF q[unfolded r(1)] Cons.prems(2,3), of "clock_at i" h] obtain as s1
    where one: "ws_onRead (processor_handler L (Es i)) NoError (length t) (clock_at i) (s\<lparr>bufferRead := bufferRead s @ t\<rparr>) h w = (Inr (as @ [AsyncRead]), s1, h, w1)"
      and s1: "writeQueue s1 = writeQueue s @ [as_string L ans]" "session_channel s1 = c1" "bufferRead s1 = []" "write_ready s1" "AsyncRead \<notin> set as"
    by auto
  from r(2) s1(2) have "queries L Es (Suc i) ts (session_channel s1) w1 = (Inr rest, c', w')" by simp
  from Cons.IH[OF this s1(3,4)] obtain bs s' where
    more: "session_reads L Es clock_at (Suc i) ts s1 h w1 = (Inr bs, s', h, w')" "writeQueue s' = writeQueue s1 @ rest"
      "session_channel s' = c'" "bufferRead s' = []" "write_ready s'" "length (filter (\<lambda>a. a = AsyncRead) bs) = length ts"
    by auto
  have "filter (\<lambda>a. a = AsyncRead) as = []" using s1(5) by (auto simp: filter_empty_conv)
  with one more s1(1) r(3) show ?case by simp
qed simp

text \<open>An exception that leaves the processor ends the run at the request it was raised for.\<close>

lemma session_reads_escape:
  assumes "queries L Es i ts (session_channel s) w = (Inl e, r)" "bufferRead s = []" "write_ready s"
  shows "fst (session_reads L Es clock_at i ts s h w) = Inl e"
  using assms
proof (induction ts arbitrary: i s w)
  case (Cons t ts)
  obtain r1 c1 w1 where q: "processQuery L (Es i) t (session_channel s) w = (r1, c1, w1)" by (metis prod_cases3)
  show ?case
  proof (cases r1)
    case (Inl e')
    with q Cons.prems(1) have "e' = e" by simp
    with onRead_escapes[OF q[unfolded Inl] Cons.prems(2), of "clock_at i" h] show ?thesis
      by (auto split: prod.splits sum.splits)
  next
    case (Inr ans)
    from onRead_answers[OF q[unfolded Inr] Cons.prems(2,3), of "clock_at i" h] obtain as s1
      where one: "ws_onRead (processor_handler L (Es i)) NoError (length t) (clock_at i) (s\<lparr>bufferRead := bufferRead s @ t\<rparr>) h w = (Inr (as @ [AsyncRead]), s1, h, w1)"
        and s1: "session_channel s1 = c1" "bufferRead s1 = []" "write_ready s1"
      by auto
    from q Inr Cons.prems(1) s1(1) have "queries L Es (Suc i) ts (session_channel s1) w1 = (Inl e, r)"
      by (auto split: sum.splits prod.splits)
    from Cons.IH[OF this s1(2,3)] one show ?thesis by (auto split: prod.splits sum.splits)
  qed
qed simp

end
