(* ===== verification/ConcurrentSets.thy ===== *)
theory ConcurrentSets
  imports CommandLaws
begin

text \<open>
  Set requests of several clients at the same time: the web-socket thread and the threads of the gRPC
  server run \<open>processSet\<close> concurrently. A request is a sequence of steps between which other requests run:
  the validation and the checks (\<open>src/VssCommandSet.cpp\<close>, \<open>src/VssDatabase.cpp\<close>), the record line, which
  \<open>src/VssDatabase_Record.cpp\<close> writes before the mutex of the database is taken, and the store, which takes
  \<open>rwMutex_\<close> and publishes under it. Each step is done as a whole here; \<open>LockedSets\<close> adds the mutex and the
  runs in which a check, which takes no mutex, meets a store.
\<close>

section \<open>The steps of a request\<close>

record set_job =
  job_env :: env
  job_channel :: KuksaChannel
  job_request :: json

text \<open>Where a request stands: the next operation, with the path and the value; at the end, its answer.\<close>

datatype set_pc =
    SetStart
  | SetExists VSSPath json
  | SetAccess VSSPath json
  | SetWritable VSSPath json
  | SetAttributable VSSPath json
  | SetRecord VSSPath json
  | SetStore VSSPath json
  | SetDone "exn + json"

definition is_set_done :: "set_pc \<Rightarrow> bool" where
  "is_set_done pc = (case pc of SetDone _ \<Rightarrow> True | _ \<Rightarrow> False)"

definition is_set_store :: "set_pc \<Rightarrow> bool" where
  "is_set_store pc = (case pc of SetStore _ _ \<Rightarrow> True | _ \<Rightarrow> False)"

definition set_pair :: "'a lib_scheme \<Rightarrow> json \<Rightarrow> exn + (VSSPath \<times> json)" where
  "set_pair L request =
     bindE (req_string L request ''path'') (\<lambda>p.
     bindE (req_string L request ''requestId'') (\<lambda>rid.
     bindE (json_at request (req_attribute L request)) (\<lambda>v. Inr (fromVSS L p, v))))"

definition set_start :: "'a lib_scheme \<Rightarrow> set_job \<Rightarrow> set_pc" where
  "set_start L j =
     (case reject_request L (job_env j) (validateSet L (job_request j)) (job_request j) ''set'' ''set'' of
        Some answer \<Rightarrow> SetDone answer
      | None \<Rightarrow> (case set_pair L (job_request j) of Inl e \<Rightarrow> SetDone (Inl e) | Inr (p, v) \<Rightarrow> SetExists p v))"

text \<open>One check: an exception, the refusal \<open>answer\<close> for the request's id, or the next step.\<close>

definition set_check :: "'a lib_scheme \<Rightarrow> set_job \<Rightarrow> exn + bool \<Rightarrow> (string \<Rightarrow> json) \<Rightarrow> set_pc \<Rightarrow> set_pc" where
  "set_check L j result answer next_pc =
     (case result of
        Inl e \<Rightarrow> SetDone (Inl e)
      | Inr ok \<Rightarrow> if ok then next_pc
                  else SetDone (bindE (req_string L (job_request j) ''requestId'') (\<lambda>rid. Inr (answer rid))))"

definition set_record :: "'a lib_scheme \<Rightarrow> string \<Rightarrow> VSSPath \<Rightarrow> json \<Rightarrow> world \<Rightarrow> world" where
  "set_record L attr path value w =
     (case w_rec w of
        None \<Rightarrow> w
      | Some rec \<Rightarrow> w\<lparr>w_rec := Some (log_record (''set;'' @ attr @ '';'' @ to_string path @ '';'' @ j_pretty L value) rec)\<rparr>)"

definition set_store :: "'a lib_scheme \<Rightarrow> set_job \<Rightarrow> VSSPath \<Rightarrow> json \<Rightarrow> world \<Rightarrow> set_pc \<times> world" where
  "set_store L j path value w =
     (case setSignal L (env_clock (job_env j)) path (req_attribute L (job_request j)) value (w_db w) (w_sub w) of
        (r, _, db', sh') \<Rightarrow>
          (SetDone (case r of
             Inl e \<Rightarrow> set_error L (job_env j) (job_request j) path e
           | Inr _ \<Rightarrow> bindE (json_at (job_request j) ''requestId'') (\<lambda>rid.
               Inr (json_build [(''action'', JStr ''set''), (''requestId'', rid), (''ts'', JStr (stamp (job_env j)))]))),
           w\<lparr>w_db := db', w_sub := sh'\<rparr>))"

fun set_step :: "'a lib_scheme \<Rightarrow> set_job \<Rightarrow> set_pc \<Rightarrow> world \<Rightarrow> set_pc \<times> world" where
  "set_step L j SetStart w = (set_start L j, w)"
| "set_step L j (SetExists p v) w =
     (set_check L j (pathExists L (w_db w) p)
        (\<lambda>rid. pathNotFound (stamp (job_env j)) rid ''set'' (to_string p)) (SetAccess p v), w)"
| "set_step L j (SetAccess p v) w =
     (set_check L j (checkWriteAccess L (job_channel j) p)
        (\<lambda>rid. noAccess (stamp (job_env j)) rid ''set'' (''No write access to '' @ to_string p)) (SetWritable p v), w)"
| "set_step L j (SetWritable p v) w =
     (set_check L j (pathIsWritable L (w_db w) p)
        (\<lambda>rid. noAccess (stamp (job_env j)) rid ''set'' (''Can not set '' @ to_string p @ ''. Only sensor or actor leaves can be set.''))
        (SetAttributable p v), w)"
| "set_step L j (SetAttributable p v) w =
     (set_check L j (pathIsAttributable L (w_db w) p (req_attribute L (job_request j)))
        (\<lambda>rid. noAccess (stamp (job_env j)) rid ''set''
           (''Can not set path:'' @ to_string p @ '' with attribute:'' @ req_attribute L (job_request j) @ ''.''))
        (SetRecord p v), w)"
| "set_step L j (SetRecord p v) w = (SetStore p v, set_record L (req_attribute L (job_request j)) p v w)"
| "set_step L j (SetStore p v) w = set_store L j p v w"
| "set_step L j (SetDone answer) w = (SetDone answer, w)"

section \<open>All interleavings\<close>

text \<open>\<open>st_order\<close> notes the clients in the order of their stores.\<close>

record set_sys =
  st_world :: world
  st_pcs :: "nat \<Rightarrow> set_pc"
  st_order :: "nat list"

definition start_sets :: "world \<Rightarrow> set_sys" where
  "start_sets w = \<lparr>st_world = w, st_pcs = (\<lambda>_. SetStart), st_order = []\<rparr>"

definition sets_step :: "'a lib_scheme \<Rightarrow> (nat \<Rightarrow> set_job) \<Rightarrow> nat \<Rightarrow> set_sys \<Rightarrow> set_sys" where
  "sets_step L jobs i s =
     (let (pc', w') = set_step L (jobs i) (st_pcs s i) (st_world s)
      in \<lparr>st_world = w', st_pcs = (st_pcs s)(i := pc'),
          st_order = st_order s @ (if is_set_store (st_pcs s i) then [i] else [])\<rparr>)"

definition run_schedule :: "'a lib_scheme \<Rightarrow> (nat \<Rightarrow> set_job) \<Rightarrow> nat list \<Rightarrow> set_sys \<Rightarrow> set_sys" where
  "run_schedule L jobs is s = fold (sets_step L jobs) is s"

text \<open>The same requests, one after the other.\<close>

definition process_job :: "'a lib_scheme \<Rightarrow> set_job \<Rightarrow> world \<Rightarrow> (exn + json) \<times> world" where
  "process_job L j w = processSet L (job_env j) (job_channel j) (job_request j) w"

definition seq_sets :: "'a lib_scheme \<Rightarrow> (nat \<Rightarrow> set_job) \<Rightarrow> nat list \<Rightarrow> world \<Rightarrow> world" where
  "seq_sets L jobs is w = fold (\<lambda>i w. snd (process_job L (jobs i) w)) is w"

section \<open>The steps are the request\<close>

text \<open>The checks come to an answer before the store, or to none.\<close>

definition early_answer :: "'a lib_scheme \<Rightarrow> set_job \<Rightarrow> VssDatabase \<Rightarrow> (exn + json) option" where
  "early_answer L j db =
     (case reject_request L (job_env j) (validateSet L (job_request j)) (job_request j) ''set'' ''set'' of
        Some answer \<Rightarrow> Some answer
      | None \<Rightarrow>
          (case set_pair L (job_request j) of
             Inl e \<Rightarrow> Some (Inl e)
           | Inr (p, v) \<Rightarrow>
               (case set_checks L (job_env j) (job_channel j) (job_request j) (req_attribute L (job_request j)) p db of
                  Inl e \<Rightarrow> Some (Inl e) | Inr r \<Rightarrow> map_option Inr r)))"

lemma store_split:
  "database_setSignal L E path attr v w =
    (case setSignal L (env_clock E) path attr v (w_db w) (w_sub w) of
       (r, _, db', sh') \<Rightarrow> (r, (set_record L attr path v w)\<lparr>w_db := db', w_sub := sh'\<rparr>))"
  by (simp add: database_setSignal_def set_record_def rec_setSignal_def Let_def split: option.splits prod.splits)

lemma set_record_frame [simp]:
  "w_db (set_record L attr p v w) = w_db w" "w_sub (set_record L attr p v w) = w_sub w" "w_auth (set_record L attr p v w) = w_auth w"
  by (simp_all add: set_record_def split: option.splits)

text \<open>A request is its early answer, or the record line and the store.\<close>

lemma process_job_cases:
  "process_job L j w =
     (case early_answer L j (w_db w) of
        Some answer \<Rightarrow> (answer, w)
      | None \<Rightarrow>
          (case set_pair L (job_request j) of
             Inl e \<Rightarrow> (Inl e, w)
           | Inr (p, v) \<Rightarrow>
               (case set_store L j p v (set_record L (req_attribute L (job_request j)) p v w) of
                  (SetDone answer, w') \<Rightarrow> (answer, w') | (_, w') \<Rightarrow> (Inl Undefined, w'))))"
  by (auto simp: process_job_def processSet_def early_answer_def set_pair_def store_split set_store_def Let_def
      split: option.splits sum.splits prod.splits)


section \<open>Steps end\<close>

fun set_rank :: "set_pc \<Rightarrow> nat" where
  "set_rank SetStart = 0"
| "set_rank (SetExists _ _) = 1"
| "set_rank (SetAccess _ _) = 2"
| "set_rank (SetWritable _ _) = 3"
| "set_rank (SetAttributable _ _) = 4"
| "set_rank (SetRecord _ _) = 5"
| "set_rank (SetStore _ _) = 6"
| "set_rank (SetDone _) = 7"

lemma set_rank_done: "7 \<le> set_rank pc \<longleftrightarrow> is_set_done pc"
  by (cases pc) (simp_all add: is_set_done_def)

lemma set_step_rank: "min 7 (Suc (set_rank pc)) \<le> set_rank (fst (set_step L j pc w))"
  by (cases pc) (auto simp: set_start_def set_check_def set_store_def split: option.splits sum.splits prod.splits)

lemma run_schedule_snoc: "run_schedule L jobs (is @ [i]) s = sets_step L jobs i (run_schedule L jobs is s)"
  by (simp add: run_schedule_def)

text \<open>Seven steps of its own bring a request to its answer, whatever the other clients do.\<close>

lemma run_schedule_rank: "min 7 (count_list is i) \<le> set_rank (st_pcs (run_schedule L jobs is s) i)"
proof (induction "is" rule: rev_induct)
  case (snoc k "is")
  let ?s = "run_schedule L jobs is s"
  from snoc set_step_rank[of "st_pcs ?s i" L "jobs i" "st_world ?s"]
  have "min 7 (Suc (count_list is i)) \<le> set_rank (fst (set_step L (jobs i) (st_pcs ?s i) (st_world ?s)))" by linarith
  with snoc show ?case
    by (cases "i = k") (simp_all add: run_schedule_snoc sets_step_def case_prod_beta)
qed simp

lemma run_schedule_done: "7 \<le> count_list is i \<Longrightarrow> is_set_done (st_pcs (run_schedule L jobs is s) i)"
  using run_schedule_rank[of "is" i L jobs s] by (simp flip: set_rank_done)

section \<open>The checks stay true\<close>

text \<open>
  The set requests are for signals of a store (\<open>db_ok\<close>): paths none of which continues another. A store
  changes no type of a signal, so no check comes out differently after it.
\<close>

definition sets_ok :: "'a lib_scheme \<Rightarrow> seg list set \<Rightarrow> world \<Rightarrow> bool" where
  "sets_ok L Q w \<longleftrightarrow> schema_doc L \<and> db_ok L (0, 0) Q (w_db w, w_sub w)"

definition job_ok :: "'a lib_scheme \<Rightarrow> seg list set \<Rightarrow> set_job \<Rightarrow> bool" where
  "job_ok L Q j \<longleftrightarrow> clock_ok (env_clock (job_env j))
     \<and> (\<exists>rid p attr v. set_request (job_request j) rid p attr v \<and> (\<exists>q \<in> Q. denotes (fromVSS L p) q))"

definition node_type :: "world \<Rightarrow> seg list \<Rightarrow> json option" where
  "node_type w q = json_lookup (node_at (w_db w, w_sub w) q) ''type''"

lemma job_pair:
  assumes "job_ok L Q j" "schema_doc L"
  obtains p v q where "set_pair L (job_request j) = Inr (p, v)" "q \<in> Q" "denotes p q" "signal_attr (req_attribute L (job_request j))"
    "reject_request L (job_env j) (validateSet L (job_request j)) (job_request j) ''set'' ''set'' = None"
proof -
  from assms(1) obtain rid p attr v q where req: "set_request (job_request j) rid p attr v" and q: "q \<in> Q" "denotes (fromVSS L p) q"
    by (auto simp: job_ok_def)
  note parts = set_request_parts[OF req assms(2)]
  have "signal_attr attr" using req by (simp add: set_request_def)
  with parts q that[of "fromVSS L p" v q] show ?thesis by (simp add: set_pair_def reject_request_def)
qed

lemma db_ok_clock: "db_ok L clk Q s \<Longrightarrow> clock_ok clk' \<Longrightarrow> db_ok L clk' Q s"
  by (simp add: db_ok_def)

lemma clock_zero: "clock_ok (0, 0)"
  by code_simp

lemma checks_same:
  assumes ok: "sets_ok L Q w" "sets_ok L Q w'" and q: "q \<in> Q" "denotes p q" and ty: "node_type w' q = node_type w q"
  shows "pathExists L (w_db w') p = pathExists L (w_db w) p" "pathIsWritable L (w_db w') p = pathIsWritable L (w_db w) p"
    "pathIsAttributable L (w_db w') p attr = pathIsAttributable L (w_db w) p attr"
proof -
  from ok q(1) have L: "jsonpath_doc L"
    and n: "path_nodes q (data_tree (w_db w)) = [(q, node_at (w_db w, w_sub w) q)]"
      "path_nodes q (data_tree (w_db w')) = [(q, node_at (w_db w', w_sub w') q)]"
    by (auto simp: sets_ok_def db_ok_def)
  have "type_text_is L (node_at (w_db w', w_sub w') q) t = type_text_is L (node_at (w_db w, w_sub w) q) t" for t
    using ty by (simp add: node_type_def type_text_is_def)
  then show "pathExists L (w_db w') p = pathExists L (w_db w) p" "pathIsWritable L (w_db w') p = pathIsWritable L (w_db w) p"
    "pathIsAttributable L (w_db w') p attr = pathIsAttributable L (w_db w) p attr"
    by (simp_all add: pathExists_iff[OF L q(2)] pathIsWritable_iff[OF L q(2)] pathIsAttributable_single[OF L q(2) n(1)]
        pathIsAttributable_single[OF L q(2) n(2)] n)
qed

text \<open>A store keeps the store well-formed, and the types.\<close>

lemma setSignal_keeps:
  assumes ok: "sets_ok L Q w" and q: "q \<in> Q" "denotes p q" "signal_attr attr" and clk: "clock_ok clk"
    and set: "setSignal L clk p attr v (w_db w) (w_sub w) = (r, v', db', sh')"
  shows "sets_ok L Q (w\<lparr>w_db := db', w_sub := sh'\<rparr>)" "r' \<in> Q \<Longrightarrow> node_type (w\<lparr>w_db := db', w_sub := sh'\<rparr>) r' = node_type w r'"
proof -
  let ?s = "(w_db w, w_sub w)" let ?k = "(q, attr)"
  from ok have ok': "db_ok L clk Q ?s" and schema: "schema_doc L"
    using clk by (auto simp: sets_ok_def intro: db_ok_clock)
  have k: "db_known Q ?k" using q by (simp add: db_known_def)
  from db_ok_node[OF ok' k] obtain dt where node: "denotes (key_path L ?k) q" "path_nodes q (data_tree (w_db w)) = [(q, node_at ?s q)]"
      "json_lookup (node_at ?s q) ''datatype'' = Some dt" "is_object (node_at ?s q)" by auto
  from ok' have L: "jsonpath_doc L" and pubs: "publishers_ok L (publishers (w_sub w))" by (simp_all add: db_ok_def)
  have same: "db' = fst (db_put L clk ?k v ?s) \<and> publishers_ok L (publishers sh')"
  proof (cases "checkAndSanitizeType L (node_at ?s q) v")
    case (Inl e)
    from setSignal_refused[OF L q(2) node(2,3) Inl] setSignal_refused[OF L node(1,2,3) Inl] set pubs
    show ?thesis by (simp add: db_put_def)
  next
    case (Inr x)
    from setSignal_stores[OF L q(2) node(2,3) q(3) Inr pubs, of clk] setSignal_stores[OF L node(1,2,3) q(3) Inr pubs, of clk] set
    show ?thesis by (auto simp: db_put_def)
  qed
  have put: "db_ok L clk Q (db_put L clk ?k v ?s)" by (rule db_put_ok[OF ok' k])
  have at: "node_at (db', sh') x = node_at (db_put L clk ?k v ?s) x" for x using same by (simp add: node_at_def)
  from put same have "db_ok L clk Q (db', sh')"
    unfolding db_ok_def at by simp
  then show "sets_ok L Q (w\<lparr>w_db := db', w_sub := sh'\<rparr>)"
    using schema db_ok_clock[OF _ clock_zero] by (simp add: sets_ok_def)
  assume r': "r' \<in> Q"
  from ok' r' have obj: "is_object (node_at ?s r')"
    by (auto simp: db_ok_def signal_node_def json_contains_lookup intro: lookup_is_object)
  have "json_lookup (stored clk attr x (node_at ?s r')) ''type'' = json_lookup (node_at ?s r') ''type''" for x
    by (rule stored_meta[OF obj q(3)]) simp
  then show "node_type (w\<lparr>w_db := db', w_sub := sh'\<rparr>) r' = node_type w r'"
    using db_put_node(1)[OF ok' k r', of v]
    by (auto simp: node_type_def at split: option.splits)
qed


section \<open>Every interleaving is a sequence\<close>

lemma set_store_cong:
  assumes "w_db x = w_db y" "w_sub x = w_sub y"
  shows "\<exists>a r v' db sh. setSignal L (env_clock (job_env j)) p (req_attribute L (job_request j)) v (w_db x) (w_sub x) = (r, v', db, sh)
    \<and> set_store L j p v x = (SetDone a, x\<lparr>w_db := db, w_sub := sh\<rparr>) \<and> set_store L j p v y = (SetDone a, y\<lparr>w_db := db, w_sub := sh\<rparr>)"
proof -
  obtain r v' db sh where "setSignal L (env_clock (job_env j)) p (req_attribute L (job_request j)) v (w_db y) (w_sub y) = (r, v', db, sh)"
    by (metis prod_cases4)
  then show ?thesis using assms by (simp add: set_store_def)
qed

lemma early_same:
  assumes job: "job_ok L Q j" and ok: "sets_ok L Q w" "sets_ok L Q w'" and ty: "\<And>q. q \<in> Q \<Longrightarrow> node_type w' q = node_type w q"
  shows "early_answer L j (w_db w') = early_answer L j (w_db w)"
proof -
  from ok(1) have "schema_doc L" by (simp add: sets_ok_def)
  with job obtain p v q where pair: "set_pair L (job_request j) = Inr (p, v)" "q \<in> Q" "denotes p q"
    "reject_request L (job_env j) (validateSet L (job_request j)) (job_request j) ''set'' ''set'' = None" by (rule job_pair)
  have "set_checks L E c req attr p (w_db w') = set_checks L E c req attr p (w_db w)" for E c req attr
    by (simp only: set_checks_def checks_same[OF ok pair(2,3) ty[OF pair(2)]])
  with pair(1,4) show ?thesis by (simp add: early_answer_def)
qed

text \<open>What a request knows on its way: the checks behind it came out true, in the world the requests started in.\<close>

fun set_passed :: "'a lib_scheme \<Rightarrow> set_job \<Rightarrow> world \<Rightarrow> set_pc \<Rightarrow> bool" where
  "set_passed L j w SetStart = True"
| "set_passed L j w (SetExists p v) = (set_pair L (job_request j) = Inr (p, v))"
| "set_passed L j w (SetAccess p v) = (set_pair L (job_request j) = Inr (p, v) \<and> pathExists L (w_db w) p = Inr True)"
| "set_passed L j w (SetWritable p v) =
     (set_pair L (job_request j) = Inr (p, v) \<and> pathExists L (w_db w) p = Inr True \<and> checkWriteAccess L (job_channel j) p = Inr True)"
| "set_passed L j w (SetAttributable p v) =
     (set_pair L (job_request j) = Inr (p, v) \<and> pathExists L (w_db w) p = Inr True \<and> checkWriteAccess L (job_channel j) p = Inr True
      \<and> pathIsWritable L (w_db w) p = Inr True)"
| "set_passed L j w (SetRecord p v) = (set_pair L (job_request j) = Inr (p, v) \<and> early_answer L j (w_db w) = None)"
| "set_passed L j w (SetStore p v) = (set_pair L (job_request j) = Inr (p, v) \<and> early_answer L j (w_db w) = None)"
| "set_passed L j w (SetDone answer) = (early_answer L j (w_db w) = Some answer)"

lemma check_step:
  assumes job: "job_ok L Q j" and ok: "sets_ok L Q w" "sets_ok L Q x" and ty: "\<And>q. q \<in> Q \<Longrightarrow> node_type x q = node_type w q"
    and pc: "set_passed L j w pc" "\<not> is_set_store pc" and step: "set_step L j pc x = (pc', x')"
  shows "set_passed L j w pc' \<and> w_db x' = w_db x \<and> w_sub x' = w_sub x \<and> w_auth x' = w_auth x"
proof -
  from ok(1) have "schema_doc L" by (simp add: sets_ok_def)
  with job obtain p v q where pair: "set_pair L (job_request j) = Inr (p, v)" "q \<in> Q" "denotes p q"
    "reject_request L (job_env j) (validateSet L (job_request j)) (job_request j) ''set'' ''set'' = None" by (rule job_pair)
  note same = checks_same[OF ok pair(2,3) ty[OF pair(2)]]
  have early: "early_answer L j (w_db w) =
      (case set_checks L (job_env j) (job_channel j) (job_request j) (req_attribute L (job_request j)) p (w_db w) of
         Inl e \<Rightarrow> Some (Inl e) | Inr r \<Rightarrow> map_option Inr r)"
    using pair by (simp add: early_answer_def)
  show ?thesis
    using pc step pair
    by (cases pc)
      (auto simp: early set_start_def set_check_def same set_checks_def is_set_store_def bindE_def split: sum.splits if_splits)
qed

definition answered :: "'a lib_scheme \<Rightarrow> (nat \<Rightarrow> set_job) \<Rightarrow> world \<Rightarrow> nat list \<Rightarrow> nat \<Rightarrow> set_pc \<Rightarrow> bool" where
  "answered L jobs w order i pc \<longleftrightarrow>
     (\<exists>before after. order = before @ i # after \<and> pc = SetDone (fst (process_job L (jobs i) (seq_sets L jobs before w))))"

definition sets_inv :: "'a lib_scheme \<Rightarrow> seg list set \<Rightarrow> (nat \<Rightarrow> set_job) \<Rightarrow> world \<Rightarrow> set_sys \<Rightarrow> bool" where
  "sets_inv L Q jobs w s \<longleftrightarrow>
     sets_ok L Q (st_world s) \<and> (\<forall>q \<in> Q. node_type (st_world s) q = node_type w q)
   \<and> distinct (st_order s)
   \<and> w_db (st_world s) = w_db (seq_sets L jobs (st_order s) w) \<and> w_sub (st_world s) = w_sub (seq_sets L jobs (st_order s) w)
   \<and> (\<forall>i. if i \<in> set (st_order s) then answered L jobs w (st_order s) i (st_pcs s i) else set_passed L (jobs i) w (st_pcs s i))"

text \<open>A step that is no store, and a store.\<close>

lemma sets_inv_check:
  assumes job: "\<And>i. job_ok L Q (jobs i)" and w: "sets_ok L Q w" and inv: "sets_inv L Q jobs w s" and pc: "\<not> is_set_store (st_pcs s i)"
  shows "sets_inv L Q jobs w (sets_step L jobs i s)"
proof -
  obtain pc' x' where step: "set_step L (jobs i) (st_pcs s i) (st_world s) = (pc', x')" by fastforce
  from inv have ok: "sets_ok L Q (st_world s)" "\<And>q. q \<in> Q \<Longrightarrow> node_type (st_world s) q = node_type w q" by (auto simp: sets_inv_def)
  show ?thesis
  proof (cases "i \<in> set (st_order s)")
    case True
    with inv have "answered L jobs w (st_order s) i (st_pcs s i)" by (simp add: sets_inv_def)
    then have "pc' = st_pcs s i" "x' = st_world s" using step by (auto simp: answered_def)
    then have "sets_step L jobs i s = s" using pc step by (simp add: sets_step_def)
    with inv show ?thesis by simp
  next
    case out: False
    with inv have "set_passed L (jobs i) w (st_pcs s i)" by (simp add: sets_inv_def)
    from check_step[OF job w ok this pc step] inv out step pc
    show ?thesis by (auto simp: sets_inv_def sets_step_def sets_ok_def node_type_def)
  qed
qed

lemma sets_inv_store:
  assumes job: "\<And>i. job_ok L Q (jobs i)" and w: "sets_ok L Q w" and inv: "sets_inv L Q jobs w s" and pc: "st_pcs s i = SetStore p v"
  shows "sets_inv L Q jobs w (sets_step L jobs i s)"
proof -
  from inv have ok: "sets_ok L Q (st_world s)" "\<And>q. q \<in> Q \<Longrightarrow> node_type (st_world s) q = node_type w q"
    and dist: "distinct (st_order s)" by (auto simp: sets_inv_def)
  have client: "if k \<in> set (st_order s) then answered L jobs w (st_order s) k (st_pcs s k) else set_passed L (jobs k) w (st_pcs s k)" for k
    using inv unfolding sets_inv_def by blast
  from client[of i] pc have out: "i \<notin> set (st_order s)" and pair: "set_pair L (job_request (jobs i)) = Inr (p, v)"
    and early: "early_answer L (jobs i) (w_db w) = None"
    by (auto simp: answered_def split: if_splits)
  let ?y = "seq_sets L jobs (st_order s) w"
  let ?y' = "set_record L (req_attribute L (job_request (jobs i))) p v ?y"
  from inv have same: "w_db (st_world s) = w_db ?y" "w_sub (st_world s) = w_sub ?y" by (simp_all add: sets_inv_def)
  from set_store_cong[of "st_world s" ?y' L "jobs i" p v] same obtain a r v' db sh where
    set: "setSignal L (env_clock (job_env (jobs i))) p (req_attribute L (job_request (jobs i))) v (w_db (st_world s)) (w_sub (st_world s)) = (r, v', db, sh)"
    and st: "set_store L (jobs i) p v (st_world s) = (SetDone a, (st_world s)\<lparr>w_db := db, w_sub := sh\<rparr>)"
      "set_store L (jobs i) p v ?y' = (SetDone a, ?y'\<lparr>w_db := db, w_sub := sh\<rparr>)" by auto
  have "early_answer L (jobs i) (w_db ?y) = None"
    using early_same[OF job w ok, of i] early same by simp
  with pair st(2) have seq: "process_job L (jobs i) ?y = (a, ?y'\<lparr>w_db := db, w_sub := sh\<rparr>)"
    by (simp add: process_job_cases)
  have snoc: "seq_sets L jobs (st_order s @ [i]) w = ?y'\<lparr>w_db := db, w_sub := sh\<rparr>"
    using seq by (simp add: seq_sets_def)
  let ?s' = "sets_step L jobs i s"
  have s': "st_world ?s' = (st_world s)\<lparr>w_db := db, w_sub := sh\<rparr>" "st_order ?s' = st_order s @ [i]" "st_pcs ?s' = (st_pcs s)(i := SetDone a)"
    using pc st(1) by (simp_all add: sets_step_def is_set_store_def)
  from ok(1) have "schema_doc L" by (simp add: sets_ok_def)
  with job obtain p' v' q where q: "set_pair L (job_request (jobs i)) = Inr (p', v')" "q \<in> Q" "denotes p' q" "signal_attr (req_attribute L (job_request (jobs i)))"
    by (rule job_pair)
  from q pair have den: "denotes p q" by simp
  have "clock_ok (env_clock (job_env (jobs i)))" using job[of i] by (simp add: job_ok_def)
  then have keep: "sets_ok L Q (st_world ?s')" "\<And>r'. r' \<in> Q \<Longrightarrow> node_type (st_world ?s') r' = node_type (st_world s) r'"
    using setSignal_keeps[OF ok(1) q(2) den q(4) _ set] s'(1) by auto
  have mine: "answered L jobs w (st_order ?s') i (st_pcs ?s' i)"
    unfolding answered_def using seq s' by (intro exI[of _ "st_order s"] exI[of _ "[]"]) simp
  have others: "if k \<in> set (st_order ?s') then answered L jobs w (st_order ?s') k (st_pcs ?s' k) else set_passed L (jobs k) w (st_pcs ?s' k)" for k
  proof (cases "k = i")
    case True
    with mine s'(2) show ?thesis by simp
  next
    case False
    moreover have "answered L jobs w (st_order s) k (st_pcs s k) \<Longrightarrow> answered L jobs w (st_order s @ [i]) k (st_pcs s k)"
      by (force simp: answered_def)
    ultimately show ?thesis using client[of k] s' by (auto split: if_splits)
  qed
  show ?thesis
    unfolding sets_inv_def
  proof (intro conjI allI)
    show "sets_ok L Q (st_world ?s')" by (rule keep(1))
    show "\<forall>q \<in> Q. node_type (st_world ?s') q = node_type w q" using keep(2) ok(2) by simp
    show "distinct (st_order ?s')" using dist out s'(2) by simp
    show "w_db (st_world ?s') = w_db (seq_sets L jobs (st_order ?s') w)" "w_sub (st_world ?s') = w_sub (seq_sets L jobs (st_order ?s') w)"
      using snoc s' by simp_all
  qed (rule others)
qed

lemma sets_inv_step:
  assumes "\<And>i. job_ok L Q (jobs i)" "sets_ok L Q w" "sets_inv L Q jobs w s"
  shows "sets_inv L Q jobs w (sets_step L jobs i s)"
proof (cases "is_set_store (st_pcs s i)")
  case True
  then show ?thesis using sets_inv_store[OF assms] by (auto simp: is_set_store_def split: set_pc.splits)
qed (rule sets_inv_check[OF assms])

lemma sets_inv_run:
  assumes "\<And>i. job_ok L Q (jobs i)" "sets_ok L Q w"
  shows "sets_inv L Q jobs w (run_schedule L jobs is (start_sets w))"
proof (induction "is" rule: rev_induct)
  case Nil
  then show ?case using assms(2) by (simp add: sets_inv_def run_schedule_def start_sets_def seq_sets_def)
next
  case (snoc i "is")
  then show ?case by (simp add: run_schedule_snoc sets_inv_step[OF assms])
qed


section \<open>Record and store\<close>

text \<open>A request alone: six steps to the store, with the record line written.\<close>

lemma six_steps:
  assumes "st_pcs s i = SetStart" "early_answer L (jobs i) (w_db (st_world s)) = None" "set_pair L (job_request (jobs i)) = Inr (p, v)"
  shows "run_schedule L jobs (replicate 6 i) s =
    s\<lparr>st_world := set_record L (req_attribute L (job_request (jobs i))) p v (st_world s), st_pcs := (st_pcs s)(i := SetStore p v)\<rparr>"
proof -
  let ?attr = "req_attribute L (job_request (jobs i))"
  from assms(2,3) have rej: "reject_request L (job_env (jobs i)) (validateSet L (job_request (jobs i))) (job_request (jobs i)) ''set'' ''set'' = None"
    and checks: "set_checks L (job_env (jobs i)) (job_channel (jobs i)) (job_request (jobs i)) ?attr p (w_db (st_world s)) = Inr None"
    by (auto simp: early_answer_def split: option.splits sum.splits)
  from set_checks_pass[OF checks] rej assms(1,3) show ?thesis
    by (simp add: run_schedule_def eval_nat_numeral sets_step_def set_start_def set_check_def is_set_store_def)
qed

lemma store_step:
  assumes "st_pcs s i = SetStore p v" "set_store L (jobs i) p v (st_world s) = (pc, w')"
  shows "run_schedule L jobs [i] s = \<lparr>st_world = w', st_pcs = (st_pcs s)(i := pc), st_order = st_order s @ [i]\<rparr>"
  using assms by (simp add: run_schedule_def sets_step_def is_set_store_def)

lemma run_schedule_append: "run_schedule L jobs (is @ js) s = run_schedule L jobs js (run_schedule L jobs is s)"
  by (simp add: run_schedule_def)

text \<open>A signal stays settable under stores, with the same check of values.\<close>

lemma settable_stored:
  assumes "settable L db p attr ss node dt" "signal_attr attr"
  shows "settable L (db\<lparr>data_tree := path_replace ss (stored clk attr v node) (data_tree db)\<rparr>) p attr ss (stored clk attr v node) dt"
    "checkAndSanitizeType L (stored clk attr v node) x = checkAndSanitizeType L node x"
proof -
  from assms(1) have obj: "is_object node" by (auto simp: settable_def intro: lookup_is_object)
  note meta = stored_meta[OF obj assms(2), of _ clk v]
  show "settable L (db\<lparr>data_tree := path_replace ss (stored clk attr v node) (data_tree db)\<rparr>) p attr ss (stored clk attr v node) dt"
    using assms(1) meta[of "''datatype''"] meta[of "''type''"] by (simp add: settable_def path_nodes_replace)
  show "checkAndSanitizeType L (stored clk attr v node) x = checkAndSanitizeType L node x"
    by (rule check_meta_cong) (use obj meta in \<open>auto simp: stored_object\<close>)
qed

lemma set_store_effect:
  assumes L: "jsonpath_doc L" and attr: "req_attribute L (job_request j) = attr" "signal_attr attr"
    and sig: "settable L (w_db x) p attr ss node dt" and check: "checkAndSanitizeType L node v = Inr v'" and pubs: "publishers_ok L (publishers (w_sub x))"
  shows "\<exists>a sh. set_store L j (fromVSS L p) v x = (SetDone a, x\<lparr>w_db := (w_db x)\<lparr>data_tree :=
      path_replace ss (stored (env_clock (job_env j)) attr v' node) (data_tree (w_db x))\<rparr>, w_sub := sh\<rparr>) \<and> publishers_ok L (publishers sh)"
proof -
  from sig have node: "denotes (fromVSS L p) ss" "path_nodes ss (data_tree (w_db x)) = [(ss, node)]" "json_lookup node ''datatype'' = Some (JStr dt)"
    by (simp_all add: settable_def)
  from setSignal_stores[OF L node attr(2) check pubs, of "env_clock (job_env j)"] attr(1) show ?thesis
    by (auto simp: set_store_def)
qed

text \<open>A request of a client with access for a settable signal.\<close>

definition good_set :: "'a lib_scheme \<Rightarrow> set_job \<Rightarrow> string \<Rightarrow> string \<Rightarrow> json \<Rightarrow> bool" where
  "good_set L j p attr v \<longleftrightarrow> (\<exists>rid. set_request (job_request j) rid p attr v) \<and> checkWriteAccess L (job_channel j) (fromVSS L p) = Inr True"

lemma good_set_parts:
  assumes "jsonpath_doc L" "schema_doc L" "good_set L j p attr v"
  shows "set_pair L (job_request j) = Inr (fromVSS L p, v)" "req_attribute L (job_request j) = attr" "signal_attr attr"
    "settable L db p attr ss node dt \<Longrightarrow> early_answer L j db = None"
proof -
  from assms(3) obtain rid where req: "set_request (job_request j) rid p attr v" and acc: "checkWriteAccess L (job_channel j) (fromVSS L p) = Inr True"
    by (auto simp: good_set_def)
  note parts = set_request_parts[OF req assms(2)]
  show pair: "set_pair L (job_request j) = Inr (fromVSS L p, v)" "req_attribute L (job_request j) = attr" "signal_attr attr"
    using parts req by (simp_all add: set_pair_def set_request_def)
  show "early_answer L j db = None" if "settable L db p attr ss node dt"
    using set_checks_settable[OF assms(1) that pair(3) acc] pair parts by (simp add: early_answer_def reject_request_def)
qed

definition stored_value :: "seg list \<Rightarrow> string \<Rightarrow> world \<Rightarrow> json option" where
  "stored_value ss attr w = (case path_nodes ss (data_tree (w_db w)) of [(q, node)] \<Rightarrow> json_lookup node attr | _ \<Rightarrow> None)"

definition record_text :: "'a lib_scheme \<Rightarrow> string \<Rightarrow> string \<Rightarrow> json \<Rightarrow> string" where
  "record_text L p attr v = ''set;'' @ attr @ '';'' @ to_string (fromVSS L p) @ '';'' @ j_pretty L v"

lemma stored_value_set:
  assumes "settable L (w_db x) p attr ss node dt" "signal_attr attr"
  shows "stored_value ss attr (x\<lparr>w_db := (w_db x)\<lparr>data_tree := path_replace ss (stored clk attr v node) (data_tree (w_db x))\<rparr>, w_sub := sh\<rparr>) = Some v"
proof -
  from assms(1) have "is_object node" by (auto simp: settable_def intro: lookup_is_object)
  with assms show ?thesis by (simp add: stored_value_def settable_def path_nodes_replace stored_lookup)
qed


text \<open>The rest of a request that is about to store.\<close>

lemma finish_set:
  assumes docs: "jsonpath_doc L" "schema_doc L" and good: "good_set L (jobs i) p attr v" and pc: "st_pcs s i = SetStore (fromVSS L p) v"
    and sig: "settable L (w_db (st_world s)) p attr ss node dt" and check: "checkAndSanitizeType L node v = Inr v'"
    and pubs: "publishers_ok L (publishers (w_sub (st_world s)))"
  shows "\<exists>a sh. run_schedule L jobs [i] s = \<lparr>st_world = (st_world s)\<lparr>w_db := (w_db (st_world s))\<lparr>data_tree :=
        path_replace ss (stored (env_clock (job_env (jobs i))) attr v' node) (data_tree (w_db (st_world s)))\<rparr>, w_sub := sh\<rparr>,
      st_pcs = (st_pcs s)(i := SetDone a), st_order = st_order s @ [i]\<rparr> \<and> publishers_ok L (publishers sh)"
proof -
  note parts = good_set_parts[OF docs good]
  from set_store_effect[OF docs(1) parts(2,3) sig check pubs] store_step[OF pc] show ?thesis by blast
qed

lemma process_good:
  assumes docs: "jsonpath_doc L" "schema_doc L" and good: "good_set L j p attr v"
    and sig: "settable L (w_db w) p attr ss node dt" and check: "checkAndSanitizeType L node v = Inr v'" and pubs: "publishers_ok L (publishers (w_sub w))"
  shows "\<exists>a sh. process_job L j w = (a, (set_record L attr (fromVSS L p) v w)\<lparr>w_db := (w_db w)\<lparr>data_tree :=
      path_replace ss (stored (env_clock (job_env j)) attr v' node) (data_tree (w_db w))\<rparr>, w_sub := sh\<rparr>) \<and> publishers_ok L (publishers sh)"
proof -
  note parts = good_set_parts[OF docs good]
  from set_store_effect[OF docs(1) parts(2,3), of "set_record L attr (fromVSS L p) v w" p ss node dt v v'] sig check pubs parts(1,2) parts(4)[OF sig]
  show ?thesis by (auto simp: process_job_cases)
qed

text \<open>
  Two clients set the same signal. The first is interrupted between the record line and the store: the
  record is that of the two requests in the order first, second, but the first value is what stays.
\<close>

lemma record_crossed:
  assumes docs: "jsonpath_doc L" "schema_doc L" and good: "good_set L (jobs i) p attr v1" "good_set L (jobs k) p attr v2" "i \<noteq> k"
    and sig: "settable L (w_db w) p attr ss node dt"
    and check: "checkAndSanitizeType L node v1 = Inr v1'" "checkAndSanitizeType L node v2 = Inr v2'"
    and pubs: "publishers_ok L (publishers (w_sub w))" and rec: "w_rec w = Some rec"
    and s: "s = run_schedule L jobs (replicate 6 i @ replicate 7 k @ [i]) (start_sets w)"
  shows "st_order s = [k, i] \<and> stored_value ss attr (st_world s) = Some v1'
    \<and> (\<exists>r. w_rec (st_world s) = Some r \<and> record_log r = record_log rec @ [record_text L p attr v1, record_text L p attr v2])"
proof -
  note i = good_set_parts[OF docs good(1)] and k = good_set_parts[OF docs good(2)]
  let ?path = "fromVSS L p"
  let ?s0 = "start_sets w" and ?w1 = "set_record L attr ?path v1 w"
  let ?s1 = "?s0\<lparr>st_world := ?w1, st_pcs := (st_pcs ?s0)(i := SetStore ?path v1)\<rparr>"
  have 1: "run_schedule L jobs (replicate 6 i) ?s0 = ?s1"
    using six_steps[of ?s0 i L jobs ?path v1] i(1,2) i(4)[OF sig] by (simp add: start_sets_def)
  let ?s2 = "?s1\<lparr>st_world := set_record L attr ?path v2 ?w1, st_pcs := (st_pcs ?s1)(k := SetStore ?path v2)\<rparr>"
  have 2: "run_schedule L jobs (replicate 6 k) ?s1 = ?s2"
    using six_steps[of ?s1 k L jobs ?path v2] k(1,2) k(4)[OF sig] good(3) by (simp add: start_sets_def)
  from finish_set[where jobs = jobs and i = k, OF docs good(2), of ?s2 ss node dt v2'] sig check(2) pubs obtain a sh where
    3: "run_schedule L jobs [k] ?s2 = \<lparr>st_world = (st_world ?s2)\<lparr>w_db := (w_db w)\<lparr>data_tree :=
        path_replace ss (stored (env_clock (job_env (jobs k))) attr v2' node) (data_tree (w_db w))\<rparr>, w_sub := sh\<rparr>,
      st_pcs = (st_pcs ?s2)(k := SetDone a), st_order = [k]\<rparr>" (is "_ = ?s3") and pubs3: "publishers_ok L (publishers sh)"
    by (auto simp: start_sets_def)
  note sig3 = settable_stored[OF sig i(3), of "env_clock (job_env (jobs k))" v2']
  from finish_set[where jobs = jobs and i = i, OF docs good(1), of ?s3 ss "stored (env_clock (job_env (jobs k))) attr v2' node" dt v1'] sig3 check(1) pubs3 good(3) obtain a' sh' where
    4: "run_schedule L jobs [i] ?s3 = \<lparr>st_world = (st_world ?s3)\<lparr>w_db := (w_db (st_world ?s3))\<lparr>data_tree :=
        path_replace ss (stored (env_clock (job_env (jobs i))) attr v1' (stored (env_clock (job_env (jobs k))) attr v2' node)) (data_tree (w_db (st_world ?s3)))\<rparr>, w_sub := sh'\<rparr>,
      st_pcs = (st_pcs ?s3)(i := SetDone a'), st_order = [k, i]\<rparr>" (is "_ = ?s4")
    by (auto simp: start_sets_def)
  have seven: "replicate 7 k = replicate 6 k @ [k]" by (simp add: eval_nat_numeral)
  have "s = ?s4" unfolding s seven by (simp only: run_schedule_append 1 2 3 4)
  moreover have "stored_value ss attr (st_world ?s4) = Some v1'"
    using stored_value_set[of L "st_world ?s3" p attr ss "stored (env_clock (job_env (jobs k))) attr v2' node" dt] sig3(1) i(3) by simp
  moreover have "\<exists>r. w_rec (st_world ?s4) = Some r \<and> record_log r = record_log rec @ [record_text L p attr v1, record_text L p attr v2]"
    using rec by (simp add: set_record_def log_record_def record_text_def)
  ultimately show ?thesis by simp
qed

lemma record_sequential:
  assumes docs: "jsonpath_doc L" "schema_doc L" and good: "good_set L (jobs i) p attr v1" "good_set L (jobs k) p attr v2"
    and sig: "settable L (w_db w) p attr ss node dt"
    and check: "checkAndSanitizeType L node v1 = Inr v1'" "checkAndSanitizeType L node v2 = Inr v2'"
    and pubs: "publishers_ok L (publishers (w_sub w))" and rec: "w_rec w = Some rec"
  shows "stored_value ss attr (seq_sets L jobs [i, k] w) = Some v2'
    \<and> (\<exists>r. w_rec (seq_sets L jobs [i, k] w) = Some r \<and> record_log r = record_log rec @ [record_text L p attr v1, record_text L p attr v2])"
proof -
  have attr: "signal_attr attr" by (rule good_set_parts(3)[OF docs good(1)])
  from process_good[OF docs good(1) sig check(1) pubs] obtain a sh where
    1: "process_job L (jobs i) w = (a, (set_record L attr (fromVSS L p) v1 w)\<lparr>w_db := (w_db w)\<lparr>data_tree :=
      path_replace ss (stored (env_clock (job_env (jobs i))) attr v1' node) (data_tree (w_db w))\<rparr>, w_sub := sh\<rparr>)" (is "_ = (a, ?w1)")
    and pubs1: "publishers_ok L (publishers sh)" by blast
  note sig1 = settable_stored[OF sig attr, of "env_clock (job_env (jobs i))" v1']
  from process_good[OF docs good(2), of ?w1 ss "stored (env_clock (job_env (jobs i))) attr v1' node" dt v2'] sig1 check(2) pubs1 obtain a' sh' where
    2: "process_job L (jobs k) ?w1 = (a', (set_record L attr (fromVSS L p) v2 ?w1)\<lparr>w_db := (w_db ?w1)\<lparr>data_tree :=
      path_replace ss (stored (env_clock (job_env (jobs k))) attr v2' (stored (env_clock (job_env (jobs i))) attr v1' node)) (data_tree (w_db ?w1))\<rparr>, w_sub := sh'\<rparr>)" (is "_ = (a', ?w2)")
    by auto
  have seq: "seq_sets L jobs [i, k] w = ?w2" by (simp only: seq_sets_def fold.simps comp_apply id_apply 1 2 snd_conv)
  have "settable L (w_db (set_record L attr (fromVSS L p) v2 ?w1)) p attr ss (stored (env_clock (job_env (jobs i))) attr v1' node) dt" using sig1(1) by simp
  from stored_value_set[OF this attr] have "stored_value ss attr ?w2 = Some v2'" by simp
  moreover have "\<exists>r. w_rec ?w2 = Some r \<and> record_log r = record_log rec @ [record_text L p attr v1, record_text L p attr v2]"
    using rec by (simp add: set_record_def log_record_def record_text_def)
  ultimately show ?thesis unfolding seq by blast
qed

end
