(* ===== verification/LockedSets.thy ===== *)
theory LockedSets
  imports ConcurrentSets
begin

text \<open>
  The set requests of \<open>ConcurrentSets\<close> with the mutex \<open>rwMutex_\<close> of \<open>src/VssDatabase.cpp\<close>. \<open>setSignal\<close> takes it
  and stores under it. The checks read the tree without it: \<open>pathExists\<close>, \<open>pathIsWritable\<close> and
  \<open>pathIsAttributable\<close> have no \<open>lock_guard\<close>. A check that reads while another request is in \<open>setSignal\<close> may
  meet \<open>json_replace\<close>, a data race that C++ leaves undefined: such a run has no result (\<open>None\<close>). What is shown
  of the others is what \<open>ConcurrentSets\<close> shows of its interleavings.
\<close>

section \<open>The mutex and the unlocked checks\<close>

text \<open>A request whose next step is the store waits while another holds the mutex.\<close>

record locked_sys =
  l_sets :: set_sys
  l_owner :: "nat option"

definition start_locked :: "world \<Rightarrow> locked_sys" where
  "start_locked w = \<lparr>l_sets = start_sets w, l_owner = None\<rparr>"

definition reads_tree :: "set_pc \<Rightarrow> bool" where
  "reads_tree pc = (case pc of SetExists _ _ \<Rightarrow> True | SetWritable _ _ \<Rightarrow> True | SetAttributable _ _ \<Rightarrow> True | _ \<Rightarrow> False)"

definition locked_step :: "'a lib_scheme \<Rightarrow> (nat \<Rightarrow> set_job) \<Rightarrow> nat \<Rightarrow> locked_sys \<Rightarrow> locked_sys option" where
  "locked_step L jobs i s =
     (let pc = st_pcs (l_sets s) i
      in if is_set_store pc
         then (case l_owner s of
                 None \<Rightarrow> Some (s\<lparr>l_owner := Some i\<rparr>)
               | Some k \<Rightarrow> if k = i then Some \<lparr>l_sets = sets_step L jobs i (l_sets s), l_owner = None\<rparr> else Some s)
         else if reads_tree pc \<and> l_owner s \<noteq> None then None
         else Some (s\<lparr>l_sets := sets_step L jobs i (l_sets s)\<rparr>))"

fun run_locked :: "'a lib_scheme \<Rightarrow> (nat \<Rightarrow> set_job) \<Rightarrow> nat list \<Rightarrow> locked_sys \<Rightarrow> locked_sys option" where
  "run_locked L jobs [] s = Some s"
| "run_locked L jobs (i # is) s = (case locked_step L jobs i s of None \<Rightarrow> None | Some s' \<Rightarrow> run_locked L jobs is s')"

lemma run_locked_append:
  "run_locked L jobs (is @ js) s = (case run_locked L jobs is s of None \<Rightarrow> None | Some s' \<Rightarrow> run_locked L jobs js s')"
  by (induction "is" arbitrary: s) (simp_all split: option.splits)

text \<open>A run that races nowhere does the steps of an interleaving; who holds the mutex stands before its store.\<close>

lemma locked_step_sets:
  assumes "locked_step L jobs i s = Some s'"
  shows "l_sets s' = l_sets s \<or> l_sets s' = sets_step L jobs i (l_sets s)"
  using assms by (auto simp: locked_step_def Let_def split: option.splits if_splits)

lemma run_locked_sets: "run_locked L jobs is s = Some s' \<Longrightarrow> \<exists>js. l_sets s' = run_schedule L jobs js (l_sets s)"
proof (induction "is" arbitrary: s)
  case Nil
  then show ?case by (auto intro!: exI[of _ "[]"] simp: run_schedule_def)
next
  case (Cons i "is")
  then obtain s1 where s1: "locked_step L jobs i s = Some s1" "run_locked L jobs is s1 = Some s'" by (auto split: option.splits)
  from Cons.IH[OF s1(2)] obtain js where js: "l_sets s' = run_schedule L jobs js (l_sets s1)" by blast
  from locked_step_sets[OF s1(1)] have "l_sets s' = run_schedule L jobs js (l_sets s) \<or> l_sets s' = run_schedule L jobs (i # js) (l_sets s)"
    using js by (auto simp: run_schedule_def)
  then show ?case by blast
qed

definition owner_stores :: "locked_sys \<Rightarrow> bool" where
  "owner_stores s \<longleftrightarrow> (\<forall>k. l_owner s = Some k \<longrightarrow> is_set_store (st_pcs (l_sets s) k))"

lemma locked_step_owner: "locked_step L jobs i s = Some s' \<Longrightarrow> owner_stores s \<Longrightarrow> owner_stores s'"
  by (auto simp: locked_step_def owner_stores_def sets_step_def Let_def split: option.splits if_splits prod.splits)

lemma run_locked_owner: "run_locked L jobs is s = Some s' \<Longrightarrow> owner_stores s \<Longrightarrow> owner_stores s'"
  by (induction "is" arbitrary: s) (auto split: option.splits dest: locked_step_owner)

text \<open>Every interleaving of whole steps is a run that races nowhere, and every run can go on to the answer of any client.\<close>

lemma interleaving_locked:
  assumes "l_owner s = None"
  shows "\<exists>is. run_locked L jobs is s = Some (s\<lparr>l_sets := run_schedule L jobs js (l_sets s)\<rparr>)"
  using assms
proof (induction js arbitrary: s)
  case Nil
  then show ?case by (auto intro!: exI[of _ "[]"] simp: run_schedule_def)
next
  case (Cons j js)
  let ?s1 = "s\<lparr>l_sets := sets_step L jobs j (l_sets s)\<rparr>"
  have "\<exists>is. run_locked L jobs is s = Some ?s1"
    using Cons.prems by (intro exI[of _ "if is_set_store (st_pcs (l_sets s) j) then [j, j] else [j]"]) (auto simp: locked_step_def Let_def)
  then obtain is1 where "run_locked L jobs is1 s = Some ?s1" ..
  moreover from Cons.IH[of ?s1] Cons.prems obtain is2
    where "run_locked L jobs is2 ?s1 = Some (?s1\<lparr>l_sets := run_schedule L jobs js (l_sets ?s1)\<rparr>)" by auto
  ultimately show ?case by (intro exI[of _ "is1 @ is2"]) (simp add: run_locked_append run_schedule_def)
qed

lemma locked_finish:
  assumes "owner_stores s"
  shows "\<exists>is s'. run_locked L jobs is s = Some s' \<and> is_set_done (st_pcs (l_sets s') i)"
proof -
  have "\<exists>is s'. run_locked L jobs is s = Some s' \<and> l_owner s' = None"
  proof (cases "l_owner s")
    case None
    then show ?thesis by (intro exI[of _ "[]"]) simp
  next
    case (Some k)
    with assms show ?thesis by (intro exI[of _ "[k]"]) (simp add: owner_stores_def locked_step_def)
  qed
  then obtain is1 s1 where s1: "run_locked L jobs is1 s = Some s1" "l_owner s1 = None" by blast
  from interleaving_locked[OF s1(2), of L jobs "replicate 7 i"] obtain is2
    where "run_locked L jobs is2 s1 = Some (s1\<lparr>l_sets := run_schedule L jobs (replicate 7 i) (l_sets s1)\<rparr>)" ..
  moreover have "7 \<le> count_list (replicate 7 i) i" by (simp add: eval_nat_numeral)
  ultimately show ?thesis
    using s1(1) run_schedule_done[of "replicate 7 i" i L jobs "l_sets s1"] by (intro exI[of _ "is1 @ is2"]) (auto simp: run_locked_append)
qed

text \<open>While a request stores, another one reads.\<close>

lemma store_check_race:
  assumes "st_pcs (l_sets s) i = SetStore p v" "l_owner s = None" "reads_tree (st_pcs (l_sets s) k)"
  shows "run_locked L jobs [i, k] s = None"
proof -
  from assms(1,3) have "i \<noteq> k" "\<not> is_set_store (st_pcs (l_sets s) k)" by (auto simp: reads_tree_def is_set_store_def split: set_pc.splits)
  with assms show ?thesis by (simp add: locked_step_def is_set_store_def)
qed

text \<open>Two clients with access to one signal are enough for such a run.\<close>

theorem data_race:
  assumes docs: "jsonpath_doc L" "schema_doc L" and good: "good_set L (jobs i) p attr v1" "good_set L (jobs k) p attr v2" "i \<noteq> k"
    and sig: "settable L (w_db w) p attr ss node dt"
  shows "\<exists>sched. run_locked L jobs sched (start_locked w) = None"
proof -
  note i = good_set_parts[OF docs good(1)] and k = good_set_parts[OF docs good(2)]
  let ?s = "run_schedule L jobs (replicate 6 i @ [k]) (start_sets w)"
  have "set_start L (jobs k) = SetExists (fromVSS L p) v2" using k(1,2) k(4)[OF sig]
    by (auto simp: set_start_def early_answer_def split: option.splits)
  then have pcs: "st_pcs ?s i = SetStore (fromVSS L p) v1" "st_pcs ?s k = SetExists (fromVSS L p) v2"
    using six_steps[of "start_sets w" i L jobs "fromVSS L p" v1] i(1,2) i(4)[OF sig] good(3)
    by (simp_all add: start_sets_def run_schedule_append sets_step_def) (simp_all add: run_schedule_def sets_step_def)
  obtain is1 where is1: "run_locked L jobs is1 (start_locked w) = Some ((start_locked w)\<lparr>l_sets := ?s\<rparr>)"
    using interleaving_locked[of "start_locked w" L jobs "replicate 6 i @ [k]"] by (auto simp: start_locked_def)
  have "run_locked L jobs [i, k] ((start_locked w)\<lparr>l_sets := ?s\<rparr>) = None"
    by (rule store_check_race) (simp_all add: pcs start_locked_def reads_tree_def)
  with is1 show ?thesis by (intro exI[of _ "is1 @ [i, k]"]) (simp add: run_locked_append)
qed

lemma start_locked_simps [simp]: "l_sets (start_locked w) = start_sets w" "l_owner (start_locked w) = None" "owner_stores (start_locked w)"
  by (simp_all add: start_locked_def owner_stores_def)

text \<open>A request up to its store, and two stores of which the second waits.\<close>

lemma locked_six_steps:
  assumes "st_pcs (l_sets s) i = SetStart" "l_owner s = None" "early_answer L (jobs i) (w_db (st_world (l_sets s))) = None"
    and "set_pair L (job_request (jobs i)) = Inr (p, v)"
  shows "run_locked L jobs (replicate 6 i) s = Some (s\<lparr>l_sets := run_schedule L jobs (replicate 6 i) (l_sets s)\<rparr>)"
proof -
  let ?attr = "req_attribute L (job_request (jobs i))"
  from assms(3,4) have rej: "reject_request L (job_env (jobs i)) (validateSet L (job_request (jobs i))) (job_request (jobs i)) ''set'' ''set'' = None"
    and checks: "set_checks L (job_env (jobs i)) (job_channel (jobs i)) (job_request (jobs i)) ?attr p (w_db (st_world (l_sets s))) = Inr None"
    by (auto simp: early_answer_def split: option.splits sum.splits)
  from set_checks_pass[OF checks] rej assms(1,2,4) show ?thesis
    by (simp add: run_schedule_def eval_nat_numeral sets_step_def locked_step_def set_start_def set_check_def is_set_store_def)
qed

lemma set_store_done: "\<exists>a w'. set_store L j p v w = (SetDone a, w')"
  by (simp add: set_store_def split: prod.splits)

lemma two_stores:
  assumes "st_pcs (l_sets s) i = SetStore p v" "st_pcs (l_sets s) k = SetStore q u" "i \<noteq> k" "l_owner s = None"
  shows "\<exists>s'. run_locked L jobs [i, k, i, k, k] s = Some s' \<and> st_order (l_sets s') = st_order (l_sets s) @ [i, k]"
proof -
  obtain a w1 where 1: "set_store L (jobs i) p v (st_world (l_sets s)) = (SetDone a, w1)" using set_store_done by blast
  obtain b w2 where 2: "set_store L (jobs k) q u w1 = (SetDone b, w2)" using set_store_done by blast
  show ?thesis using assms 1 2 by (simp add: locked_step_def sets_step_def is_set_store_def)
qed

lemma two_good_sets:
  assumes docs: "jsonpath_doc L" "schema_doc L" and good: "good_set L (jobs i) p attr v1" "good_set L (jobs k) p attr v2" "i \<noteq> k"
    and sig: "settable L (w_db w) p attr ss node dt"
  shows "\<exists>s. run_locked L jobs (replicate 6 i @ replicate 6 k @ [i, k, i, k, k]) (start_locked w) = Some s \<and> st_order (l_sets s) = [i, k]"
proof -
  note i = good_set_parts[OF docs good(1)] and k = good_set_parts[OF docs good(2)]
  define s1 where "s1 = (start_locked w)\<lparr>l_sets := run_schedule L jobs (replicate 6 i) (start_sets w)\<rparr>"
  have 1: "run_locked L jobs (replicate 6 i) (start_locked w) = Some s1"
    using locked_six_steps[of "start_locked w" i L jobs] i(1) i(4)[OF sig] by (simp add: s1_def start_sets_def)
  have s1: "st_pcs (l_sets s1) = (\<lambda>_. SetStart)(i := SetStore (fromVSS L p) v1)" "l_owner s1 = None" "w_db (st_world (l_sets s1)) = w_db w"
      "st_order (l_sets s1) = []"
    using six_steps[of "start_sets w" i L jobs] i(1,2) i(4)[OF sig] by (simp_all add: s1_def start_sets_def)
  define s2 where "s2 = s1\<lparr>l_sets := run_schedule L jobs (replicate 6 k) (l_sets s1)\<rparr>"
  have 2: "run_locked L jobs (replicate 6 k) s1 = Some s2"
    using locked_six_steps[of s1 k L jobs] k(1) k(4)[OF sig] s1 good(3) by (simp add: s2_def)
  have s2: "st_pcs (l_sets s2) i = SetStore (fromVSS L p) v1" "st_pcs (l_sets s2) k = SetStore (fromVSS L p) v2" "l_owner s2 = None"
      "st_order (l_sets s2) = []"
    using six_steps[of "l_sets s1" k L jobs] k(1,2) k(4)[OF sig] s1 good(3) by (simp_all add: s2_def)
  from two_stores[OF s2(1,2) good(3) s2(3), of L jobs] s2(4) show ?thesis by (simp only: run_locked_append 1 2 option.case append_Nil)
qed

end
