(* ===== verification/DatabaseLock.thy ===== *)
theory DatabaseLock
  imports ThreadLaws
begin

text \<open>
  The mutex \<open>rwMutex_\<close> of \<open>src/VssDatabase.cpp\<close> around the threads of the subscription handler.
  \<open>getSignal\<close>, \<open>setSignal\<close>, \<open>getLeafPaths\<close>, \<open>getDatatypeForPath\<close> and the updates of the trees take it (the path
  predicates do not, see \<open>LockedSets\<close>); only \<open>setSignal\<close> calls another component while it holds it:
  \<open>publishForVSSPath\<close>, with the steps of \<open>SubscriptionThreads\<close>. The other operations of the subscription
  handler are called without it.
\<close>

section \<open>The state and its steps\<close>

record 'p db_sys =
  rw_owner :: "nat option"
  subs :: "'p sub_sys"

definition is_idle :: "client_pc \<Rightarrow> bool" where
  "is_idle pc = (case pc of Idle \<Rightarrow> True | _ \<Rightarrow> False)"

definition in_publish :: "client_pc \<Rightarrow> bool" where
  "in_publish pc = (case pc of PubStart _ _ _ _ \<Rightarrow> True | PubLock _ _ _ _ \<Rightarrow> True | PubNext _ _ _ \<Rightarrow> True
     | PubPush _ _ _ _ _ \<Rightarrow> True | _ \<Rightarrow> False)"

text \<open>A thread of the server takes the mutex, publishes under it, and gives it back. \<open>None\<close>: it cannot.\<close>

definition db_enter :: "nat \<Rightarrow> 'p db_sys \<Rightarrow> 'p db_sys option" where
  "db_enter i s = (if rw_owner s = None \<and> is_idle (clients (subs s) i) then Some (s\<lparr>rw_owner := Some i\<rparr>) else None)"

definition db_publish :: "nat \<Rightarrow> VSSPath \<Rightarrow> string \<Rightarrow> string \<Rightarrow> json \<Rightarrow> 'p db_sys \<Rightarrow> 'p db_sys option" where
  "db_publish i path dt attr data s =
     (if rw_owner s = Some i \<and> is_idle (clients (subs s) i) then Some (s\<lparr>subs := set_pc i (PubStart path dt attr data) (subs s)\<rparr>) else None)"

definition db_leave :: "nat \<Rightarrow> 'p db_sys \<Rightarrow> 'p db_sys option" where
  "db_leave i s = (if rw_owner s = Some i \<and> is_idle (clients (subs s) i) then Some (s\<lparr>rw_owner := None\<rparr>) else None)"

text \<open>An operation of the subscription handler that is called outside the database.\<close>

definition db_call :: "nat \<Rightarrow> client_pc \<Rightarrow> 'p db_sys \<Rightarrow> 'p db_sys option" where
  "db_call i pc s =
     (if rw_owner s \<noteq> Some i \<and> is_idle (clients (subs s) i) \<and> entry_pc pc \<and> \<not> in_publish pc
      then Some (s\<lparr>subs := set_pc i pc (subs s)\<rparr>) else None)"

definition db_run :: "'a lib_scheme \<Rightarrow> thread_id \<Rightarrow> 'p db_sys \<Rightarrow> 'p db_sys option" where
  "db_run L t s = map_option (\<lambda>s'. s\<lparr>subs := s'\<rparr>) (thread_step L t (subs s))"

inductive db_step :: "'a lib_scheme \<Rightarrow> 'p db_sys \<Rightarrow> 'p db_sys \<Rightarrow> bool" for L where
  enter: "db_enter i s = Some s' \<Longrightarrow> db_step L s s'"
| publish: "db_publish i path dt attr data s = Some s' \<Longrightarrow> db_step L s s'"
| leave: "db_leave i s = Some s' \<Longrightarrow> db_step L s s'"
| call: "db_call i pc s = Some s' \<Longrightarrow> db_step L s s'"
| run: "db_run L t s = Some s' \<Longrightarrow> db_step L s s'"
| spurious: "notifier (subs s) = NWaiting \<Longrightarrow> db_step L s (s\<lparr>subs := (subs s)\<lparr>notifier := NWoken\<rparr>\<rparr>)"
| surroundings: "db_step L s (s\<lparr>subs := (subs s)\<lparr>ws_server := srv, grpc_side := gw\<rparr>\<rparr>)"

inductive_cases db_stepE: "db_step L s s'"

inductive db_reachable :: "'a lib_scheme \<Rightarrow> 'p db_sys \<Rightarrow> bool" for L where
  init: "db_reachable L \<lparr>rw_owner = None, subs = sys_init run srv gw\<rparr>"
| next_state: "db_reachable L s \<Longrightarrow> db_step L s s' \<Longrightarrow> db_reachable L s'"

text \<open>Schedules.\<close>

datatype db_event = DbEnter nat | DbPublish nat VSSPath string string json | DbLeave nat | DbCall nat client_pc | DbRun thread_id

definition db_event_step :: "'a lib_scheme \<Rightarrow> db_event \<Rightarrow> 'p db_sys \<Rightarrow> 'p db_sys" where
  "db_event_step L e s =
     (case (case e of DbEnter i \<Rightarrow> db_enter i s | DbPublish i path dt attr data \<Rightarrow> db_publish i path dt attr data s
              | DbLeave i \<Rightarrow> db_leave i s | DbCall i pc \<Rightarrow> db_call i pc s | DbRun t \<Rightarrow> db_run L t s) of
        None \<Rightarrow> s | Some s' \<Rightarrow> s')"

definition run_db :: "'a lib_scheme \<Rightarrow> db_event list \<Rightarrow> 'p db_sys \<Rightarrow> 'p db_sys" where
  "run_db L es s = fold (db_event_step L) es s"

lemma is_idle_iff [simp]: "is_idle pc \<longleftrightarrow> pc = Idle"
  by (simp add: is_idle_def split: client_pc.splits)

lemma db_event_reachable: "db_reachable L s \<Longrightarrow> db_reachable L (db_event_step L e s)"
  unfolding db_event_step_def
  by (cases e) (auto split: option.splits intro: db_reachable.next_state db_step.intros)

lemma run_db_reachable: "db_reachable L s \<Longrightarrow> db_reachable L (run_db L es s)"
  unfolding run_db_def by (induction es arbitrary: s) (simp_all add: db_event_reachable)

section \<open>The threads below\<close>

text \<open>A step of the whole is a step of the subscription handler, or none there.\<close>

lemma db_step_subs:
  assumes "db_step L s s'"
  shows "subs s' = subs s \<or> sys_step L (subs s) (subs s')"
  using assms
proof (cases rule: db_step.cases)
  case (publish i path dt attr data)
  then have "clients (subs s) i = Idle" "subs s' = set_pc i (PubStart path dt attr data) (subs s)" by (auto simp: db_publish_def split: if_splits)
  then show ?thesis by (auto intro: sys_step.call simp: entry_pc_def)
next
  case (call i pc)
  then show ?thesis by (auto simp: db_call_def split: if_splits intro: sys_step.call)
next
  case (run t)
  then show ?thesis by (auto simp: db_run_def intro: sys_step.step)
qed (auto simp: db_enter_def db_leave_def split: if_splits intro: sys_step.spurious sys_step.surroundings)

lemma db_steps_subs: "(db_step L)\<^sup>*\<^sup>* s s' \<Longrightarrow> (sys_step L)\<^sup>*\<^sup>* (subs s) (subs s')"
proof (induction rule: rtranclp_induct)
  case (step y z)
  with db_step_subs[OF step(2)] show ?case by (auto intro: rtranclp.rtrancl_into_rtrancl)
qed simp

lemma db_reachable_subs: "db_reachable L s \<Longrightarrow> reachable L (subs s)"
proof (induction rule: db_reachable.induct)
  case (init run srv gw)
  then show ?case by (simp add: reachable.init)
next
  case (next_state s s')
  with db_step_subs[OF next_state(2)] show ?case by (auto intro: reachable.next_state)
qed

section \<open>Publishing holds the mutex\<close>

definition rw_inv :: "'p db_sys \<Rightarrow> bool" where
  "rw_inv s \<longleftrightarrow> (\<forall>i. in_publish (clients (subs s) i) \<longrightarrow> rw_owner s = Some i)"

lemma client_step_publish:
  assumes "client_step L i (clients s i) s = Some s'" "in_publish (clients s' k)"
  shows "in_publish (clients s k)"
proof (cases "k = i")
  case False
  with client_step_shape(1)[OF assms(1) refl, of k] assms(2) show ?thesis by simp
next
  case True
  with assms show ?thesis
  proof (cases "(L, i, clients s i, s)" rule: client_step.cases)
    case (2 L' i' path dt attr d s1)
    then have "clients s i = PubStart path dt attr d" by auto
    with True show ?thesis by (simp add: in_publish_def)
  qed (auto simp: in_publish_def with_Some publish_lock_def split: option.splits if_splits)
qed

lemma thread_step_publish:
  assumes "thread_step L t s = Some s'" "in_publish (clients s' k)"
  shows "in_publish (clients s k)"
proof (cases t)
  case (Client i)
  with assms client_step_publish[of L i s s' k] show ?thesis by (auto simp: thread_step_def split: if_splits)
next
  case Notifier
  with assms(1) have "notifier_step L (notifier s) s = Some s'" by (auto simp: thread_step_def split: if_splits)
  from notifier_step_shape[OF this refl] assms(2) show ?thesis by simp
qed

lemma rw_inv_step:
  assumes "db_step L s s'" "rw_inv s"
  shows "rw_inv s'"
  using assms(1)
proof (cases rule: db_step.cases)
  case (enter i)
  with assms(2) show ?thesis by (auto simp: db_enter_def rw_inv_def split: if_splits)
next
  case (leave i)
  then have "rw_owner s = Some i" "clients (subs s) i = Idle" "s' = s\<lparr>rw_owner := None\<rparr>" by (auto simp: db_leave_def split: if_splits)
  moreover have "\<not> in_publish Idle" by (simp add: in_publish_def)
  ultimately show ?thesis using assms(2) by (auto simp: rw_inv_def)
next
  case (run t)
  with assms(2) thread_step_publish[of L t "subs s"] show ?thesis by (auto simp: db_run_def rw_inv_def)
qed (use assms(2) in \<open>auto simp: rw_inv_def db_publish_def db_call_def split: if_splits\<close>)

lemma db_reachable_inv: "db_reachable L s \<Longrightarrow> rw_inv s"
proof (induction rule: db_reachable.induct)
  case (init run srv gw)
  then show ?case by (simp add: rw_inv_def sys_init_def in_publish_def)
qed (rule rw_inv_step)

lemma rw_inv_steps: "(db_step L)\<^sup>*\<^sup>* s s' \<Longrightarrow> rw_inv s \<Longrightarrow> rw_inv s'"
  by (induction rule: rtranclp_induct) (auto intro: rw_inv_step)

text \<open>A thread that is stuck in \<open>publishForVSSPath\<close> keeps every other thread from the mutex of the database.\<close>

lemma db_stuck:
  assumes "rw_inv s" "in_publish (clients (subs s) i)"
  shows "rw_owner s = Some i" "db_enter j s = None" "db_leave j s = None"
  using assms by (auto simp: rw_inv_def db_enter_def db_leave_def in_publish_def split: client_pc.splits)


text \<open>At most one thread is anywhere inside it.\<close>

lemma one_publisher:
  assumes "db_reachable L s" "in_publish (clients (subs s) i)" "in_publish (clients (subs s) j)"
  shows "i = j"
proof -
  from db_reachable_inv[OF assms(1)] assms(2,3) have "rw_owner s = Some i" "rw_owner s = Some j" unfolding rw_inv_def by blast+
  then show ?thesis by simp
qed

text \<open>The state of \<open>dead_connection_crosses\<close>: the database is locked for good.\<close>

lemma crossed_database:
  assumes s: "db_reachable L s" "clients (subs s) i = PubNext (x # r) dt d" "notifier (subs s) = NSend n"
    and send: "send_note L n (ws_server (subs s)) (grpc_side (subs s)) = (Inr False, srv, gw)"
    and step: "db_run L Notifier s = Some s1" "(db_step L)\<^sup>*\<^sup>* s1 s2"
  shows "crossed i (subs s2) \<and> clients (subs s2) i = PubNext (x # r) dt d \<and> taken_notes (subs s2) = taken_notes (subs s)
    \<and> subscriptions (handler (subs s2)) = subscriptions (handler (subs s)) \<and> rw_inv s2"
proof -
  from step(1) have run: "thread_step L Notifier (subs s) = Some (subs s1)" by (auto simp: db_run_def)
  have "rw_inv s1" using db_reachable_inv[OF db_reachable.next_state[OF s(1) db_step.run[OF step(1)]]] .
  from rw_inv_steps[OF step(2) this] have "rw_inv s2" .
  with crossed_forever[OF db_steps_subs[OF step(2)], of i] dead_connection_crosses[OF db_reachable_subs[OF s(1)] s(2,3) send run] s(2)
  show ?thesis by simp
qed

lemma crossed_stuck:
  assumes "crossed i s"
  shows "thread_step L (Client i) s = None" "thread_step L Notifier s = None"
proof -
  from assms obtain x r dt d c where pc: "clients s i = PubNext (x # r) dt d" "notifier s = NUnsub c" by (auto simp: crossed_def)
  with crossed_owners[OF assms] show "thread_step L (Client i) s = None" "thread_step L Notifier s = None"
    by (cases x; simp add: thread_step_def with_access_def with_sub_def)+
qed

text \<open>
  The threads of the subscription handler alone: the two that block each other stay where they are, and no
  subscription is added or removed.
\<close>

theorem dead_connection_deadlock:
  assumes "reachable L s" "clients s i = PubNext (x # r) dt d" "notifier s = NSend n"
    and "send_note L n (ws_server s) (grpc_side s) = (Inr False, srv, gw)"
    and "thread_step L Notifier s = Some s1" "(sys_step L)\<^sup>*\<^sup>* s1 s2"
  shows "clients s2 i = PubNext (x # r) dt d \<and> taken_notes s2 = taken_notes s \<and> subscriptions (handler s2) = subscriptions (handler s)
    \<and> thread_step L (Client i) s2 = None \<and> thread_step L Notifier s2 = None"
  using dead_connection_crosses[OF assms(1-5)] crossed_forever[OF assms(6), of i] crossed_stuck[of i s2 L] assms(2) by auto

end
