(* ===== verification/ServerSignals.thy ===== *)
theory ServerSignals
  imports ServerOptions
begin

text \<open>
  The signal handler of \<open>src/main.cpp\<close>, on the part of the process it changes: what the operating system
  does with the two signals, the sinks of the logging library, and whether the program still runs.
\<close>

datatype os_signal = SIGINT | SIGTERM

text \<open>A program starts with the default action or with the signal ignored; a handler is only what it installs.\<close>

datatype disposition = SigDefault | SigIgnore | CtrlC

record process =
  on_signal :: "os_signal \<Rightarrow> disposition"
  former_handler :: disposition
  log_sinks :: bool
  alive :: bool
  printed :: "string list"

text \<open>The first lines of \<open>main\<close>: the former handler of \<open>SIGINT\<close> is kept, that of \<open>SIGTERM\<close> is not.\<close>

definition install_handlers :: "process \<Rightarrow> process" where
  "install_handlers p = p\<lparr>former_handler := on_signal p SIGINT, on_signal := (on_signal p)(SIGINT := CtrlC, SIGTERM := CtrlC)\<rparr>"

text \<open>What a signal does when no handler of the program runs.\<close>

definition default_action :: "disposition \<Rightarrow> process \<Rightarrow> process" where
  "default_action d p = (case d of SigDefault \<Rightarrow> p\<lparr>alive := False\<rparr> | _ \<Rightarrow> p)"

text \<open>
  \<open>ctrlC_Handler\<close>. \<open>removed\<close> is what \<open>remove_all_sinks\<close> throws, if anything; an exception that is no
  \<open>std::exception\<close> ends the program. The raised signal is delivered when the handler returns.
\<close>

definition ctrlC_Handler :: "'a lib_scheme \<Rightarrow> exn option \<Rightarrow> os_signal \<Rightarrow> process \<Rightarrow> process" where
  "ctrlC_Handler L removed sig p =
     (let p1 = p\<lparr>printed := printed p @ [''STOP ...'']\<rparr>
      in case removed of
           Some e \<Rightarrow>
             if is_std_exception e
             then p1\<lparr>printed := printed p1 @ [what L e, ''Try searching for log file in src folder '']\<rparr>
             else p1\<lparr>alive := False\<rparr>
         | None \<Rightarrow>
             (let p2 = p1\<lparr>log_sinks := False, on_signal := (on_signal p1)(sig := former_handler p1)\<rparr>
              in default_action (on_signal p2 sig) p2))"

definition deliver_signal :: "'a lib_scheme \<Rightarrow> exn option \<Rightarrow> os_signal \<Rightarrow> process \<Rightarrow> process" where
  "deliver_signal L removed sig p =
     (if \<not> alive p then p
      else case on_signal p sig of CtrlC \<Rightarrow> ctrlC_Handler L removed sig p | d \<Rightarrow> default_action d p)"

section \<open>Lemmas\<close>

text \<open>With the default action before, either signal ends the program, after the sinks are gone.\<close>

lemma signal_ends:
  assumes "alive p" "on_signal p SIGINT = SigDefault"
  shows "\<not> alive (deliver_signal L None sig (install_handlers p)) \<and> \<not> log_sinks (deliver_signal L None sig (install_handlers p))"
  using assms by (cases sig) (simp_all add: deliver_signal_def install_handlers_def ctrlC_Handler_def default_action_def Let_def)

text \<open>
  Where \<open>SIGINT\<close> was ignored, as for a command a shell runs in the background, the first \<open>SIGTERM\<close> makes the
  program ignore \<open>SIGTERM\<close>: it runs on without its sinks, and no later signal of the two ends it.
\<close>

lemma ignored_delivery:
  assumes "alive p" "on_signal p SIGTERM = SigIgnore" "on_signal p SIGINT = CtrlC \<and> former_handler p = SigIgnore \<or> on_signal p SIGINT = SigIgnore"
  shows "alive (deliver_signal L None sig p) \<and> on_signal (deliver_signal L None sig p) SIGTERM = SigIgnore
    \<and> (on_signal (deliver_signal L None sig p) SIGINT = CtrlC \<and> former_handler (deliver_signal L None sig p) = SigIgnore
       \<or> on_signal (deliver_signal L None sig p) SIGINT = SigIgnore)"
  using assms by (cases sig) (auto simp: deliver_signal_def ctrlC_Handler_def default_action_def Let_def)

lemma signals_ignored:
  assumes "alive p" "on_signal p SIGINT = SigIgnore"
  shows "alive (fold (deliver_signal L None) sigs (deliver_signal L None SIGTERM (install_handlers p)))"
proof -
  let ?ok = "\<lambda>p. alive p \<and> on_signal p SIGTERM = SigIgnore
    \<and> (on_signal p SIGINT = CtrlC \<and> former_handler p = SigIgnore \<or> on_signal p SIGINT = SigIgnore)"
  have "?ok (deliver_signal L None SIGTERM (install_handlers p))"
    using assms by (simp add: deliver_signal_def install_handlers_def ctrlC_Handler_def default_action_def Let_def)
  moreover have "?ok q \<Longrightarrow> ?ok (fold (deliver_signal L None) sigs q)" for q
  proof (induction sigs arbitrary: q)
    case (Cons sig sigs)
    then have "?ok (deliver_signal L None sig q)" by (intro ignored_delivery) auto
    with Cons.IH show ?case by simp
  qed simp
  ultimately show ?thesis by blast
qed

text \<open>When the sinks cannot be removed the handler stays, and the signal is lost.\<close>

lemma signal_lost:
  assumes "alive p" "is_std_exception e"
  shows "alive (deliver_signal L (Some e) sig (install_handlers p))
    \<and> on_signal (deliver_signal L (Some e) sig (install_handlers p)) = on_signal (install_handlers p)"
  using assms by (cases sig) (simp_all add: deliver_signal_def install_handlers_def ctrlC_Handler_def Let_def)

end
