(* ===== verification/SampleRuns.thy ===== *)
theory SampleRuns
  imports Samples ThreadLaws GrpcMessages ServerOptions HttpSessions SessionRequests LockedSets DatabaseLock ServerSignals
begin

text \<open>Runs of the subscription threads, of the gRPC service and of the start-up on the sample vehicle.\<close>

section \<open>Subscription threads\<close>

definition sample_path :: VSSPath where
  "sample_path = fromVSS ref_lib ''Vehicle.Speed''"

definition sample_point :: json where
  "sample_point = data_point sample_path (7, 8) ''value'' (JInt 80)"

definition sample_pub :: client_pc where
  "sample_pub = PubStart sample_path ''uint16'' ''value'' sample_point"

definition sample_client :: KuksaChannel where
  "sample_client = new_channel 7 WEBSOCKET_PLAIN"

text \<open>A server that runs and has no connection.\<close>

definition empty_server :: "unit WsServer" where
  "empty_server = new_WsServer\<lparr>isInitialized := True\<rparr>"

definition sample_streams :: grpc_world where
  "sample_streams = \<lparr>subs_maps = (\<lambda>_. []), next_map = 0, stream_log = (\<lambda>_. [])\<rparr>"

definition started :: "unit sub_sys" where
  "started = run_events ref_lib [Run (Client 0), Run (Client 0), Call 1 (SubAdd (''Vehicle/Speed'', ''value'') 5 sample_client), Run (Client 1)]
     (sys_init False empty_server sample_streams)"

text \<open>Client 1 has published once; the notification thread has taken the notification.\<close>

definition sending_state :: "unit sub_sys" where
  "sending_state = run_events ref_lib ([Call 1 sample_pub] @ replicate 5 (Run (Client 1)) @ replicate 3 (Run Notifier)) started"

text \<open>It publishes again, while the thread sends to the connection that is gone.\<close>

definition crossing_state :: "unit sub_sys" where
  "crossing_state = run_events ref_lib [Call 1 sample_pub, Run (Client 1), Run (Client 1)] sending_state"

lemma started_reachable: "reachable ref_lib started"
  unfolding started_def by (rule run_events_reachable[OF reachable.init])

lemma crossing_reachable: "reachable ref_lib crossing_state"
  unfolding crossing_state_def sending_state_def by (rule run_events_reachable[OF run_events_reachable[OF started_reachable]])

lemma crossing_facts:
  "clients crossing_state 1 = PubNext [(5, sample_client)] ''uint16'' sample_point"
  "notifier crossing_state = NSend (5, sample_client, ''uint16'', sample_point)"
  "fst (send_note ref_lib (5, sample_client, ''uint16'', sample_point) (ws_server crossing_state) (grpc_side crossing_state)) = Inr False"
  "length (pushed crossing_state) = 1"
  by code_simp+

text \<open>The thread has found the buffer empty; client 1 is about to push.\<close>

definition racing_state :: "unit sub_sys" where
  "racing_state = run_events ref_lib ([Call 1 sample_pub] @ replicate 3 (Run (Client 1)) @ replicate 2 (Run Notifier)) started"

lemma racing_reachable: "reachable ref_lib racing_state"
  unfolding racing_state_def by (rule run_events_reachable[OF started_reachable])

lemma racing_facts: "notifier racing_state = NWait" "clients racing_state 1 = PubPush 5 sample_client [] ''uint16'' sample_point"
  by code_simp+

text \<open>One notification in the buffer, and nobody inside a critical section.\<close>

definition checking_state :: "unit sub_sys" where
  "checking_state = run_events ref_lib ([Call 1 sample_pub] @ replicate 5 (Run (Client 1)) @ [Run Notifier]) started"

lemma checking_facts: "notifier checking_state = NCheck" "access_owner checking_state = None" "sub_owner checking_state = None"
  "buffer (handler checking_state) = [(5, sample_client, ''uint16'', sample_point)]"
  "fst (subThread_round ref_lib (handler checking_state) (ws_server checking_state) (grpc_side checking_state)) = Inr ()"
  "subscriptions (fst (snd (subThread_round ref_lib (handler checking_state) (ws_server checking_state) (grpc_side checking_state))))
    = [((''Vehicle/Speed'', ''value''), [])]"
  by code_simp+

text \<open>The same with two notifications and with the connection of the subscriber there.\<close>

definition connected_server :: "unit WsServer" where
  "connected_server = empty_server\<lparr>connHandler := AddClient WEBSOCKET_PLAIN 7 new_ConnectionHandler,
     sessions := [7 \<mapsto> new_WsSession WEBSOCKET_PLAIN 7 sample_client]\<rparr>"

definition connected_state :: "unit sub_sys" where
  "connected_state = (run_events ref_lib (concat (replicate 2 (Call 1 sample_pub # replicate 5 (Run (Client 1))))) started)\<lparr>ws_server := connected_server\<rparr>"

lemma connected_facts: "notifier connected_state \<in> {NLoop, NCheck}" "threadRun (handler connected_state)"
  "access_owner connected_state = None" "sub_owner connected_state = None"
  "isInitialized (ws_server connected_state)" "sessions_alive (ws_server connected_state)"
  "websocket_notes ref_lib (buffer (handler connected_state))"
  "ws_registered (ws_server connected_state) 7"
  "map_option writeQueue (sessions (ws_server connected_state) 7) = Some []"
  "length (messages_for ref_lib 7 (buffer (handler connected_state))) = 2"
proof -
  show "notifier connected_state \<in> {NLoop, NCheck}" "threadRun (handler connected_state)"
    "access_owner connected_state = None" "sub_owner connected_state = None" "isInitialized (ws_server connected_state)"
    "ws_registered (ws_server connected_state) 7" "map_option writeQueue (sessions (ws_server connected_state) 7) = Some []"
    "length (messages_for ref_lib 7 (buffer (handler connected_state))) = 2"
    by code_simp+
  show "sessions_alive (ws_server connected_state)"
    by (auto simp: sessions_alive_def ws_registered_def connected_state_def connected_server_def empty_server_def new_WsServer_def new_ConnectionHandler_def)
  have "buffer (handler connected_state) = replicate 2 (5, sample_client, ''uint16'', sample_point)"
    "isl (notification_answer ref_lib 5 sample_point) = False" "typeOfConnection sample_client \<noteq> GRPC" by code_simp+
  then show "websocket_notes ref_lib (buffer (handler connected_state))"
    by (cases "notification_answer ref_lib 5 sample_point") (auto simp: websocket_notes_def)
qed

section \<open>Subscribing\<close>

definition sample_subscribe :: json where
  "sample_subscribe = json_build [(''action'', JStr ''subscribe''), (''path'', JStr ''Vehicle.Speed''), (''requestId'', JStr ''r3'')]"

definition sample_client2 :: KuksaChannel where
  "sample_client2 = (new_channel 8 WEBSOCKET_PLAIN)\<lparr>authorized := True, permissions := JStr (ref_dump (policy_json [(''Vehicle.Speed'', ''r'')]))\<rparr>"

lemma sample_subscribe_text: "j_parse ref_lib (ref_dump sample_subscribe) = Inr sample_subscribe"
  by code_simp

lemma sample_subscribe_msg: "subscribe_msg sample_subscribe ''r3'' ''Vehicle.Speed'' ''value''"
  by (simp add: subscribe_msg_def sample_subscribe_def json_build_lookup signal_attr_def)

lemma sample_client2_access: "checkReadAccess ref_lib sample_client2 (fromVSS ref_lib ''Vehicle.Speed'') = Inr True"
  by code_simp

definition sample_unsubscribe :: json where
  "sample_unsubscribe = json_build [(''action'', JStr ''unsubscribe''), (''requestId'', JStr ''r4''), (''subscriptionId'', JStr (uuid_show ref_lib 5))]"

lemma sample_unsubscribe_id: "json_lookup sample_unsubscribe ''subscriptionId'' = Some (JStr (uuid_show ref_lib 5))"
  by (simp add: sample_unsubscribe_def json_build_lookup)

lemma sample_unsubscribed:
  obtains j w' where "processUnsubscribe ref_lib sample_env sample_channel sample_unsubscribe sample_world = (Inr j, w')" "\<not> json_contains j ''error''"
proof -
  have "is_object sample_unsubscribe" by code_simp
  then have "conforms vss_resolver SCHEMA_UNSUBSCRIBE sample_unsubscribe"
    by (auto simp: conforms_unsubscribe action_in_def has_string_def sample_unsubscribe_def json_build_lookup)
  then have "validateUnsubscribe ref_lib sample_unsubscribe = Inr ()"
    using validate_message_iff(1)[OF schema_ref] by (simp add: validateUnsubscribe_def)
  moreover have "req_string ref_lib sample_unsubscribe ''requestId'' = Inr ''r4''" "req_string ref_lib sample_unsubscribe ''subscriptionId'' = Inr (uuid_show ref_lib 5)"
    "uuid_parse ref_lib (uuid_show ref_lib 5) = Inr 5" "fst (unsubscribe 5 sample_handler) = 0" by code_simp+
  ultimately show ?thesis
    using that by (cases "unsubscribe 5 sample_handler")
      (simp add: processUnsubscribe_def reject_request_def json_contains_lookup json_build_lookup)
qed

section \<open>Requests that go wrong\<close>

definition broken_path :: string where
  "broken_path = ''Vehicle'' @ [CHR 0x27]"

definition broken_set :: json where
  "broken_set = json_build [(''action'', JStr ''set''), (''path'', JStr broken_path), (''requestId'', JStr ''r5''), (''value'', JInt 5)]"

lemma broken_set_text: "j_parse ref_lib (ref_dump broken_set) = Inr broken_set"
  by code_simp

lemma broken_set_request: "set_request broken_set ''r5'' broken_path ''value'' (JInt 5)"
  by (simp add: set_request_def broken_set_def json_build_lookup signal_attr_def)

lemma broken_set_path: "\<forall>t. j_query ref_lib t (getJSONPath (fromVSS ref_lib broken_path)) = Inl (JsonpathError ''bad path'')"
proof -
  have "ref_path (getJSONPath (fromVSS ref_lib broken_path)) = Inl (JsonpathError ''bad path'')" by code_simp
  then show ?thesis by (simp add: ref_lib_def)
qed

definition odd_node :: json where
  "odd_node = JObj [(''datatype'', JStr ''date''), (''type'', JStr ''sensor'')]"

definition odd_world :: world where
  "odd_world = sample_world\<lparr>w_db := sample_db\<lparr>data_tree := JObj [(''Vehicle'', JObj [(''children'', JObj [(''Speed'', odd_node)]), (''type'', JStr ''branch'')])]\<rparr>\<rparr>"

section \<open>Starting the server\<close>

definition sample_entries :: "dir_entry list" where
  "sample_entries = [
     \<lparr>entry_path = ''overlays/b.json'', entry_name = ''b.json'', entry_extension = ''.json'', entry_regular = True\<rparr>,
     \<lparr>entry_path = ''overlays/a.json'', entry_name = ''a.json'', entry_extension = ''.json'', entry_regular = True\<rparr>,
     \<lparr>entry_path = ''overlays/notes'', entry_name = ''notes'', entry_extension = [], entry_regular = True\<rparr>]"

definition small_tree :: json where
  "small_tree = JObj [(''Vehicle'', JObj [(''children'', JObj [(''Speed'', JObj [(''type'', JStr ''sensor'')])]), (''type'', JStr ''branch'')])]"

definition sample_fs :: file_system where
  "sample_fs = \<lparr>fs_is_directory = (\<lambda>d. d = ''overlays''), fs_entries = (\<lambda>d. Inr sample_entries),
     fs_content = (\<lambda>f. if f = ''none.json'' then [] else ref_dump small_tree), fs_key = (\<lambda>_. None)\<rparr>"

definition sample_broker :: mosquitto where
  "sample_broker = \<lparr>m_insecure = 0, m_connect = (\<lambda>_. 0), m_publish = (\<lambda>_. 0), m_userpw = (\<lambda>_ _. 0)\<rparr>"

definition sample_options :: server_options where
  "sample_options = \<lparr>so_help = False, so_vss = ''vss.json'', so_overlays = Some ''overlays'', so_cert_path = ''.'', so_insecure = False,
     so_record = ''noRecord'', so_record_path = ''.'', so_log_level = [''INFO''],
     so_mqtt = mqtt_getOptions\<lparr>opt_publish := '' Vehicle.Speed; Vehicle.Nope;''\<rparr>\<rparr>"

definition main_paths :: "main_result \<Rightarrow> string list option" where
  "main_paths r = (case r of Running app \<Rightarrow>
     Some (filter (\<lambda>t. checkPathValid ref_lib (w_db (app_world app)) (fromVSSGen1 ref_lib t) = Inr True) (publish_tokens (opt_publish (so_mqtt sample_options))))
   | _ \<Rightarrow> None)"

lemma sample_running:
  obtains app where "server_main ref_lib (\<lambda>_. False) sample_fs sample_broker (0, WEBSOCKET_PLAIN) (\<lambda>_. None) sample_options = Running app"
    "filter (\<lambda>t. checkPathValid ref_lib (w_db (app_world app)) (fromVSSGen1 ref_lib t) = Inr True) (publish_tokens (opt_publish (so_mqtt sample_options))) = [''Vehicle.Speed'']"
proof -
  have "main_paths (server_main ref_lib (\<lambda>_. False) sample_fs sample_broker (0, WEBSOCKET_PLAIN) (\<lambda>_. None) sample_options) = Some [''Vehicle.Speed'']"
    by code_simp
  then show ?thesis using that unfolding main_paths_def by (auto split: main_result.splits)
qed

definition broken_options :: server_options where
  "broken_options = sample_options\<lparr>so_vss := ''none.json'', so_overlays := None\<rparr>"

lemma sample_broken:
  "active_levels (so_log_level broken_options) 0 = Some 2" "\<not> so_help broken_options" "record_mode broken_options = Inr None"
  "so_overlays broken_options = None" "\<exists>e. j_parse ref_lib (fs_content sample_fs (so_vss broken_options)) = Inl e \<and> is_std_exception e"
proof -
  show "active_levels (so_log_level broken_options) 0 = Some 2" "\<not> so_help broken_options" "record_mode broken_options = Inr None"
    "so_overlays broken_options = None" by code_simp+
  have "(case j_parse ref_lib (fs_content sample_fs (so_vss broken_options)) of Inl e \<Rightarrow> is_std_exception e | Inr _ \<Rightarrow> False)" by code_simp
  then show "\<exists>e. j_parse ref_lib (fs_content sample_fs (so_vss broken_options)) = Inl e \<and> is_std_exception e" by (auto split: sum.splits)
qed

text \<open>A command line and a configuration file that both name a port.\<close>

definition sample_command_line :: "(string \<times> opt_value) list" where
  "sample_command_line = [(''vss'', OText ''v.json''), (''config-file'', OText ''/etc/k.ini''), (''port'', ONumber 9)]"

definition sample_parser :: option_parser where
  "sample_parser = \<lparr>po_command_line = Inr sample_command_line, po_config_file = (\<lambda>_. Inr [(''port'', ONumber 1)]),
     po_store = ref_store, po_notify = (\<lambda>_. Inr ()), po_absolute = (\<lambda>p d. d @ ''/'' @ p), po_parent_path = (\<lambda>_. ''/etc'')\<rparr>"

lemma sample_parsed:
  obtains vars where "read_options sample_parser (\<lambda>_. Some ''port = 1'') = Inr vars"
proof -
  have "\<not> isl (read_options sample_parser (\<lambda>_. Some ''port = 1''))" by code_simp
  then show ?thesis using that by (cases "read_options sample_parser (\<lambda>_. Some ''port = 1'')") auto
qed

section \<open>The gRPC service\<close>

definition grpc_channel :: KuksaChannel where
  "grpc_channel = (setType GRPC sample_channel)\<lparr>grpcSubsMap := Some 0\<rparr>"

definition sample_grpc :: grpc_state where
  "sample_grpc = \<lparr>g_world = sample_world, g_streams = sample_streams\<lparr>next_map := 1\<rparr>,
     grpcSessionMap = [(''peer'', 11) \<mapsto> grpc_channel], grpcSubscribeSessionMap = Map.empty\<rparr>"

definition sample_ctx :: grpc_context where
  "sample_ctx = \<lparr>ctx_peer = ''peer'', ctx_connectionid = Some (uuid_show ref_lib 11), ctx_addr = 64, ctx_stream = 1\<rparr>"

definition sample_ge :: "nat \<Rightarrow> grpc_env" where
  "sample_ge j = \<lparr>ge_env = \<lparr>env_offset = 0, env_now = 0, env_clock = (7, 8), env_uuid = (if j = 0 then 3 else 4)\<rparr>, ge_rid = 100\<rparr>"

definition free_node :: json where
  "free_node = JObj [(''datatype'', JStr ''uint16''), (''type'', JStr ''sensor'')]"

definition free_grpc :: grpc_state where
  "free_grpc = sample_grpc\<lparr>g_world := sample_world\<lparr>w_db := sample_db\<lparr>data_tree :=
     JObj [(''Vehicle'', JObj [(''children'', JObj [(''Speed'', free_node)]), (''type'', JStr ''branch'')])]\<rparr>\<rparr>\<rparr>"

definition speed_value :: grpc_value where
  "speed_value = new_grpc_value\<lparr>v_path := ''Vehicle.Speed'', v_val := VUint32 120\<rparr>"

lemma sample_session: "session_of ref_lib sample_ctx sample_grpc = Some grpc_channel" "session_of ref_lib sample_ctx free_grpc = Some grpc_channel"
  by (simp_all add: session_of_def session_key_def sample_ctx_def sample_grpc_def free_grpc_def uuid_docD[OF uuid_ref])

lemma free_grpc_facts:
  "settable ref_lib (w_db (g_world free_grpc)) ''Vehicle.Speed'' (attr_of CURRENT_VALUE) speed_segs free_node ''uint16''"
  "checkWriteAccess ref_lib grpc_channel (fromVSS ref_lib ''Vehicle.Speed'') = Inr True"
  "checkReadAccess ref_lib grpc_channel (leaf_of ref_lib ''Vehicle.Speed'') = Inr True"
  "publishers (w_sub (g_world free_grpc)) = []" "w_rec (g_world free_grpc) = None" "typeOfConnection grpc_channel = GRPC"
  "num_of_datatype ''uint16'' = Some U16" "v_val speed_value = int_field ''uint16'' 120" "v_path speed_value = ''Vehicle.Speed''"
  "to_string (leaf_of ref_lib ''Vehicle.Speed'') = ''Vehicle.Speed''"
  by code_simp+

text \<open>A call that brings a token, and the answer to it.\<close>

definition login_ctx :: grpc_context where
  "login_ctx = sample_ctx\<lparr>ctx_connectionid := None\<rparr>"

lemma sample_login:
  obtains S' where "grpc_authorize ref_lib (sample_ge 0) login_ctx sample_token sample_grpc =
    (Inr \<lparr>auth_status = grpc_status_of 200 ''Authorization Successful.'', auth_connectionid = uuid_show ref_lib 100\<rparr>, S')"
proof -
  have "fst (grpc_authorize ref_lib (sample_ge 0) login_ctx sample_token sample_grpc) =
    Inr \<lparr>auth_status = grpc_status_of 200 ''Authorization Successful.'', auth_connectionid = uuid_show ref_lib 100\<rparr>" by code_simp
  then show ?thesis using that by (cases "grpc_authorize ref_lib (sample_ge 0) login_ctx sample_token sample_grpc") auto
qed

text \<open>Two messages of a subscription call.\<close>

lemma sample_get_loop:
  obtains w' reply where "grpc_get_loop ref_lib sample_ge (Some grpc_channel) CURRENT_VALUE 0 [''Vehicle.VIN''] False vin_world
       \<lparr>get_values = [], get_status = new_grpc_status\<rparr> = (Inr False, w', reply)"
proof -
  have "fst (grpc_get_loop ref_lib sample_ge (Some grpc_channel) CURRENT_VALUE 0 [''Vehicle.VIN''] False vin_world
       \<lparr>get_values = [], get_status = new_grpc_status\<rparr>) = Inr False" by code_simp
  then show ?thesis using that by (cases "grpc_get_loop ref_lib sample_ge (Some grpc_channel) CURRENT_VALUE 0 [''Vehicle.VIN''] False vin_world
       \<lparr>get_values = [], get_status = new_grpc_status\<rparr>") auto
qed

definition sample_messages :: "subscribe_request list" where
  "sample_messages = [\<lparr>sub_type = CURRENT_VALUE, sub_path = ''Vehicle.Speed'', sub_start = True\<rparr>,
     \<lparr>sub_type = CURRENT_VALUE, sub_path = ''Vehicle.Speed'', sub_start = False\<rparr>]"

lemma sample_call:
  obtains S' where "grpc_subscribe ref_lib sample_ge sample_ctx sample_messages sample_grpc = (Inr (), S')"
proof -
  have "fst (grpc_subscribe ref_lib sample_ge sample_ctx sample_messages sample_grpc) = Inr ()" by code_simp
  then show ?thesis using that by (cases "grpc_subscribe ref_lib sample_ge sample_ctx sample_messages sample_grpc") auto
qed

section \<open>The notification thread, alone\<close>

text \<open>
  With both mutexes free it does with the first notification of a buffer what one round of the
  sequential definition does, and is back at the head of its loop.
\<close>

theorem notifier_alone:
  assumes "notifier s = NCheck" "access_owner s = None" "sub_owner s = None" "buffer (handler s) = n # ns"
    "subThread_round L (handler s) (ws_server s) (grpc_side s) = (Inr (), sh', srv', gw')"
  shows "\<exists>k s'. run_events L (replicate k (Run Notifier)) s = s' \<and> notifier s' = NLoop \<and> access_owner s' = None \<and> sub_owner s' = None
     \<and> handler s' = sh' \<and> ws_server s' = srv' \<and> grpc_side s' = gw' \<and> clients s' = clients s \<and> taken_notes s' = taken_notes s @ [n]"
  using round_runs[OF assms] by blast

lemma notifier_alone_sample:
  "\<exists>k. notifier (run_events ref_lib (replicate k (Run Notifier)) checking_state) = NLoop
    \<and> subscriptions (handler (run_events ref_lib (replicate k (Run Notifier)) checking_state)) = [((''Vehicle/Speed'', ''value''), [])]"
proof -
  obtain r sh' srv' gw' where round: "subThread_round ref_lib (handler checking_state) (ws_server checking_state) (grpc_side checking_state) = (r, sh', srv', gw')"
    by (metis prod_cases4)
  from checking_facts(5,6) round have r: "r = Inr ()" "subscriptions sh' = [((''Vehicle/Speed'', ''value''), [])]" by simp_all
  from notifier_alone[OF checking_facts(1-4), of ref_lib sh' srv' gw'] round r show ?thesis by auto
qed

section \<open>Two messages of one session\<close>

definition sample_texts :: "string list" where
  "sample_texts = [''x'', ref_dump (set_speed (JStr ''120''))]"

definition sample_session :: WsSession where
  "sample_session = new_WsSession WEBSOCKET_PLAIN 7 sample_channel"

lemma sample_session_parts:
  "bufferRead sample_session = []" "write_ready sample_session" "writeQueue sample_session = []" "session_channel sample_session = sample_channel"
  by (simp_all add: sample_session_def new_WsSession_def write_ready_def)

lemma sample_queries:
  obtains answers w' where "queries ref_lib (\<lambda>_. sample_env) 0 sample_texts sample_channel sample_world = (Inr answers, sample_channel, w')"
    "length answers = 2"
    "w_db w' = sample_db\<lparr>data_tree := path_replace speed_segs (stored (env_clock sample_env) ''value'' (JInt 120) speed_node) sample_tree\<rparr>"
proof -
  have "j_parse ref_lib ''x'' = Inl (SerError ''parse error'')" by code_simp
  then have "\<exists>a. processQuery ref_lib sample_env ''x'' sample_channel sample_world = (Inr a, sample_channel, sample_world)"
    by (simp add: processQuery_def)
  moreover obtain ans w' where "processQuery ref_lib sample_env (ref_dump (set_speed (JStr ''120''))) sample_channel sample_world = (Inr ans, sample_channel, w')"
    "w_db w' = sample_db\<lparr>data_tree := path_replace speed_segs (stored (env_clock sample_env) ''value'' (JInt 120) speed_node) sample_tree\<rparr>"
    by (rule sample_query)
  ultimately show thesis using that by (auto simp: sample_texts_def)
qed

section \<open>The recording store\<close>

lemma record_last_write_sample:
  "rec_get ref_lib (fold (\<lambda>(k, v). rec_put ref_lib (7, 8) k v) [((speed_segs, ''value''), JInt 80), ((speed_segs, ''value''), JInt 999)]
      ((sample_db, sample_handler), new_VssDatabase_Record ''.'' ''recordSetAndGet'')) (speed_segs, ''value'') = Some (JInt 80)"
proof -
  have "db_admit ref_lib (sample_db, sample_handler) (speed_segs, ''value'') (JInt 80) = Some (JInt 80)"
    "db_admit ref_lib (sample_db, sample_handler) (speed_segs, ''value'') (JInt 999) = None"
    by code_simp+
  then show ?thesis
    using record_last_write[of ref_lib "(7, 8)" "{speed_segs, door_segs}" "((sample_db, sample_handler), new_VssDatabase_Record ''.'' ''recordSetAndGet'')"
        "(speed_segs, ''value'')" "[((speed_segs, ''value''), JInt 80), ((speed_segs, ''value''), JInt 999)]"] sample_db_ok
    by (auto simp: db_known_def signal_attr_def)
qed

section \<open>A connection that is gone\<close>

lemma dead_connection_deadlock_sample:
  "\<exists>s1. thread_step ref_lib Notifier crossing_state = Some s1 \<and> thread_step ref_lib (Client 1) s1 = None \<and> thread_step ref_lib Notifier s1 = None"
proof -
  let ?n = "(5, sample_client, ''uint16'', sample_point)"
  obtain srv gw where send: "send_note ref_lib ?n (ws_server crossing_state) (grpc_side crossing_state) = (Inr False, srv, gw)"
    using crossing_facts(3) by (cases "send_note ref_lib ?n (ws_server crossing_state) (grpc_side crossing_state)") auto
  obtain s1 where s1: "thread_step ref_lib Notifier crossing_state = Some s1"
    using crossing_facts(2) by (simp add: thread_step_def)
  from dead_connection_deadlock[OF crossing_reachable crossing_facts(1,2) send s1 rtranclp.rtrancl_refl] s1 show ?thesis by blast
qed

definition db_started :: "unit db_sys" where
  "db_started = run_db ref_lib [DbRun (Client 0), DbRun (Client 0), DbCall 1 (SubAdd (''Vehicle/Speed'', ''value'') 5 sample_client), DbRun (Client 1)]
     \<lparr>rw_owner = None, subs = sys_init False empty_server sample_streams\<rparr>"

definition db_publishing :: "db_event list" where
  "db_publishing = [DbEnter 1, DbPublish 1 sample_path ''uint16'' ''value'' sample_point]"

definition db_crossing :: "unit db_sys" where
  "db_crossing = run_db ref_lib (db_publishing @ replicate 5 (DbRun (Client 1)) @ [DbLeave 1] @ replicate 3 (DbRun Notifier)
     @ db_publishing @ replicate 2 (DbRun (Client 1))) db_started"

lemma db_crossing_reachable: "db_reachable ref_lib db_crossing"
  unfolding db_crossing_def db_started_def by (intro run_db_reachable db_reachable.init)

lemma db_crossing_facts:
  "clients (subs db_crossing) 1 = PubNext [(5, sample_client)] ''uint16'' sample_point"
  "notifier (subs db_crossing) = NSend (5, sample_client, ''uint16'', sample_point)"
  "fst (send_note ref_lib (5, sample_client, ''uint16'', sample_point) (ws_server (subs db_crossing)) (grpc_side (subs db_crossing))) = Inr False"
  by code_simp+

section \<open>Two clients that set the same signal\<close>

definition sample_jobs :: "nat \<Rightarrow> set_job" where
  "sample_jobs i = \<lparr>job_env = ge_env (sample_ge i), job_channel = sample_channel,
     job_request = set_speed (JInt (if i = 0 then 80 else 120))\<rparr>"

definition recorded_world :: world where
  "recorded_world = sample_world\<lparr>w_rec := Some (new_VssDatabase_Record ''.'' ''recordSet'')\<rparr>"

lemma sample_jobs_ok: "job_ok ref_lib {speed_segs, door_segs} (sample_jobs i)"
proof -
  have "clock_ok (7, 8)" "denotes (fromVSS ref_lib ''Vehicle.Speed'') speed_segs" by code_simp+
  moreover have "set_request (job_request (sample_jobs i)) ''r1'' ''Vehicle.Speed'' ''value'' (JInt (if i = 0 then 80 else 120))"
    unfolding sample_jobs_def set_job.simps by (rule sample_request)
  moreover have "env_clock (job_env (sample_jobs i)) = (7, 8)" by (simp add: sample_jobs_def sample_ge_def)
  ultimately show ?thesis unfolding job_ok_def by auto
qed

lemma sample_jobs_good:
  "good_set ref_lib (sample_jobs 0) ''Vehicle.Speed'' ''value'' (JInt 80)"
  "good_set ref_lib (sample_jobs 1) ''Vehicle.Speed'' ''value'' (JInt 120)"
  using sample_request sample_access(1) by (auto simp: good_set_def sample_jobs_def)

lemma sample_sets_ok: "sets_ok ref_lib {speed_segs, door_segs} sample_world"
  using db_ok_clock[OF sample_db_ok clock_zero] by (simp add: sets_ok_def)

text \<open>Both reach their stores; client 0 takes the mutex, client 1 waits for it.\<close>

lemma sample_locked_run:
  "\<exists>s. run_locked ref_lib sample_jobs (replicate 6 0 @ replicate 6 1 @ [0, 1, 0, 1, 1]) (start_locked sample_world) = Some s
    \<and> st_order (l_sets s) = [0, 1]"
  using two_good_sets[OF sample_docs sample_jobs_good, of sample_world speed_segs speed_node "''uint16''"] sample_settable by simp

lemma recorded_world_parts [simp]: "w_db recorded_world = sample_db" "w_sub recorded_world = sample_handler"
  "w_rec recorded_world = Some (new_VssDatabase_Record ''.'' ''recordSet'')"
  by (simp_all add: recorded_world_def)

end
