(* ===== verification/Spec2Isabelle.thy ===== *)
theory Spec2Isabelle
  imports SampleRuns
begin

text \<open>
  A model of the KUKSA.val server (\<open>src/kuksa-val-server\<close>), a server for the signals of a vehicle.
  A tree of signals described by a JSON file (VSS) is read and written by clients over web-sockets, HTTP
  and gRPC. Clients authorize with a JSON web token whose claims say which paths they may read and write,
  get and set signals, ask for metadata, and subscribe to signals.

  \<^bold>\<open>Parts and theories.\<close>

  \<^item> \<open>Prelude\<close>: sequencing of computations that may throw, decimal text, character-level string functions.
    \<open>Json\<close>: JSON values and the exception classes of \<open>include/exception.hpp\<close>. \<open>Externals\<close>: the record
    \<open>lib\<close> of what the program calls but does not contain (jsoncons with jsonpath and jsonschema, \<open>std::regex\<close>,
    Boost strings and UUIDs, jwt-cpp), and what the code relies on: \<open>jsonpath_doc\<close>, \<open>dotpath_doc\<close>,
    \<open>schema_doc\<close>, \<open>num_doc\<close>, \<open>json_doc\<close>, \<open>regex_doc\<close>, \<open>boost_doc\<close>, \<open>jwt_doc\<close>, \<open>uuid_doc\<close>.
    \<open>Reference\<close>: one executable library \<open>ref_lib\<close> that behaves so; the witnesses compute with it.
    \<open>Interfaces\<close>: the locales \<open>fifo_queue\<close>, \<open>registry\<close> and \<open>checked_store\<close>, each interpreted on the
    operations of the components that provide it.

  \<^item> \<open>VSSPath\<close> (\<open>VSSPath.hpp\<close>, \<open>VSSPath.cpp\<close>): the three notations of a path and the conversions. \<open>TreePaths\<close>:
    laws of selecting and replacing along a path. \<open>VssTree\<close> and \<open>VssDatabase\<close> (\<open>VssDatabase.cpp\<close>): the two trees
    \<open>data_tree\<close> and \<open>meta_tree\<close>, path predicates, leaf expansion, defaults, updates, metadata, \<open>setSignal\<close> and
    \<open>getSignal\<close>. \<open>TypeSanitizer\<close> (\<open>VSSTypeSanitizer.cpp\<close>): conversion and bounds of values. \<open>RecordDatabase\<close>
    (\<open>VssDatabase_Record.cpp\<close>): the database that also records. \<open>DatabaseLaws\<close> and \<open>TreeUpdates\<close>: what these do.

  \<^item> \<open>Channel\<close> (\<open>KuksaChannel.hpp\<close>), \<open>AccessChecker\<close>, \<open>Authenticator\<close>: who may do what. \<open>JsonResponses\<close>: error
    answers and time stamps. \<open>RequestValidator\<close>: the schemas of \<open>VSSRequestJsonSchema.hpp\<close> as JSON values, and
    the six validators. \<open>CommandProcessor\<close> (\<open>VssCommandProcessor.cpp\<close>, \<open>VssCommandGet.cpp\<close>, \<open>VssCommandSet.cpp\<close>,
    \<open>VssCommandSubscribe.cpp\<close>, \<open>VssCommandUnsubscribe.cpp\<close>): every request with its catch clauses, on a \<open>world\<close>
    of database, subscriptions, authenticator and recorder. \<open>CommandLaws\<close>, \<open>SubscribeLaws\<close>: permissions, frames, answers.
    \<open>ConcurrentSets\<close>: \<open>processSet\<close> of several clients as steps (\<open>set_step\<close>) and their interleavings; \<open>LockedSets\<close>: the
    same under the mutex of the database, which the checks do not take.

  \<^item> \<open>SubscriptionHandler\<close>: who is notified, the buffer, one round of the notification thread. \<open>SubscriptionLaws\<close>:
    the abstract view \<open>subscriber\<close>. \<open>SubscriptionThreads\<close>: the same operations as steps between the two mutexes
    and the condition variable, and all their interleavings (\<open>sys_step\<close>, \<open>reachable\<close>). \<open>ThreadLaws\<close>: invariants,
    runs of one thread alone, and the states the threads cannot leave. \<open>DatabaseLock\<close>: the mutex of the database
    around these threads. \<open>MQTTPublisher\<close>: the publisher.

  \<^item> \<open>Sessions\<close>, \<open>HttpSessions\<close>, \<open>WebSockServer\<close> (\<open>WebSockHttpFlexServer.cpp\<close>): the registry of connections, the
    handlers of a session as functions from a completed operation to the operations they start, the server.
    \<open>SessionRequests\<close>: a session whose messages the command processor answers.

  \<^item> \<open>GrpcStream\<close>, \<open>GrpcServer\<close> (\<open>grpcHandler.cpp\<close>): values and streams, and the calls get, set, subscribe and
    authorize with the two session maps. \<open>GrpcLaws\<close>, \<open>GrpcStreams\<close>, \<open>GrpcMessages\<close>: sessions and permissions, the
    invariant of the subscription call, what goes over the streams.

  \<^item> \<open>Logger\<close> (\<open>BasicLogger.cpp\<close>), \<open>ServerMain\<close> (\<open>OverlayLoader.cpp\<close>, \<open>main.cpp\<close>), \<open>ServerOptions\<close> (the options of
    \<open>main.cpp\<close>), \<open>ServerSignals\<close> (its signal handler): how the server is configured, put together and stopped.

  \<^item> \<open>Samples\<close>, \<open>SampleRuns\<close>: a small vehicle, clients and runs for the witnesses.

  \<^bold>\<open>How code becomes definitions.\<close> A class is a record of its members, an operation a function of the same name that
  takes the object and returns it changed, next to its result; a call that may throw has the result type
  \<open>exn + 'a\<close>. What the handlers share (clocks, generated UUIDs) is the record \<open>env\<close>. Behaviour C++ does not
  define is the exception \<open>Undefined\<close>, which nothing catches. Connection ids are 64-bit words, UUIDs 128-bit words.
  Numbers of signals are integers and floats of JSON. \<open>num_doc\<close> says of the conversions of jsoncons that their result
  is of the type asked for, that an integer within the range of that type is kept, and that a decimal text is read
  or, out of range, refused; what becomes of a JSON integer that is out of range it leaves open. The seconds and
  nanoseconds that the gRPC service reads as unsigned numbers are narrowed to the signed fields of a protobuf time
  stamp (\<open>int64_of\<close>, \<open>int32_of\<close>). An asynchronous operation of a session completes with or without an error code;
  both are in the handlers and in the traffic of C23. Calls of \<open>Log\<close> are left out everywhere but
  in \<open>Logger\<close> and \<open>ServerMain\<close>.

  \<^bold>\<open>Bounds.\<close> \<open>leaf_paths\<close> has the size of the tree as fuel: a recursive call goes one branch deeper, so for every
  tree of JSON values that is enough, and C7 shows that a list is returned. Loops over lists and lines are
  recursive functions that end; the retries of the MQTT connection count down. The threads and sessions are step
  relations, without a bound on their runs.

  \<^bold>\<open>What is shown.\<close> C1 to C7: requests end to end: what a set stores and publishes, who can
  change and read what, the decision of the access checker, the database as a refinement of the contract
  \<open>checked_store\<close>, set requests of many clients at once as a sequence of requests, leaf expansion. C8
  to C10: paths, numbers, tokens. C11 to C16: the threads. C17 to C22: subscribing, unsubscribing, invariants of all
  requests, and errors that go wrong. C23 to C32: sessions, the order of the record, validation, time stamps, MQTT,
  options, start-up. C33 to C38: the gRPC service. C39, C40: metadata and defaults. Some of the properties state
  what the code does where that is surely not intended; these are the findings of the manifest.

  \<^bold>\<open>Not modelled.\<close> \<open>include/ssl_stream.hpp\<close> is a copy of a Boost example. The
  interfaces below \<open>include/interface\<close> are abstract classes; their implementations are modelled.
  Generated gRPC classes and the server object of the gRPC library, the inside of Boost.Log,
  \<open>boost::program_options\<close> (a parameter), the text of the usage and of the version banner of
  \<open>main.cpp\<close>, clients, tests and the databroker (another program) are left out. Mutexes are modelled
  where threads meet: in the subscription handler, around the publishing of the database, and between the set
  requests of several clients. Elsewhere an operation is one step: requests of other kinds are not interleaved with
  a change of the tree. The order in which the subscribers of one signal are notified is that of an association
  list.
\<close>

text \<open>
  C1. A set request the schema accepts, from a client with write access, for a sensor or actuator whose type admits the value: the server stores the sanitized value with its two time stamps at the node of the path, answers with the request's id, leaves the channel alone, and appends one notification for every subscriber of the signal and attribute, in order, to the subscription buffer.
\<close>

theorem set_query_stores:
  assumes docs: "jsonpath_doc L" "schema_doc L"
    and msg: "j_parse L text = Inr req" "set_request req rid p attr v"
    and sig: "settable L (w_db w) p attr ss node dt" and acc: "checkWriteAccess L c (fromVSS L p) = Inr True"
    and check: "checkAndSanitizeType L node v = Inr v'" and pubs: "publishers_ok L (publishers (w_sub w))"
  shows "\<exists>w'. processQuery L E text c w =
      (Inr (json_build [(''action'', JStr ''set''), (''requestId'', JStr rid), (''ts'', JStr (stamp E))]), c, w')
    \<and> w_db w' = (w_db w)\<lparr>data_tree := path_replace ss (stored (env_clock E) attr v' node) (data_tree (w_db w))\<rparr>
    \<and> buffer (w_sub w') = buffer (w_sub w) @ map (\<lambda>(sid, c). (sid, c, dt, data_point (fromVSS L p) (env_clock E) attr v'))
        (subs_for (w_sub w) (getVSSPath (fromVSS L p), attr))"
proof -
  have "json_lookup req ''action'' = Some (JStr ''set'')" using msg(2) by (simp add: set_request_def)
  then show ?thesis
    using processSet_success[OF docs msg(2) sig acc check pubs, of E]
    by (auto simp: processQuery_unfold[OF msg(1)] processAction_def)
qed

theorem set_query_stores_witness:
  "\<exists>w'. processQuery ref_lib sample_env (ref_dump (set_speed (JStr ''120''))) sample_channel sample_world =
      (Inr (json_build [(''action'', JStr ''set''), (''requestId'', JStr ''r1''), (''ts'', JStr (stamp sample_env))]), sample_channel, w')
    \<and> w_db w' = sample_db\<lparr>data_tree := path_replace speed_segs (stored (env_clock sample_env) ''value'' (JInt 120) speed_node) sample_tree\<rparr>
    \<and> length (buffer (w_sub w')) = 2"
proof -
  have "length (subs_for sample_handler (getVSSPath (fromVSS ref_lib ''Vehicle.Speed''), ''value'')) = 2" "buffer sample_handler = []"
    "data_tree sample_db = sample_tree" by code_simp+
  then show ?thesis
    using set_query_stores[OF jsonpath_ref schema_ref sample_parse sample_request, where w = sample_world,
        OF _ _ sample_check_text, unfolded sample_world_parts, OF sample_settable sample_access(1) sample_publishers, of sample_env]
    by auto
qed

text \<open>
  C2. Whatever text a client sends, the database after the query differs from the database before only if the channel is authorised to modify the tree, or the query was a valid set by a client with write access to the path, at a single sensor or actuator node; in the second case the metadata tree stays as it was.
\<close>

theorem database_changes_authorised:
  assumes query: "processQuery L E text c w = (r, c', w')" and changed: "w_db w' \<noteq> w_db w"
  shows "authorizedToModifyTree c
    \<or> (\<exists>req p. j_parse L text = Inr req \<and> req_string L req ''path'' = Inr p \<and> validateSet L req = Inr ()
        \<and> checkWriteAccess L c (fromVSS L p) = Inr True \<and> pathIsWritable L (w_db w) (fromVSS L p) = Inr True
        \<and> pathIsAttributable L (w_db w) (fromVSS L p) (req_attribute L req) = Inr True
        \<and> meta_tree (w_db w') = meta_tree (w_db w))"
proof (cases "authorizedToModifyTree c")
  case False
  from processQuery_cases[OF query] changed obtain req act r'
    where req: "j_parse L text = Inr req" and act: "processAction L E act req c w = (r', c', w')" by auto
  have "\<exists>r. processSet L E c req w = (r, w')"
    using act changed processUpdate_guard[OF False, of L E req w r' w']
    by (auto simp: processAction_def split: if_splits prod.splits sum.splits
        dest: processGet_frame processSubscribe_effect(1) processUnsubscribe_effect(1))
  then obtain r'' where set: "processSet L E c req w = (r'', w')" ..
  from changed have "w' \<noteq> w" by auto
  from processSet_guard[OF set this] processSet_frame[OF set] req show ?thesis by auto
qed simp

theorem database_changes_authorised_witness:
  "\<exists>r w'. processQuery ref_lib sample_env (ref_dump (set_speed (JStr ''120''))) sample_channel sample_world = (r, sample_channel, w')
    \<and> w_db w' \<noteq> w_db sample_world \<and> meta_tree (w_db w') = meta_tree (w_db sample_world)"
proof -
  obtain ans w' where q: "processQuery ref_lib sample_env (ref_dump (set_speed (JStr ''120''))) sample_channel sample_world = (Inr ans, sample_channel, w')"
      and db: "w_db w' = sample_db\<lparr>data_tree := path_replace speed_segs (stored (env_clock sample_env) ''value'' (JInt 120) speed_node) sample_tree\<rparr>"
    by (rule sample_query)
  have "path_replace speed_segs (stored (env_clock sample_env) ''value'' (JInt 120) speed_node) sample_tree \<noteq> data_tree sample_db"
    "\<not> authorizedToModifyTree sample_channel" by code_simp+
  then have "data_tree (w_db w') \<noteq> data_tree (w_db sample_world)" "\<not> authorizedToModifyTree sample_channel" by (simp_all add: db)
  then have "w_db w' \<noteq> w_db sample_world" "\<not> authorizedToModifyTree sample_channel" by auto
  with database_changes_authorised[OF q] q show ?thesis by auto
qed

text \<open>
  C3. An answer to get that carries data exists only if the path has at least one leaf and the client has read access to every one of the leaves below it; get never changes the database or the subscriptions.
\<close>

theorem get_answers_readable:
  assumes get: "processGet L E c req w = (r, w')"
  shows "w_db w' = w_db w \<and> w_sub w' = w_sub w
    \<and> (\<forall>j d. r = Inr j \<longrightarrow> json_lookup j ''data'' = Some d \<longrightarrow>
         (\<exists>p vs. req_string L req ''path'' = Inr p \<and> getLeafPaths L (w_db w) (fromVSS L p) = Inr vs \<and> vs \<noteq> []
            \<and> (\<forall>v \<in> set vs. checkReadAccess L c v = Inr True)))"
  using processGet_frame[OF get] processGet_data[of L E c req w _ w'] get by blast

theorem get_answers_readable_witness:
  "\<exists>p vs. req_string ref_lib get_vin ''path'' = Inr p \<and> getLeafPaths ref_lib (w_db vin_world) (fromVSS ref_lib p) = Inr vs \<and> vs \<noteq> []
    \<and> (\<forall>v \<in> set vs. checkReadAccess ref_lib sample_channel v = Inr True)"
  using get_answers_readable[OF sample_get] by (simp add: json_build_lookup)

text \<open>
  C4. With a permission table in the channel's token (an object, so in key order, whose patterns are literal characters, dots and stars), a signal may be read or written exactly if the permission text that counts for its dotted path contains r or w: the entry of the path itself when it is there, otherwise the last entry in key order whose pattern, with every star widened, matches the whole path; no entry, no access. In particular, entries without a star that name branches above the signal give no access to it, though the documentation of the tokens (rule 4 of jwt.md) says they do.
\<close>

theorem access_decision:
  assumes "regex_doc L" "json_doc L" "good_policy ps" "holds_policy L c ps"
  shows "checkReadAccess L c path = Inr (contains_sub (effective_permission ps (getVSSGen1Path path)) ''r'')
    \<and> checkWriteAccess L c path = Inr (contains_sub (effective_permission ps (getVSSGen1Path path)) ''w'')
    \<and> ((\<forall>(k, v) \<in> set ps. CHR ''*'' \<notin> set k \<and> strict_prefix k (getVSSGen1Path path)) \<longrightarrow>
         checkReadAccess L c path = Inr False \<and> checkWriteAccess L c path = Inr False)"
proof (intro conjI impI)
  show reads: "checkReadAccess L c path = Inr (contains_sub (effective_permission ps (getVSSGen1Path path)) ''r'')"
    and writes: "checkWriteAccess L c path = Inr (contains_sub (effective_permission ps (getVSSGen1Path path)) ''w'')"
    by (simp_all add: checkReadAccess_def checkWriteAccess_def checkSignalAccess_policy[OF assms])
  assume "\<forall>(k, v) \<in> set ps. CHR ''*'' \<notin> set k \<and> strict_prefix k (getVSSGen1Path path)"
  then have "effective_permission ps (getVSSGen1Path path) = []" by (auto intro: branch_entries)
  with reads writes show "checkReadAccess L c path = Inr False" "checkWriteAccess L c path = Inr False"
    by (simp_all add: contains_sub_char)
qed

theorem access_decision_witness:
  "checkReadAccess ref_lib sample_channel (fromVSS ref_lib ''Vehicle.Cabin.Door'') = Inr True
    \<and> checkWriteAccess ref_lib sample_channel (fromVSS ref_lib ''Vehicle.Cabin.Door'') = Inr False
    \<and> checkWriteAccess ref_lib sample_channel (fromVSS ref_lib ''Vehicle.Speed'') = Inr True
    \<and> checkReadAccess ref_lib branch_channel (fromVSS ref_lib ''Vehicle.Speed'') = Inr False"
proof -
  have "good_policy [(''Vehicle'', ''rw'')]" "holds_policy ref_lib branch_channel [(''Vehicle'', ''rw'')]"
    "strict_prefix ''Vehicle'' (getVSSGen1Path (fromVSS ref_lib ''Vehicle.Speed''))"
    by code_simp+
  with access_decision[OF regex_ref json_ref, of "[(''Vehicle'', ''rw'')]" branch_channel "fromVSS ref_lib ''Vehicle.Speed''"]
  have branch: "checkReadAccess ref_lib branch_channel (fromVSS ref_lib ''Vehicle.Speed'') = Inr False" by auto
  have "good_policy sample_policy" "holds_policy ref_lib sample_channel sample_policy"
    "contains_sub (effective_permission sample_policy (getVSSGen1Path (fromVSS ref_lib ''Vehicle.Cabin.Door''))) ''r''"
    "\<not> contains_sub (effective_permission sample_policy (getVSSGen1Path (fromVSS ref_lib ''Vehicle.Cabin.Door''))) ''w''"
    "contains_sub (effective_permission sample_policy (getVSSGen1Path (fromVSS ref_lib ''Vehicle.Speed''))) ''w''"
    by code_simp+
  with branch show ?thesis using access_decision[OF regex_ref json_ref, of sample_policy sample_channel] by auto
qed

text \<open>
  C5. The database as a store: whatever sequence of setSignal calls runs on a set of signals whose paths do not overlap, getSignal of a signal and attribute afterwards returns the value of the last call on exactly that signal and attribute which the type check admitted (as the type check normalised it), and the old value when there is none; refused calls and calls on other signals leave no trace. The calls are given one reading of the clock, on which no value depends.
\<close>

theorem last_write_read:
  assumes "db_ok L clock Q s" "db_known Q k" "\<forall>kv \<in> set ws. db_known Q (fst kv)"
  shows "db_get L (fold (\<lambda>(k, v). db_put L clock k v) ws s) k =
    (case filter (\<lambda>(k', v). k' = k \<and> db_admit L s k v \<noteq> None) ws of
       [] \<Rightarrow> db_get L s k | hs \<Rightarrow> db_admit L s k (snd (last hs)))"
  using vss_store.last_write[OF assms] by (simp add: vss_store.puts_def)

theorem last_write_read_witness:
  "db_get ref_lib (fold (\<lambda>(k, v). db_put ref_lib (7, 8) k v)
      [((speed_segs, ''value''), JInt 80), ((door_segs, ''value''), JBool True), ((speed_segs, ''value''), JInt 120),
       ((speed_segs, ''value''), JInt 999)] (sample_db, sample_handler)) (speed_segs, ''value'') = Some (JInt 120)"
proof -
  note sample_db_ok
  moreover have "db_admit ref_lib (sample_db, sample_handler) (speed_segs, ''value'') (JInt 80) = Some (JInt 80)"
    "db_admit ref_lib (sample_db, sample_handler) (speed_segs, ''value'') (JInt 120) = Some (JInt 120)"
    "db_admit ref_lib (sample_db, sample_handler) (speed_segs, ''value'') (JInt 999) = None"
    "speed_segs \<noteq> door_segs"
    by code_simp+
  ultimately show ?thesis
    using last_write_read[of ref_lib "(7, 8)" "{speed_segs, door_segs}" "(sample_db, sample_handler)" "(speed_segs, ''value'')"
        "[((speed_segs, ''value''), JInt 80), ((door_segs, ''value''), JBool True), ((speed_segs, ''value''), JInt 120),
          ((speed_segs, ''value''), JInt 999)]"]
    by (auto simp: db_known_def signal_attr_def)
qed

text \<open>
  C6. Set requests of any number of clients, each accepted by the schema and for a signal of a fixed set none of whose paths continues another, run at the same time, interleaved in any way, each store under the mutex of the database. In every run in which no check reads the tree while another request stores (the checks take no mutex, and such a run is undefined), the signals and the notifications are those of the same requests handled one after the other, in the order of their stores; every client that is done has the answer it gets there, or, when it was refused before its store, the answer it gets alone; and from wherever the run has come to, each client can still come to its answer.
\<close>

theorem concurrent_sets_serialise:
  assumes "\<And>i. job_ok L Q (jobs i)" "sets_ok L Q w" and run: "run_locked L jobs sched (start_locked w) = Some s"
  shows "distinct (st_order (l_sets s)) \<and> w_db (st_world (l_sets s)) = w_db (seq_sets L jobs (st_order (l_sets s)) w)
    \<and> w_sub (st_world (l_sets s)) = w_sub (seq_sets L jobs (st_order (l_sets s)) w)
    \<and> (\<forall>i answer. st_pcs (l_sets s) i = SetDone answer \<longrightarrow>
         (if i \<in> set (st_order (l_sets s))
          then \<exists>before after. st_order (l_sets s) = before @ i # after \<and> answer = fst (process_job L (jobs i) (seq_sets L jobs before w))
          else process_job L (jobs i) w = (answer, w)))
    \<and> (\<forall>i. \<exists>more s'. run_locked L jobs more s = Some s' \<and> is_set_done (st_pcs (l_sets s') i))"
proof -
  from run_locked_sets[OF run] obtain js where js: "l_sets s = run_schedule L jobs js (start_sets w)" by auto
  have inv: "sets_inv L Q jobs w (l_sets s)" unfolding js by (rule sets_inv_run[OF assms(1,2)])
  have client: "if i \<in> set (st_order (l_sets s)) then answered L jobs w (st_order (l_sets s)) i (st_pcs (l_sets s) i)
      else set_passed L (jobs i) w (st_pcs (l_sets s) i)" for i
    using inv unfolding sets_inv_def by blast
  have "process_job L (jobs i) w = (answer, w)" if "st_pcs (l_sets s) i = SetDone answer" "i \<notin> set (st_order (l_sets s))" for i answer
    using client[of i] that by (simp add: process_job_cases)
  moreover have "\<exists>before after. st_order (l_sets s) = before @ i # after \<and> answer = fst (process_job L (jobs i) (seq_sets L jobs before w))"
    if "st_pcs (l_sets s) i = SetDone answer" "i \<in> set (st_order (l_sets s))" for i answer
    using client[of i] that by (auto simp: answered_def)
  moreover have "owner_stores s" using run_locked_owner[OF run] by simp
  ultimately show ?thesis
    using inv locked_finish[of s L jobs] by (auto simp: sets_inv_def)
qed

theorem concurrent_sets_serialise_witness:
  "\<exists>s. run_locked ref_lib sample_jobs (replicate 6 0 @ replicate 6 1 @ [0, 1, 0, 1, 1]) (start_locked sample_world) = Some s
    \<and> st_order (l_sets s) = [0, 1] \<and> w_db (st_world (l_sets s)) = w_db (seq_sets ref_lib sample_jobs [0, 1] sample_world)"
proof -
  obtain s where s: "run_locked ref_lib sample_jobs (replicate 6 0 @ replicate 6 1 @ [0, 1, 0, 1, 1]) (start_locked sample_world) = Some s"
    "st_order (l_sets s) = [0, 1]" using sample_locked_run by blast
  with concurrent_sets_serialise[OF sample_jobs_ok sample_sets_ok s(1)] show ?thesis by auto
qed

text \<open>
  C7. getLeafPaths of a path, with or without wildcards, returns exactly the leaves of the tree below the nodes the path selects, each once and with the notation (dots or slashes) of the request; the recursion of the code reaches every leaf, at any depth.
\<close>

theorem leaf_expansion:
  assumes "jsonpath_doc L" "wf_tree (data_tree db)" "denotes path (s # ss)"
  shows "\<exists>ps. getLeafPaths L db path = Inr ps
    \<and> mset ps = image_mset (\<lambda>q. fromJSON L (render_path q) (isGen1Origin path))
        (mset (concat (map (\<lambda>(q, v). leaf_nodes L q v) (path_nodes (s # ss) (data_tree db)))))
    \<and> (\<forall>(q, v) \<in> set (path_nodes (s # ss) (data_tree db)). \<forall>r \<in> set (leaf_nodes L q v).
         prefix q r \<and> (\<exists>w. path_nodes r (data_tree db) = [(r, w)] \<and> \<not> is_branch L w))"
proof -
  have "prefix q r \<and> (\<exists>w. path_nodes r (data_tree db) = [(r, w)] \<and> \<not> is_branch L w)"
    if "(q, v) \<in> set (path_nodes (s # ss) (data_tree db))" "r \<in> set (leaf_nodes L q v)" for q v r
    using leaf_nodes_sound[OF _ assms(2) that(2)] path_nodes_own[OF assms(2) that(1)] by blast
  moreover from getLeafPaths_leaves[OF assms] obtain ps where "getLeafPaths L db path = Inr ps"
    "mset ps = image_mset (\<lambda>q. fromJSON L (render_path q) (isGen1Origin path))
        (mset (concat (map (\<lambda>(q, v). leaf_nodes L q v) (path_nodes (s # ss) (data_tree db)))))"
    by (auto simp: leaf_result_def)
  ultimately show ?thesis by blast
qed

theorem leaf_expansion_witness:
  "\<exists>ps. getLeafPaths ref_lib sample_db (fromVSS ref_lib ''Vehicle.*'') = Inr ps \<and> size (mset ps) = 3"
proof -
  let ?leaves = "concat (map (\<lambda>(q, v). leaf_nodes ref_lib q v) (path_nodes (Name ''Vehicle'' # [Name ''children'', Wild]) (data_tree sample_db)))"
  have parts: "wf_tree (data_tree sample_db)" "denotes (fromVSS ref_lib ''Vehicle.*'') (Name ''Vehicle'' # [Name ''children'', Wild])"
    and three: "length ?leaves = 3"
    by code_simp+
  from leaf_expansion[OF jsonpath_ref parts] obtain ps where "getLeafPaths ref_lib sample_db (fromVSS ref_lib ''Vehicle.*'') = Inr ps"
    and eq: "mset ps = image_mset (\<lambda>q. fromJSON ref_lib (render_path q) (isGen1Origin (fromVSS ref_lib ''Vehicle.*''))) (mset ?leaves)"
    by blast
  moreover have "size (mset ps) = 3" by (simp only: eq size_image_mset size_mset three)
  ultimately show ?thesis by blast
qed

text \<open>
  C8. A path of components without brackets, quotes or the reserved name children survives the translation to a JSONPath and back; a dotted and a slashed spelling of the same path give the same VSS path and JSONPath, and printing the path gives back the client's spelling.
\<close>

theorem path_round_trip:
  assumes "boost_doc L" "good_path s" "CHR ''.'' \<notin> set s"
  shows "getVSSPath (fromJSON L (getJSONPath (fromVSS L s)) g) = s
    \<and> getVSSPath (fromVSS L (gen2togen1 s)) = s \<and> getJSONPath (fromVSS L (gen2togen1 s)) = getJSONPath (fromVSS L s)
    \<and> to_string (fromVSS L s) = s \<and> to_string (fromVSS L (gen2togen1 s)) = gen2togen1 s"
proof -
  have vss: "getVSSPath (fromVSS L s) = s" "getVSSPath (fromVSS L (gen2togen1 s)) = s"
    by (simp add: fromVSS_cases fromVSSGen2_def getVSSPath_def assms(3)) (simp add: vsspath_fromVSS gen2_roundtrip assms(3))
  then have json: "getJSONPath (fromVSS L s) = gen2tojson L s" "getJSONPath (fromVSS L (gen2togen1 s)) = gen2tojson L s"
    by (simp_all add: jsonpath_fromVSS)
  have "getVSSPath (fromJSON L (gen2tojson L s) g) = s"
    using jsontogen2_gen2tojson[OF assms(1,2)] by (simp add: fromJSON_def getVSSPath_def Let_def)
  moreover have "to_string (fromVSS L s) = s"
    using assms(3) by (simp add: fromVSS_cases fromVSSGen2_def to_string_def isGen1Origin_def getVSSPath_def)
  moreover have "to_string (fromVSS L (gen2togen1 s)) = gen2togen1 s"
    using vss(2) by (auto simp: fromVSS_cases fromVSSGen1_def fromVSSGen2_def Let_def to_string_def isGen1Origin_def getVSSGen1Path_def getVSSPath_def)
  ultimately show ?thesis using vss json by simp
qed

theorem path_round_trip_witness:
  "getVSSPath (fromJSON ref_lib (getJSONPath (fromVSS ref_lib ''Vehicle/Cabin/*'')) True) = ''Vehicle/Cabin/*''
    \<and> to_string (fromVSS ref_lib (gen2togen1 ''Vehicle/Cabin/*'')) = gen2togen1 ''Vehicle/Cabin/*''"
proof -
  have "good_path ''Vehicle/Cabin/*''" by code_simp
  then show ?thesis using path_round_trip[OF boost_ref, of "''Vehicle/Cabin/*''" True] by simp
qed

text \<open>
  C9. The sanitizer on a numeric datatype. Whatever it accepts is stored as a number of the declared type, an integer inside the range of its type or a float that is not infinite, and not below min or above max. With limits that convert to the type, it accepts exactly the values that convert, are not infinite and respect the limits, as converted, and refuses all others with outOfBoundException; a value that is not a number (NaN) is accepted, whatever the limits. Without limits an integer of the type is accepted unchanged, as a number and as decimal text, and decimal text of an integer outside the type is refused.
\<close>

theorem numbers_in_range:
  assumes L: "num_doc L" and dt: "json_lookup meta ''datatype'' = Some (JStr dt)" "num_of_datatype dt = Some t"
  shows "(\<forall>v v'. checkAndSanitizeType L meta v = Inr v' \<longrightarrow>
        (\<exists>n. v' = json_of_num n \<and> num_typed t n \<and> \<not> infinite_num n \<and> within_limits L t meta n))
    \<and> (limits_convert L t meta \<longrightarrow>
        (\<forall>v v'. checkAndSanitizeType L meta v = Inr v' \<longleftrightarrow>
           (\<exists>n. j_num L t v = Inr n \<and> \<not> infinite_num n \<and> within_limits L t meta n \<and> v' = json_of_num n))
      \<and> (\<forall>v. (\<exists>v'. checkAndSanitizeType L meta v = Inr v') \<or> (\<exists>m. checkAndSanitizeType L meta v = Inl (OutOfBound m)))
      \<and> (\<forall>v. j_num L t v = Inr (FVal NaN) \<longrightarrow> checkAndSanitizeType L meta v = Inr (JReal NaN)))
    \<and> (json_lookup meta ''min'' = None \<longrightarrow> json_lookup meta ''max'' = None \<longrightarrow> is_int_type t \<longrightarrow>
        (if num_min t \<le> i \<and> i \<le> num_max t
         then checkAndSanitizeType L meta (JInt i) = Inr (JInt i) \<and> checkAndSanitizeType L meta (JStr (show_int i)) = Inr (JInt i)
         else \<exists>m. checkAndSanitizeType L meta (JStr (show_int i)) = Inl (OutOfBound m)))"
proof (intro conjI impI allI)
  fix v v' assume "checkAndSanitizeType L meta v = Inr v'"
  from sanitize_num_sound[OF L dt this]
  show "\<exists>n. v' = json_of_num n \<and> num_typed t n \<and> \<not> infinite_num n \<and> within_limits L t meta n"
    unfolding infinite_num_def within_limits_def by blast
next
  fix v assume lim: "limits_convert L t meta" and nan: "j_num L t v = Inr (FVal NaN)"
  have "within_limits L t meta (FVal NaN)" "\<not> infinite_num (FVal NaN)"
    by (simp_all add: within_limits_def infinite_num_def num_less_NaN)
  with nan show "checkAndSanitizeType L meta v = Inr (JReal NaN)" by (simp add: sanitize_num_iff(1)[OF L dt lim])
next
  assume "json_lookup meta ''min'' = None" "json_lookup meta ''max'' = None" "is_int_type t"
  then show "if num_min t \<le> i \<and> i \<le> num_max t
      then checkAndSanitizeType L meta (JInt i) = Inr (JInt i) \<and> checkAndSanitizeType L meta (JStr (show_int i)) = Inr (JInt i)
      else \<exists>m. checkAndSanitizeType L meta (JStr (show_int i)) = Inl (OutOfBound m)"
    using sanitize_num_int[OF L dt] sanitize_num_text[OF L dt, of i] by auto
qed (rule sanitize_num_iff[OF L dt], assumption)+

theorem numbers_in_range_witness:
  "checkAndSanitizeType ref_lib (JObj [(''datatype'', JStr ''int8'')]) (JInt (-128)) = Inr (JInt (-128))
    \<and> (\<exists>m. checkAndSanitizeType ref_lib (JObj [(''datatype'', JStr ''int8'')]) (JStr (show_int 128)) = Inl (OutOfBound m))
    \<and> checkAndSanitizeType ref_lib (JObj [(''datatype'', JStr ''float''), (''max'', JInt 5)]) (JReal NaN) = Inr (JReal NaN)"
proof -
  have int: "num_of_datatype ''int8'' = Some I8" "json_lookup (JObj [(''datatype'', JStr ''int8'')]) ''datatype'' = Some (JStr ''int8'')"
    "is_int_type I8" "num_min I8 \<le> -128" "-128 \<le> num_max I8" "\<not> 128 \<le> num_max I8" by code_simp+
  let ?m = "JObj [(''datatype'', JStr ''float''), (''max'', JInt 5)]"
  have float: "num_of_datatype ''float'' = Some F32" "json_lookup ?m ''datatype'' = Some (JStr ''float'')" "limits_convert ref_lib F32 ?m"
    "j_num ref_lib F32 (JReal NaN) = Inr (FVal NaN)"
    by (code_simp, code_simp, simp add: limits_convert_def ref_lib_def, code_simp)
  from int float show ?thesis
    using numbers_in_range[OF num_ref int(2,1), of "-128"] numbers_in_range[OF num_ref int(2,1), of 128]
      numbers_in_range[OF num_ref float(2,1)] by simp
qed

text \<open>
  C10. A channel that gets a positive time to live from a token carries a token whose signature was verified with the server's key, is authorised, keeps its connection, and from then on each of its reads and writes is decided by the permissions of the token's kuksa-vss claim alone (entries other than r, w, rw, wr dropped), as long as the patterns of the claim are literal characters, dots and stars. Entries without a star that name only branches above a path give no access to it, though rule 4 of jwt.md grants all signals of the branch. A token that does not verify leaves the channel as it was.
\<close>

theorem token_permissions:
  assumes docs: "json_doc L" "regex_doc L" and val: "validate L a c tok = (r, c')"
  shows "((\<forall>u. jwt_verify L (pubkey a) tok \<noteq> Inr u) \<longrightarrow> (\<forall>n. r = Inr n \<longrightarrow> n \<le> 0) \<and> c' = c)
    \<and> (\<forall>n. r = Inr n \<longrightarrow> 0 < n \<longrightarrow>
        jwt_verify L (pubkey a) tok = Inr () \<and> authorized c' \<and> authToken c' = tok
      \<and> connectionID c' = connectionID c \<and> typeOfConnection c' = typeOfConnection c
      \<and> (\<exists>payload claims members. jwt_decode L tok = Inr payload \<and> parse_claims L payload json_new = Inr claims
          \<and> permission_members L claims = Inr members
          \<and> (list_all (\<lambda>(k, v). pattern_items k \<noteq> None) (granted_policy members) \<longrightarrow>
              (\<forall>path req. checkSignalAccess L c' path req = Inr (contains_sub (effective_permission (granted_policy members) path) req))
            \<and> (\<forall>path req. req \<noteq> [] \<longrightarrow>
                 (\<forall>(k, v) \<in> set (granted_policy members). CHR ''*'' \<notin> set k \<and> strict_prefix k path) \<longrightarrow>
                 checkSignalAccess L c' path req = Inr False))))"
proof -
  have branch: "\<not> contains_sub (effective_permission ps path) req"
    if "req \<noteq> []" "\<forall>(k, v) \<in> set ps. CHR ''*'' \<notin> set k \<and> strict_prefix k path" for ps path req
  proof -
    from that(2) have "effective_permission ps path = []" by (auto intro: branch_entries)
    with that(1) show ?thesis by (simp add: contains_sub_iff)
  qed
  note grant = validate_granted[OF docs, of a c tok _ c']
  show ?thesis
    using validate_unverified[of L a tok c] grant val by (fastforce simp: branch)
qed

theorem token_permissions_witness:
  "\<exists>c'. validate ref_lib (new_Authenticator ''key'' ''RS256'') (new_channel 7 WEBSOCKET_PLAIN) sample_token = (Inr 99, c')
    \<and> authorized c' \<and> checkSignalAccess ref_lib c' ''Vehicle.Speed'' ''w'' = Inr True
    \<and> checkSignalAccess ref_lib c' ''Vehicle.Cabin.Door'' ''w'' = Inr False"
proof -
  obtain r c' where val: "validate ref_lib (new_Authenticator ''key'' ''RS256'') (new_channel 7 WEBSOCKET_PLAIN) sample_token = (r, c')"
    by (cases "validate ref_lib (new_Authenticator ''key'' ''RS256'') (new_channel 7 WEBSOCKET_PLAIN) sample_token")
  have r: "r = Inr 99" using sample_token_ttl val by simp
  have "list_all (\<lambda>(k, v). pattern_items k \<noteq> None) (granted_policy sample_members)"
    "contains_sub (effective_permission (granted_policy sample_members) ''Vehicle.Speed'') ''w''"
    "\<not> contains_sub (effective_permission (granted_policy sample_members) ''Vehicle.Cabin.Door'') ''w''"
    by code_simp+
  with token_permissions[OF json_ref regex_ref val] r val sample_token_claims show ?thesis by auto
qed

text \<open>
  C11. In every state the server's threads and the notification thread can reach, at most one thread is inside each of the two critical sections, the notifications taken from the buffer followed by those still in it are exactly the ones put in, in that order, and the thread takes from the buffer only when there is something in it.
\<close>

theorem threads_exclude:
  assumes "reachable L s"
  shows "(\<forall>i j. publishing (clients s i) \<longrightarrow> publishing (clients s j) \<longrightarrow> i = j)
    \<and> (\<forall>i j. pushing (clients s i) \<longrightarrow> pushing (clients s j) \<longrightarrow> i = j)
    \<and> (\<forall>i. \<not> (pushing (clients s i) \<and> sending (notifier s)))
    \<and> taken_notes s @ buffer (handler s) = pushed s
    \<and> (notifier s = NTake \<longrightarrow> buffer (handler s) \<noteq> [])"
proof -
  from reachable_inv[OF assms] have inv: "locks_inv s" "queue_inv s" by auto
  then have own: "publishing (clients s i) \<longleftrightarrow> access_owner s = Some (Client i)" "pushing (clients s i) \<longleftrightarrow> sub_owner s = Some (Client i)"
      "sending (notifier s) \<longleftrightarrow> sub_owner s = Some Notifier" for i
    by (auto simp: locks_inv_def)
  show ?thesis using inv(2) by (auto simp: own queue_inv_def)
qed

theorem threads_exclude_witness:
  "taken_notes crossing_state @ buffer (handler crossing_state) = pushed crossing_state \<and> length (pushed crossing_state) = 1
    \<and> publishing (clients crossing_state 1) \<and> sending (notifier crossing_state)"
  using threads_exclude[OF crossing_reachable] crossing_facts(1,2,4) by simp

text \<open>
  C12. A server thread that is not interrupted, with both mutexes free, gets through publishForVSSPath in finitely many of its steps, frees both mutexes, and leaves the subscription handler as the sequential definition says: the step-by-step model and the one used for requests agree.
\<close>

theorem publisher_alone:
  assumes "clients s i = PubStart path dt attr d" "access_owner s = None" "sub_owner s = None" "notifier s \<noteq> NAborted"
  shows "\<exists>n s'. run_events L (replicate n (Run (Client i))) s = s' \<and> clients s' i = Idle \<and> access_owner s' = None \<and> sub_owner s' = None
     \<and> handler s' = snd (publishForVSSPath L path dt attr d (handler s)) \<and> taken_notes s' = taken_notes s"
  using publish_runs[OF assms, of L] by blast

theorem publisher_alone_witness:
  "\<exists>n. length (buffer (handler (run_events ref_lib (replicate n (Run (Client 1))) (set_pc 1 sample_pub started)))) = 1"
proof -
  have one: "length (buffer (snd (publishForVSSPath ref_lib sample_path ''uint16'' ''value'' sample_point (handler started)))) = 1" by code_simp
  have "access_owner started = None" "sub_owner started = None" "notifier started \<noteq> NAborted" by code_simp+
  moreover have "clients (set_pc 1 sample_pub started) 1 = PubStart sample_path ''uint16'' ''value'' sample_point" by (simp add: sample_pub_def)
  ultimately obtain n where "handler (run_events ref_lib (replicate n (Run (Client 1))) (set_pc 1 sample_pub started))
      = snd (publishForVSSPath ref_lib sample_path ''uint16'' ''value'' sample_point (handler started))"
    using publisher_alone[of "set_pc 1 sample_pub started" 1 sample_path "''uint16''" "''value''" sample_point ref_lib] by auto
  with one show ?thesis by (intro exI[of _ n]) simp
qed

text \<open>
  C13. Where the notification thread is running and at the head of its loop (not asleep: a sleeping thread drains nothing, see lost_wakeup), both mutexes are free, the server is initialised with the sessions of its web-socket connections alive, and every notification in the buffer is for a connection other than gRPC with a data point whose time stamp converts (gRPC notifications may stop the thread, see target_notification_fails), the thread left to run empties the buffer in finitely many steps, and the write queue of every web-socket session has gained exactly the messages of its notifications, in the order they were pushed; connections that are gone do not stop it.
\<close>

theorem notifier_drains_buffer:
  assumes "notifier s \<in> {NLoop, NCheck}" "threadRun (handler s)" "access_owner s = None" "sub_owner s = None"
    "isInitialized (ws_server s)" "sessions_alive (ws_server s)" "websocket_notes L (buffer (handler s))"
  shows "\<exists>n s'. run_events L (replicate n (Run Notifier)) s = s' \<and> buffer (handler s') = [] \<and> taken_notes s' = taken_notes s @ buffer (handler s)
     \<and> (ws_registered (ws_server s) k \<longrightarrow>
          map_option writeQueue (sessions (ws_server s') k)
          = map_option (\<lambda>c. writeQueue c @ messages_for L k (buffer (handler s))) (sessions (ws_server s) k))"
  using notifier_drains[OF assms, of k] by blast

theorem notifier_drains_buffer_witness:
  "\<exists>n. map_option (\<lambda>s. length (writeQueue s)) (sessions (ws_server (run_events ref_lib (replicate n (Run Notifier)) connected_state)) 7) = Some 2"
proof -
  from notifier_drains_buffer[OF connected_facts(1-7), of 7] connected_facts(8-10) obtain n
    where "map_option writeQueue (sessions (ws_server (run_events ref_lib (replicate n (Run Notifier)) connected_state)) 7)
      = map_option (\<lambda>c. writeQueue c @ messages_for ref_lib 7 (buffer (handler connected_state))) (sessions (ws_server connected_state) 7)" by auto
  then have "map_option (\<lambda>s. length (writeQueue s)) (sessions (ws_server (run_events ref_lib (replicate n (Run Notifier)) connected_state)) 7) = Some 2"
    using connected_facts(9,10) by (cases "sessions (ws_server (run_events ref_lib (replicate n (Run Notifier)) connected_state)) 7") auto
  then show ?thesis by blast
qed

text \<open>
  C14. When the connection a notification is for has gone, and a server thread is at that moment inside publishForVSSPath with a subscriber still to notify, the two threads block each other for good, and with them the database, whose mutex the publishing thread holds: whatever happens afterwards, no thread takes that mutex (for a get or a set of a signal, an expansion of a path or an update of the tree) or gives it back, no notification is taken from the buffer, and no subscription is added or removed.
\<close>

theorem database_frozen:
  assumes "db_reachable L s" "clients (subs s) i = PubNext (x # r) dt d" "notifier (subs s) = NSend n"
    and "send_note L n (ws_server (subs s)) (grpc_side (subs s)) = (Inr False, srv, gw)"
    and "db_run L Notifier s = Some s1" "(db_step L)\<^sup>*\<^sup>* s1 s2"
  shows "rw_owner s2 = Some i \<and> (\<forall>j. db_enter j s2 = None \<and> db_leave j s2 = None)
    \<and> clients (subs s2) i = PubNext (x # r) dt d \<and> db_run L (Client i) s2 = None \<and> db_run L Notifier s2 = None
    \<and> taken_notes (subs s2) = taken_notes (subs s) \<and> subscriptions (handler (subs s2)) = subscriptions (handler (subs s))"
proof -
  from crossed_database[OF assms] have s2: "crossed i (subs s2)" "clients (subs s2) i = PubNext (x # r) dt d" "rw_inv s2"
    "taken_notes (subs s2) = taken_notes (subs s)" "subscriptions (handler (subs s2)) = subscriptions (handler (subs s))" by auto
  then have "in_publish (clients (subs s2) i)" by (simp add: in_publish_def)
  from db_stuck[OF s2(3) this] crossed_stuck[OF s2(1), of L] s2 show ?thesis by (simp add: db_run_def)
qed

theorem database_frozen_witness:
  "\<exists>s1. db_run ref_lib Notifier db_crossing = Some s1 \<and> rw_owner s1 = Some 1 \<and> db_enter 2 s1 = None
    \<and> db_run ref_lib (Client 1) s1 = None \<and> db_run ref_lib Notifier s1 = None"
proof -
  let ?n = "(5, sample_client, ''uint16'', sample_point)"
  obtain srv gw where send: "send_note ref_lib ?n (ws_server (subs db_crossing)) (grpc_side (subs db_crossing)) = (Inr False, srv, gw)"
    using db_crossing_facts(3) by (cases "send_note ref_lib ?n (ws_server (subs db_crossing)) (grpc_side (subs db_crossing))") auto
  obtain s1 where s1: "db_run ref_lib Notifier db_crossing = Some s1"
    using db_crossing_facts(2) by (simp add: db_run_def thread_step_def)
  from database_frozen[OF db_crossing_reachable db_crossing_facts(1,2) send s1 rtranclp.rtrancl_refl] s1 show ?thesis by blast
qed

text \<open>
  C15. A notification pushed after the thread has found the buffer empty and before it waits on the condition variable wakes nobody: the thread goes to sleep with the notification in the buffer, and stays asleep through every further step of the program until another value is published or the handler is stopped.
\<close>

theorem lost_wakeup:
  assumes "reachable L s" "notifier s = NWait" "clients s i = PubPush subId c rest dt d"
    and "thread_step L (Client i) s = Some s1" "thread_step L Notifier s1 = Some s2" "(quiet_step L)\<^sup>*\<^sup>* s2 s3"
  shows "notifier s3 = NWaiting \<and> (subId, c, dt, d) \<in> set (buffer (handler s3)) \<and> taken_notes s3 = taken_notes s2
    \<and> thread_step L Notifier s3 = None"
proof -
  have "reachable L s2" using assms(1,4,5) by (blast intro: reachable.next_state sys_step.step)
  then have inv: "start_inv s2" using reachable_inv by blast
  from push_before_wait[OF assms(2-5)] have s2: "notifier s2 = NWaiting" "(subId, c, dt, d) \<in> set (buffer (handler s2))" by auto
  from quiet_waits[OF assms(6) s2(1) inv] s2 show ?thesis by (simp add: thread_step_def)
qed

theorem lost_wakeup_witness:
  "\<exists>s1 s2. thread_step ref_lib (Client 1) racing_state = Some s1 \<and> thread_step ref_lib Notifier s1 = Some s2
    \<and> notifier s2 = NWaiting \<and> buffer (handler s2) \<noteq> []"
proof -
  obtain s1 where s1: "thread_step ref_lib (Client 1) racing_state = Some s1"
    using racing_facts(1,2) by (simp add: thread_step_def)
  have "sub_owner s1 = None" "notifier s1 = NWait"
    using s1 racing_facts(1,2) by (auto simp: thread_step_def publish_push_def Let_def)
  then obtain s2 where s2: "thread_step ref_lib Notifier s1 = Some s2" by (simp add: thread_step_def with_sub_def)
  from lost_wakeup[OF racing_reachable racing_facts(1,2) s1 s2 rtranclp.rtrancl_refl] s1 s2 show ?thesis by force
qed

text \<open>
  C16. startThread creates the thread before it sets threadRun; threadRun has no initial value. When it happens to be false and the new thread looks at it first, the thread ends: threadRun is then true, and yet no notification is ever taken from the buffer, whatever the server does.
\<close>

theorem start_race:
  assumes "s = run_events L [Run (Client 0), Run Notifier, Run (Client 0)] (sys_init False srv gw)" "(sys_step L)\<^sup>*\<^sup>* s s'"
  shows "isThreadRunning (handler s) \<and> notifier s' = NDone \<and> taken_notes s' = []"
proof -
  have s: "notifier s = NDone" "isThreadRunning (handler s)" "taken_notes s = []"
    by (simp_all add: assms(1) run_events_def sys_init_def thread_step_def isThreadRunning_def startThread_def new_SubscriptionHandler_def)
  have "reachable L s" unfolding assms(1) by (rule run_events_reachable[OF reachable.init])
  with reachable_inv have "start_inv s" by blast
  from done_forever[OF assms(2) s(1) this] s show ?thesis by simp
qed

theorem start_race_witness:
  "taken_notes (run_events ref_lib [Run (Client 0), Run Notifier, Run (Client 0)] (sys_init False empty_server sample_streams)) = []"
  using start_race[OF refl rtranclp.rtrancl_refl] by blast

text \<open>
  C17. A client with read access that subscribes to a signal, over the wire, gets a subscription id; when another client then sets the signal, the buffer of the notification thread holds, for that id and channel, a notification whose message names the subscription and carries the path, the stored value and the time of the set in ISO 8601.
\<close>

theorem subscription_sees_set:
  assumes docs: "jsonpath_doc L" "schema_doc L" "num_doc L"
    and sub: "j_parse L text1 = Inr req1" "subscribe_msg req1 rid1 p attr" "checkReadAccess L c (fromVSS L p) = Inr True"
    and sig: "settable L (w_db w) p attr ss node dt"
    and set: "j_parse L text2 = Inr req2" "set_request req2 rid2 p attr v" "checkWriteAccess L c2 (fromVSS L p) = Inr True"
    and check: "checkAndSanitizeType L node v = Inr v'" and pubs: "publishers_ok L (publishers (w_sub w))"
    and clock: "clock_ok (env_clock E2)" "snd (env_clock E2) < 10 ^ 9" "fst (env_clock E2) < 2 ^ 63" "gmtime_fits (fst (env_clock E2))"
  shows "\<exists>w1 w2 ans1 ans2 d a dp. processQuery L E1 text1 c w = (Inr ans1, c, w1)
    \<and> json_lookup ans1 ''subscriptionId'' = Some (JStr (uuid_show L (env_uuid E1)))
    \<and> processQuery L E2 text2 c2 w1 = (Inr ans2, c2, w2)
    \<and> (env_uuid E1, c, dt, d) \<in> set (buffer (w_sub w2)) \<and> notification_answer L (env_uuid E1) d = Inr a
    \<and> json_lookup a ''subscriptionId'' = json_lookup ans1 ''subscriptionId''
    \<and> (\<exists>d'. json_lookup a ''data'' = Some d' \<and> json_lookup d' ''path'' = Some (JStr (to_string (fromVSS L p))) \<and> json_lookup d' ''dp'' = Some dp)
    \<and> json_lookup dp attr = Some v'
    \<and> json_lookup dp ''ts'' = Some (JStr (format_FT_T (gmtime (fst (env_clock E2))) @ ''.'' @ show_nat (nat (snd (env_clock E2))) @ ''Z''))"
proof -
  let ?key = "(getVSSPath (fromVSS L p), attr)" let ?u = "env_uuid E1"
  let ?d = "data_point (fromVSS L p) (env_clock E2) attr v'"
  let ?w1 = "w\<lparr>w_sub := add_subscription ?key ?u c (w_sub w)\<rparr>"
  have act: "json_lookup req1 ''action'' = Some (JStr ''subscribe'')" "json_lookup req2 ''action'' = Some (JStr ''set'')" "signal_attr attr"
    using sub(2) set(2) by (simp_all add: subscribe_msg_def set_request_def)
  have q1: "processQuery L E1 text1 c w = (Inr (json_build [(''action'', JStr ''subscribe''), (''requestId'', JStr rid1),
       (''subscriptionId'', JStr (uuid_show L ?u)), (''ts'', JStr (stamp E1))]), c, ?w1)"
    using processSubscribe_success[OF docs(1,2) sub(2) sig sub(3), of E1] by (simp add: processQuery_unfold[OF sub(1) act(1)] processAction_def)
  have "publishers_ok L (publishers (w_sub ?w1))" "settable L (w_db ?w1) p attr ss node dt"
    using pubs sig by (simp_all add: add_subscription_subscriber)
  from processSet_success[OF docs(1,2) set(2) this(2) set(3) check this(1), of E2] obtain w2 where
      q2: "processQuery L E2 text2 c2 ?w1 = (Inr (json_build [(''action'', JStr ''set''), (''requestId'', JStr rid2), (''ts'', JStr (stamp E2))]), c2, w2)"
      and buf: "buffer (w_sub w2) = buffer (w_sub ?w1) @ map (\<lambda>(sid, c). (sid, c, dt, ?d)) (subs_for (w_sub ?w1) ?key)"
    by (auto simp: processQuery_unfold[OF set(1) act(2)] processAction_def)
  have "subscriber (w_sub ?w1) ?key ?u = Some c" by (simp add: add_subscription_subscriber)
  from subscriber_listed[OF this] have "(?u, c, dt, ?d) \<in> set (buffer (w_sub w2))" unfolding buf by force
  with notification_of_point[OF docs(3) clock(1) act(3) clock(2-4), of ?u "fromVSS L p" v'] q1 q2 show ?thesis
    by (auto simp: json_build_lookup)
qed

theorem subscription_sees_set_witness:
  "\<exists>w1 w2 ans1 ans2 d. processQuery ref_lib sample_env (ref_dump sample_subscribe) sample_client2 sample_world = (Inr ans1, sample_client2, w1)
    \<and> processQuery ref_lib sample_env (ref_dump (set_speed (JStr ''120''))) sample_channel w1 = (Inr ans2, sample_channel, w2)
    \<and> (3, sample_client2, ''uint16'', d) \<in> set (buffer (w_sub w2))"
proof -
  have env: "clock_ok (env_clock sample_env)" "snd (env_clock sample_env) < 10 ^ 9" "fst (env_clock sample_env) < 2 ^ 63" "gmtime_fits (fst (env_clock sample_env))"
    "env_uuid sample_env = 3" by (code_simp+)
  have pubs: "publishers_ok ref_lib (publishers (w_sub sample_world))" and sig: "settable ref_lib (w_db sample_world) ''Vehicle.Speed'' ''value'' speed_segs speed_node ''uint16''"
    using sample_publishers sample_settable by simp_all
  from subscription_sees_set[OF jsonpath_ref schema_ref num_ref sample_subscribe_text sample_subscribe_msg sample_client2_access sig
      sample_parse sample_request sample_access(1) sample_check_text pubs env(1-4), of sample_env]
  show ?thesis unfolding env(5) by blast
qed

text \<open>
  C18. A client that unsubscribes an id and gets no error is not notified under that id by what is published next, whatever value on whatever path; the subscriptions under other ids, the database and what is in the buffer stay.
\<close>

theorem unsubscribe_silences:
  assumes "uuid_doc L" "processUnsubscribe L E c req w = (Inr j, w')" "\<not> json_contains j ''error''"
    and "json_lookup req ''subscriptionId'' = Some (JStr (uuid_show L u))" "subs_wf (w_sub w)"
  shows "w_db w' = w_db w \<and> buffer (w_sub w') = buffer (w_sub w) \<and> (\<forall>key u'. u' \<noteq> u \<longrightarrow> subscriber (w_sub w') key u' = subscriber (w_sub w) key u')
    \<and> (\<forall>path dt attr data n sh. publishForVSSPath L path dt attr data (w_sub w') = (Inr n, sh) \<longrightarrow>
         (\<exists>ns. buffer sh = buffer (w_sub w') @ ns \<and> (\<forall>note \<in> set ns. fst note \<noteq> u)))"
proof -
  from processUnsubscribe_answer[OF assms(2,4,1)] assms(3) obtain res where un: "unsubscribe u (w_sub w) = (res, w_sub w')" by auto
  note eff = unsubscribe_subscriber[OF un] and wf = unsubscribe_wf[OF un assms(5)]
  have "\<exists>ns. buffer sh = buffer (w_sub w') @ ns \<and> (\<forall>note \<in> set ns. fst note \<noteq> u)"
    if "publishForVSSPath L path dt attr data (w_sub w') = (Inr n, sh)" for path dt attr data n sh
  proof -
    have "(u, c) \<notin> set (subs_for (w_sub w') (getVSSPath path, attr))" for c
      using listed_subscriber[OF wf, of u c] eff(1)[of "(getVSSPath path, attr)" u] by auto
    then show ?thesis by (auto simp: publish_buffer(2)[OF that])
  qed
  with eff processUnsubscribe_effect(1)[OF assms(2)] show ?thesis by simp
qed

theorem unsubscribe_silences_witness:
  "\<exists>j w'. processUnsubscribe ref_lib sample_env sample_channel sample_unsubscribe sample_world = (Inr j, w') \<and> w_db w' = sample_db
    \<and> subscriber (w_sub w') (''Vehicle/Speed'', ''value'') 9 = Some sample_channel"
proof -
  obtain j w' where un: "processUnsubscribe ref_lib sample_env sample_channel sample_unsubscribe sample_world = (Inr j, w')" "\<not> json_contains j ''error''"
    by (rule sample_unsubscribed)
  have "uuid_doc ref_lib" "subs_wf (w_sub sample_world)" using sample_subs_wf by simp_all
  from unsubscribe_silences[OF this(1) un sample_unsubscribe_id this(2)] un show ?thesis
    by (auto simp: sample_handler_def subscriber_def subs_for_def)
qed

text \<open>
  C19. When a connection goes away, unsubscribeAll drops only the first of its subscriptions of each signal: of two subscriptions of the same signal and attribute one stays, and the next value published is put into the buffer for the connection that is gone. Other connections keep all their subscriptions.
\<close>

theorem disconnect_leaves_subscriptions:
  assumes "length (subs_of_channel c (subs_for sh (getVSSPath path, attr))) \<ge> 2"
    and "publishForVSSPath L path dt attr data (unsubscribeAll c sh) = (Inr n, sh')"
  shows "subs_of_others c (subs_for (unsubscribeAll c sh) (getVSSPath path, attr)) = subs_of_others c (subs_for sh (getVSSPath path, attr))
    \<and> length (subs_of_channel c (subs_for (unsubscribeAll c sh) (getVSSPath path, attr))) = length (subs_of_channel c (subs_for sh (getVSSPath path, attr))) - 1
    \<and> (\<exists>sid c'. same_channel c' c \<and> (sid, c', dt, data) \<in> set (buffer sh'))"
proof -
  let ?key = "(getVSSPath path, attr)"
  have len: "length (subs_of_channel c (subs_for (unsubscribeAll c sh) ?key)) = length (subs_of_channel c (subs_for sh ?key)) - 1"
    by (simp add: unsubscribeAll_spec(2))
  with assms(1) have "subs_of_channel c (subs_for (unsubscribeAll c sh) ?key) \<noteq> []" by auto
  then obtain sid c' where "(sid, c') \<in> set (subs_for (unsubscribeAll c sh) ?key)" "same_channel c' c"
    unfolding subs_of_channel_def filter_empty_conv by auto
  then have "(sid, c', dt, data) \<in> set (buffer sh')" unfolding publish_buffer(2)[OF assms(2)] by force
  with \<open>same_channel c' c\<close> len unsubscribeAll_spec(1) show ?thesis by blast
qed

theorem disconnect_leaves_subscriptions_witness:
  "\<exists>sid c'. same_channel c' sample_channel
    \<and> (sid, c', ''uint16'', sample_point) \<in> set (buffer (snd (publishForVSSPath ref_lib sample_path ''uint16'' ''value'' sample_point (unsubscribeAll sample_channel sample_handler))))"
proof -
  have "length (subs_of_channel sample_channel (subs_for sample_handler (getVSSPath sample_path, ''value''))) \<ge> 2"
    "fst (publishForVSSPath ref_lib sample_path ''uint16'' ''value'' sample_point (unsubscribeAll sample_channel sample_handler)) = Inr 0"
    by code_simp+
  then show ?thesis
    using disconnect_leaves_subscriptions[of sample_channel sample_handler sample_path "''value''" ref_lib "''uint16''" sample_point 0]
    by (cases "publishForVSSPath ref_lib sample_path ''uint16'' ''value'' sample_point (unsubscribeAll sample_channel sample_handler)") auto
qed

text \<open>
  C20. No query, whatever its text, gives a subscription id to two subscribers of a signal, replaces the server's key, or changes the connection number or kind of the channel; the channel changes at all only through authorize.
\<close>

theorem query_invariants:
  assumes query: "processQuery L E text c w = (r, c', w')" and wf: "subs_wf (w_sub w)"
  shows "subs_wf (w_sub w') \<and> w_auth w' = w_auth w \<and> connectionID c' = connectionID c \<and> typeOfConnection c' = typeOfConnection c
    \<and> (c' \<noteq> c \<longrightarrow> (\<exists>req. j_parse L text = Inr req \<and> req_string L req ''action'' = Inr ''authorize''))"
proof -
  from processQuery_cases[OF query] consider "c' = c" "w' = w"
    | req act r' where "j_parse L text = Inr req" "processAction L E act req c w = (r', c', w')" "req_string L req ''action'' = Inr act"
    by auto
  then show ?thesis
  proof cases
    case 2
    from processAction_subs_wf[OF 2(2) wf] processAction_frame[OF 2(2)] processAction_connection[OF 2(2)] 2 show ?thesis by auto
  qed (use wf in simp)
qed

theorem query_invariants_witness:
  "\<exists>r w'. processQuery ref_lib sample_env (ref_dump (set_speed (JStr ''120''))) sample_channel sample_world = (r, sample_channel, w') \<and> subs_wf (w_sub w')"
proof -
  obtain ans w' where q: "processQuery ref_lib sample_env (ref_dump (set_speed (JStr ''120''))) sample_channel sample_world = (Inr ans, sample_channel, w')"
    by (rule sample_query)
  have "subs_wf (w_sub sample_world)" by (simp add: sample_subs_wf)
  from query_invariants[OF q this] q show ?thesis by blast
qed

text \<open>
  C21. For a set request with a path for which the JSONPath library reports a syntax error the exception leaves processQuery: it is neither an answer nor one of the exceptions the dispatcher catches. It passes through the request handler and out of the read handler of the session, so nothing is written and no further read is started.
\<close>

theorem broken_path_escapes:
  assumes "schema_doc L" "j_parse L text = Inr req" "set_request req rid p attr v"
    and "\<forall>t. j_query L t (getJSONPath (fromVSS L p)) = Inl (JsonpathError m)"
    and "filter (\<lambda>(ty, x). ty = OBS_ALL \<or> ty = handler_type (getType c)) ls = [(ty, x)]"
  shows "processQuery L E text c w = (Inl (JsonpathError m), c, w)
    \<and> fst (HandleRequest L (\<lambda>_. processQuery L E) ls text c w) = Inl (JsonpathError m)
    \<and> (session_channel s = c \<longrightarrow> bufferRead s = text \<longrightarrow>
        fst (ws_onRead (HandleRequest L (\<lambda>_. processQuery L E) ls) NoError n now s h w) = Inl (JsonpathError m))"
proof -
  have "json_lookup req ''action'' = Some (JStr ''set'')" using assms(3) by (simp add: set_request_def)
  moreover have "processSet L E c req w = (Inl (JsonpathError m), w)"
    using set_request_parts[OF assms(3,1)] assms(4)
    by (simp add: processSet_def reject_request_def set_checks_def pathExists_def)
  ultimately have q: "processQuery L E text c w = (Inl (JsonpathError m), c, w)"
    by (simp add: processQuery_unfold[OF assms(2)] processAction_def)
  then have h: "HandleRequest L (\<lambda>_. processQuery L E) ls text c w = (Inl (JsonpathError m), c, w)"
    by (simp add: HandleRequest_single[OF assms(5)])
  with q show ?thesis by (auto simp: ws_onRead_def Let_def activity_def rearm_def)
qed

theorem broken_path_escapes_witness:
  "\<exists>m. processQuery ref_lib sample_env (ref_dump broken_set) sample_channel sample_world = (Inl (JsonpathError m), sample_channel, sample_world)"
  using broken_path_escapes[OF schema_ref broken_set_text broken_set_request broken_set_path, of sample_channel "[(OBS_ALL, 0 :: nat)]" OBS_ALL 0 sample_env] by fastforce

text \<open>
  C22. When storing fails with a genException (the datatype of the signal is none the server knows), the answer to set is no JSON object but a string that holds the printed object, so a client that looks for the member error of the answer, as the gRPC service does, takes it for a success.
\<close>

theorem generic_set_error_text:
  assumes docs: "jsonpath_doc L" "schema_doc L" and req: "set_request req rid p attr v"
    and sig: "settable L (w_db w) p attr ss node dt" and acc: "checkWriteAccess L c (fromVSS L p) = Inr True"
    and check: "checkAndSanitizeType L node v = Inl (GenException m)"
  shows "\<exists>t w'. processSet L E c req w = (Inr (JStr t), w') \<and> \<not> json_contains (JStr t) ''error'' \<and> w_db w' = w_db w
    \<and> t = j_pretty L (json_build [(''action'', JStr ''set''), (''requestId'', JStr rid), (''error'', error_object ''401'' ''Unknown error'' m), (''ts'', JStr (stamp E))])"
proof -
  note parts = set_request_parts[OF req docs(2)]
  have attr: "signal_attr attr" using req by (simp add: set_request_def)
  from sig have den: "denotes (fromVSS L p) ss" and node: "path_nodes ss (data_tree (w_db w)) = [(ss, node)]"
      and dt: "json_lookup node ''datatype'' = Some (JStr dt)" by (simp_all add: settable_def)
  have "\<exists>w'. set_loop L E attr [(fromVSS L p, v)] w = (Inl (GenException m), w') \<and> w_db w' = w_db w"
    using setSignal_refused[OF docs(1) den node dt check]
    by (auto simp: database_setSignal_def rec_setSignal_def split: option.splits)
  then obtain w' where w': "set_loop L E attr [(fromVSS L p, v)] w = (Inl (GenException m), w')" "w_db w' = w_db w" by blast
  with parts set_checks_settable[OF docs(1) sig attr acc, of E req]
  show ?thesis by (simp add: processSet_def reject_request_def set_error_def)
qed

theorem generic_set_error_text_witness:
  "\<exists>t w'. processSet ref_lib sample_env sample_channel (set_speed (JInt 5)) odd_world = (Inr (JStr t), w') \<and> \<not> json_contains (JStr t) ''error''"
proof -
  have sig: "settable ref_lib (w_db odd_world) ''Vehicle.Speed'' ''value'' speed_segs odd_node ''date''"
    and check: "checkAndSanitizeType ref_lib odd_node (JInt 5) = Inl (GenException ''The datatype date is not supported '')" by code_simp+
  from generic_set_error_text[OF jsonpath_ref schema_ref sample_request sig sample_access(1) check] show ?thesis by blast
qed

text \<open>
  C23. Whatever is written to a web-socket session and whenever its asynchronous writes complete, with or without an error: never more than one write is in flight, and the messages whose write completed without error, followed by the write queue, are exactly the messages written, in order; such a completion is always handled. As long as no write has ended with an error, a write is in flight exactly while the queue is not empty. After a write that ended with an error the queue is never empty again and nothing is handed to the network any more: every later message only joins the queue.
\<close>

theorem session_writes_in_order:
  assumes "ws_traffic\<^sup>*\<^sup>* (new_WsSession kind addr c, [], [], [], False) (s, in_flight, completed, written, failed)"
  shows "length in_flight \<le> 1 \<and> completed @ writeQueue s = written
    \<and> (\<forall>d h. in_flight = [d] \<longrightarrow> (\<exists>as. fst (ws_onWrite NoError (length d) s h) = Inr as))
    \<and> (\<not> failed \<longrightarrow> (in_flight = [] \<longleftrightarrow> writeQueue s = []))
    \<and> (failed \<longrightarrow> (\<forall>s' in_flight' completed' written' failed'.
         ws_traffic\<^sup>*\<^sup>* (s, in_flight, completed, written, failed) (s', in_flight', completed', written', failed') \<longrightarrow>
         in_flight' = [] \<and> completed' = completed \<and> writeQueue s' \<noteq> []))"
proof -
  note traffic = session_traffic[OF assms] and ok = traffic_ok_reachable[OF assms new_session_traffic]
  have handled: "\<exists>as. fst (ws_onWrite NoError (length d) s h) = Inr as" if "in_flight = [d]" for d h
    using traffic(5)[OF that] by (cases "fst (ws_onWrite NoError (length d) s h)") auto
  have stuck: "in_flight' = [] \<and> completed' = completed \<and> writeQueue s' \<noteq> []"
    if "failed" "ws_traffic\<^sup>*\<^sup>* (s, in_flight, completed, written, failed) (s', in_flight', completed', written', failed')"
    for s' in_flight' completed' written' failed'
  proof -
    from failed_traffic[OF that(2) _ ok] that(1) have over: "in_flight' = []" "completed' = completed" "failed'" by auto
    with traffic_ok_reachable[OF that(2) ok] show ?thesis by (simp add: traffic_ok_def)
  qed
  from traffic(1-3) handled stuck show ?thesis by blast
qed

theorem session_writes_in_order_witness:
  "\<exists>s. ws_traffic\<^sup>*\<^sup>* (new_WsSession WEBSOCKET_PLAIN 7 sample_client, [], [], [], False) (s, [], [], [''one'', ''two''], True)
    \<and> writeQueue s = [''one'', ''two'']
    \<and> (\<forall>s' q d wr e. ws_traffic\<^sup>*\<^sup>* (s, [], [], [''one'', ''two''], True) (s', q, d, wr, e) \<longrightarrow> q = [] \<and> d = [])"
proof -
  let ?s0 = "new_WsSession WEBSOCKET_PLAIN 7 sample_client"
  let ?s1 = "snd (ws_write ''one'' ?s0)" let ?s2 = "snd (ws_write ''two'' ?s1)"
  have w: "ws_write ''one'' ?s0 = ([AsyncWrite ''one''], ?s1)" "ws_write ''two'' ?s1 = ([], ?s2)"
    "ws_onWrite OperationAborted 0 ?s2 new_ConnectionHandler = (Inr [], ?s2, new_ConnectionHandler)"
    by (simp_all add: ws_write_def ws_onWrite_def new_WsSession_def Let_def)
  from ws_traffic.written[OF w(1), of "[]" "[]" "[]" False] ws_traffic.written[OF w(2), of "[''one'']" "[]" "[''one'']" False]
    ws_traffic.failed[OF _ w(3), of "''one''" "[]" "[]" "[''one'', ''two'']" False]
  have run: "ws_traffic\<^sup>*\<^sup>* (?s0, [], [], [], False) (?s2, [], [], [''one'', ''two''], True)"
    by (auto intro: converse_rtranclp_into_rtranclp)
  from session_writes_in_order[OF run] run show ?thesis by (intro exI[of _ ?s2]) auto
qed

text \<open>
  C24. The messages of a web-socket client, read one after the other: the session passes each to the command processor on its own channel and queues the answers in the order of the requests, keeps the channel as the last request left it (so an authorize decides what the later ones may do), and starts a new read after every message; an exception that the processor does not catch leaves the session's handler at the request it was raised for.
\<close>

theorem requests_answered:
  assumes "bufferRead s = []" "write_ready s"
  shows "case queries L Es 0 ts (session_channel s) w of
      (Inr answers, c', w') \<Rightarrow> (\<exists>as s'. session_reads L Es clock_at 0 ts s h w = (Inr as, s', h, w') \<and> writeQueue s' = writeQueue s @ answers
        \<and> session_channel s' = c' \<and> length (filter (\<lambda>a. a = AsyncRead) as) = length ts)
    | (Inl e, _) \<Rightarrow> fst (session_reads L Es clock_at 0 ts s h w) = Inl e"
proof (cases "queries L Es 0 ts (session_channel s) w")
  case (fields r c' w')
  show ?thesis
  proof (cases r)
    case (Inl e) with session_reads_escape[OF _ assms] fields show ?thesis by simp
  next
    case (Inr answers)
    from session_reads_answers[OF fields[unfolded Inr] assms] show ?thesis by (simp add: fields Inr) blast
  qed
qed

theorem requests_answered_witness:
  "\<exists>as s' h' w'. session_reads ref_lib (\<lambda>_. sample_env) (\<lambda>i. i) 0 sample_texts sample_session new_ConnectionHandler sample_world = (Inr as, s', h', w')
    \<and> length (writeQueue s') = 2
    \<and> w_db w' = sample_db\<lparr>data_tree := path_replace speed_segs (stored (env_clock sample_env) ''value'' (JInt 120) speed_node) sample_tree\<rparr>"
proof -
  obtain answers w' where q: "queries ref_lib (\<lambda>_. sample_env) 0 sample_texts sample_channel sample_world = (Inr answers, sample_channel, w')"
    and w': "length answers = 2"
      "w_db w' = sample_db\<lparr>data_tree := path_replace speed_segs (stored (env_clock sample_env) ''value'' (JInt 120) speed_node) sample_tree\<rparr>"
    by (rule sample_queries)
  from requests_answered[OF sample_session_parts(1,2), where L = ref_lib and Es = "\<lambda>_. sample_env" and ts = sample_texts and w = sample_world and clock_at = "\<lambda>i. i" and h = new_ConnectionHandler]
  show ?thesis using q w' by (auto simp: sample_session_parts)
qed

text \<open>
  C25. A web-socket session, plain or SSL, that was active is left alone until the time-out; the timer then probes it with a ping; if nothing is heard until the next time-out the session is closed, once (a plain session with a close frame, an SSL session with the SSL shutdown), and a control frame in between starts the whole cycle anew.
\<close>

theorem idle_session_closed:
  assumes kind: "session_kind s \<in> {WEBSOCKET_PLAIN, WEBSOCKET_SSL}" "\<not> close_flag s" "\<not> eof_flag s"
    and times: "t0 + TIMEOUT_VALUE \<le> t1" "t1 + TIMEOUT_VALUE \<le> t2"
  shows "(\<forall>t < t0 + TIMEOUT_VALUE. ws_onTimer NoError t True (activity t0 s) h = ([AsyncWait], activity t0 s, h))
    \<and> (\<exists>s1 s2 s3. ws_onTimer NoError t1 True (activity t0 s) h = ([AsyncPing, AsyncWait], s1, h)
        \<and> ws_onPing NoError s1 h = Inr (s2, h) \<and> ping_state s2 = 2
        \<and> ws_onTimer NoError t2 True s2 h = (if session_kind s = WEBSOCKET_PLAIN then [AsyncClose] else [AsyncWait, AsyncShutdown], s3, h)
        \<and> fst (ws_onTimer NoError (t2 + TIMEOUT_VALUE) True s3 h) = []
        \<and> (\<forall>t. ws_onTimer NoError t2 True (on_control_callback t s2) h
             = (if t2 < t + TIMEOUT_VALUE then ([AsyncWait], on_control_callback t s2, h)
                else ([AsyncPing, AsyncWait], rearm t2 ((on_control_callback t s2)\<lparr>ping_state := 1\<rparr>), h))))"
  using assms
  by (auto simp: ws_onTimer_def activity_def rearm_def expired_def ws_onPing_def doTimeout_defs ws_doEof_def on_control_callback_def Let_def)

theorem idle_session_closed_witness:
  "\<exists>s1 s2 s3. ws_onTimer NoError TIMEOUT_VALUE True (activity 0 (new_WsSession WEBSOCKET_SSL 7 sample_client)) new_ConnectionHandler
      = ([AsyncPing, AsyncWait], s1, new_ConnectionHandler)
    \<and> ws_onTimer NoError (2 * TIMEOUT_VALUE) True s2 new_ConnectionHandler = ([AsyncWait, AsyncShutdown], s3, new_ConnectionHandler)"
proof -
  let ?s = "new_WsSession WEBSOCKET_SSL 7 sample_client"
  have "session_kind ?s \<in> {WEBSOCKET_PLAIN, WEBSOCKET_SSL}" "\<not> close_flag ?s" "\<not> eof_flag ?s" "session_kind ?s = WEBSOCKET_SSL"
    by (simp_all add: new_WsSession_def)
  with idle_session_closed[OF this(1-3), of 0 TIMEOUT_VALUE "2 * TIMEOUT_VALUE" new_ConnectionHandler] show ?thesis by auto
qed

text \<open>
  C26. The recording database writes the record of a set before it takes the mutex. Two clients set one signal: when the first is interrupted between its record line and its store, the record file has the lines of the first and of the second, in this order, and the value of the first stays. The same record comes from the two requests one after the other, which leave the value of the second: replaying a record does not give back the state it was recorded from.
\<close>

theorem record_out_of_order:
  assumes docs: "jsonpath_doc L" "schema_doc L" and good: "good_set L (jobs i) p attr v1" "good_set L (jobs k) p attr v2" "i \<noteq> k"
    and sig: "settable L (w_db w) p attr ss node dt"
    and check: "checkAndSanitizeType L node v1 = Inr v1'" "checkAndSanitizeType L node v2 = Inr v2'"
    and pubs: "publishers_ok L (publishers (w_sub w))" and rec: "w_rec w = Some rec"
  shows "\<exists>sched s r r'. run_locked L jobs sched (start_locked w) = Some s
    \<and> stored_value ss attr (st_world (l_sets s)) = Some v1' \<and> stored_value ss attr (seq_sets L jobs [i, k] w) = Some v2'
    \<and> w_rec (st_world (l_sets s)) = Some r \<and> w_rec (seq_sets L jobs [i, k] w) = Some r'
    \<and> record_log r = record_log rec @ [record_text L p attr v1, record_text L p attr v2] \<and> record_log r' = record_log r"
proof -
  note crossed = record_crossed[OF docs good sig check pubs rec refl] and seq = record_sequential[OF docs good(1,2) sig check pubs rec]
  let ?js = "replicate 6 i @ replicate 7 k @ [i]"
  from interleaving_locked[of "start_locked w" L jobs ?js] obtain sched
    where "run_locked L jobs sched (start_locked w) = Some ((start_locked w)\<lparr>l_sets := run_schedule L jobs ?js (start_sets w)\<rparr>)" by auto
  with crossed seq show ?thesis
    by (intro exI[of _ sched] exI[of _ "(start_locked w)\<lparr>l_sets := run_schedule L jobs ?js (start_sets w)\<rparr>"]) auto
qed

theorem record_out_of_order_witness:
  "\<exists>sched s. run_locked ref_lib sample_jobs sched (start_locked recorded_world) = Some s
    \<and> stored_value speed_segs ''value'' (st_world (l_sets s)) = Some (JInt 80)
    \<and> stored_value speed_segs ''value'' (seq_sets ref_lib sample_jobs [0, 1] recorded_world) = Some (JInt 120)
    \<and> map_option (length \<circ> record_log) (w_rec (st_world (l_sets s))) = Some 2"
proof -
  have checks: "checkAndSanitizeType ref_lib speed_node (JInt 80) = Inr (JInt 80)" "checkAndSanitizeType ref_lib speed_node (JInt 120) = Inr (JInt 120)"
    by code_simp+
  have "settable ref_lib (w_db recorded_world) ''Vehicle.Speed'' ''value'' speed_segs speed_node ''uint16''"
    "publishers_ok ref_lib (publishers (w_sub recorded_world))" using sample_settable sample_publishers by simp_all
  from record_out_of_order[where jobs = sample_jobs and i = 0 and k = 1, OF sample_docs sample_jobs_good zero_neq_one this(1) checks this(2) recorded_world_parts(3)]
  obtain sched s r where s: "run_locked ref_lib sample_jobs sched (start_locked recorded_world) = Some s"
    "stored_value speed_segs ''value'' (st_world (l_sets s)) = Some (JInt 80)"
    "stored_value speed_segs ''value'' (seq_sets ref_lib sample_jobs [0, 1] recorded_world) = Some (JInt 120)"
    "w_rec (st_world (l_sets s)) = Some r" and log: "record_log r = record_log (new_VssDatabase_Record ''.'' ''recordSet'')
      @ [record_text ref_lib ''Vehicle.Speed'' ''value'' (JInt 80), record_text ref_lib ''Vehicle.Speed'' ''value'' (JInt 120)]"
    by (elim exE conjE) (rule that)
  from log have "length (record_log r) = 2" by (simp add: new_VssDatabase_Record_def logger_init_def Let_def)
  with s show ?thesis by (intro exI[of _ sched] exI[of _ s]) (simp only: s option.map comp_apply simp_thms)
qed

text \<open>
  C27. The request validators accept a JSON value exactly if it is an object with the right action, a path, a request id and the other members of its kind as strings (metadata as an object), and, for get, set and subscribe, the attribute, if there is one, value or targetValue; for subscribe, also the filters, if there are any, null or an object whose interval, minChange and bounds of the range are integers. Anything else is refused with a schema error and nothing else.
\<close>

theorem requests_validated:
  assumes "schema_doc L"
  shows "(validateGet L j = Inr () \<longleftrightarrow> is_object j \<and> action_in j {''get'', ''getMetaData''} \<and> has_string j ''path'' \<and> has_string j ''requestId'' \<and> attribute_ok j)
    \<and> (validateSet L j = Inr () \<longleftrightarrow> is_object j \<and> action_in j {''set''} \<and> has_string j ''path'' \<and> has_string j ''requestId'' \<and> attribute_ok j)
    \<and> (validateUnsubscribe L j = Inr () \<longleftrightarrow> is_object j \<and> action_in j {''unsubscribe''} \<and> has_string j ''subscriptionId'' \<and> has_string j ''requestId'')
    \<and> (validateUpdateVSSTree L j = Inr () \<longleftrightarrow> is_object j \<and> action_in j {''updateVSSTree''}
      \<and> (\<exists>m. json_lookup j ''metadata'' = Some m \<and> is_object m) \<and> has_string j ''requestId'')
    \<and> (validateUpdateMetadata L j = Inr () \<longleftrightarrow> is_object j \<and> action_in j {''updateMetaData''} \<and> has_string j ''path''
      \<and> (\<exists>m. json_lookup j ''metadata'' = Some m \<and> is_object m) \<and> has_string j ''requestId'')
    \<and> (validateSubscribe L j = Inr () \<longleftrightarrow> is_object j \<and> action_in j {''subscribe''} \<and> has_string j ''path'' \<and> has_string j ''requestId''
      \<and> attribute_ok j \<and> filters_ok j)
    \<and> (\<forall>f \<in> {validateGet L, validateSet L, validateUnsubscribe L, validateUpdateVSSTree L, validateUpdateMetadata L, validateSubscribe L}.
         f j \<noteq> Inr () \<longrightarrow> (\<exists>m. f j = Inl (SchemaError m)))"
  using validate_message_iff[OF assms]
  by (simp add: validateGet_def validateSet_def validateUnsubscribe_def validateUpdateVSSTree_def validateUpdateMetadata_def
      validateSubscribe_def conforms_get conforms_set conforms_unsubscribe conforms_update_tree conforms_update_metadata conforms_subscribe_iff)

theorem requests_validated_witness:
  "validateSet ref_lib (set_speed (JInt 1)) = Inr () \<and> validateGet ref_lib (set_speed (JInt 1)) \<noteq> Inr ()
    \<and> validateSubscribe ref_lib sample_subscribe = Inr ()"
proof -
  have obj: "is_object (set_speed (JInt 1))" "is_object sample_subscribe" by code_simp+
  then have "action_in (set_speed (JInt 1)) {''set''}" "has_string (set_speed (JInt 1)) ''path''" "has_string (set_speed (JInt 1)) ''requestId''"
    "attribute_ok (set_speed (JInt 1))" "\<not> action_in (set_speed (JInt 1)) {''get'', ''getMetaData''}"
    "filters_ok sample_subscribe" "action_in sample_subscribe {''subscribe''}" "has_string sample_subscribe ''path''"
    "has_string sample_subscribe ''requestId''" "attribute_ok sample_subscribe"
    by (simp_all add: action_in_def has_string_def attribute_ok_def filters_ok_def set_speed_def sample_subscribe_def json_build_lookup)
  with obj requests_validated[OF schema_ref, of "set_speed (JInt 1)"] requests_validated[OF schema_ref, of sample_subscribe]
  show ?thesis by simp
qed

text \<open>
  C28. The time stamp of a data point is the calendar date and time of its seconds followed by the nanoseconds printed without leading zeros: read as a decimal fraction they are the fraction of the value for no nanoseconds or at least a tenth of a second, otherwise a larger one, still below one, so that the stamp names a later moment of the same second.
\<close>

theorem timestamp_fraction:
  assumes L: "num_doc L" and obj: "json_lookup j ''ts_s'' = Some (JInt s)" "json_lookup j ''ts_ns'' = Some (JInt ns)"
    and s: "0 \<le> s" "s < 2 ^ 63" "gmtime_fits s" and ns: "0 \<le> ns" "ns < 10 ^ 9"
  shows "(\<exists>j'. convertJSONTimeStampToISO8601 L j = Inr j'
        \<and> json_lookup j' ''ts'' = Some (JStr (format_FT_T (gmtime s) @ ''.'' @ show_nat (nat ns) @ ''Z''))
        \<and> json_lookup j' ''ts_s'' = None \<and> json_lookup j' ''ts_ns'' = None
        \<and> (\<forall>k. k \<notin> {''ts'', ''ts_s'', ''ts_ns''} \<longrightarrow> json_lookup j' k = json_lookup j k))
    \<and> fraction_value (show_nat (nat ns)) < 1
    \<and> (if ns = 0 \<or> 10 ^ 8 \<le> ns then fraction_value (show_nat (nat ns)) = of_int ns / 10 ^ 9
       else of_int ns / 10 ^ 9 < fraction_value (show_nat (nat ns)))"
proof -
  have nat: "nat ns < 10 ^ 9" "rat_of_int ns = of_nat (nat ns)" "ns = 0 \<longleftrightarrow> nat ns = 0" "10 ^ 8 \<le> ns \<longleftrightarrow> 10 ^ 8 \<le> nat ns"
    using ns by (auto simp: nat_less_iff nat_le_iff)
  have "is_object j" using obj(1) by (rule lookup_is_object)
  with convert_with_stamps[OF L obj s ns] have "\<exists>j'. convertJSONTimeStampToISO8601 L j = Inr j'
        \<and> json_lookup j' ''ts'' = Some (JStr (format_FT_T (gmtime s) @ ''.'' @ show_nat (nat ns) @ ''Z''))
        \<and> json_lookup j' ''ts_s'' = None \<and> json_lookup j' ''ts_ns'' = None
        \<and> (\<forall>k. k \<notin> {''ts'', ''ts_s'', ''ts_ns''} \<longrightarrow> json_lookup j' k = json_lookup j k)"
    by (auto simp: json_lookup_set json_lookup_erase)
  with fraction_value_show[OF nat(1)] fraction_value_bounds[OF nat(1)] show ?thesis
    unfolding nat(2-4) by auto
qed

theorem timestamp_fraction_witness:
  "(\<exists>j'. convertJSONTimeStampToISO8601 ref_lib (json_build [(''ts_s'', JInt 0), (''ts_ns'', JInt 5)]) = Inr j'
      \<and> json_lookup j' ''ts'' = Some (JStr (format_FT_T (gmtime 0) @ ''.'' @ show_nat 5 @ ''Z'')))
    \<and> 5 / 10 ^ 9 < fraction_value (show_nat 5)"
proof -
  have "gmtime_fits 0" by code_simp
  then show ?thesis
    using timestamp_fraction[OF num_ref, of "json_build [(''ts_s'', JInt 0), (''ts_ns'', JInt 5)]" 0 5] by (auto simp: json_build_lookup)
qed

text \<open>
  C29. With path patterns of literal characters, dots and stars: a value is handed to the MQTT broker exactly if one of the configured path patterns, with every star widened, matches its whole path and a connection exists or one of the configured number of attempts succeeds; then it is one message, on the path's topic under the prefix, with the value as text and the configured quality of service.
\<close>

theorem mqtt_send:
  assumes "regex_doc L" "\<forall>k \<in> set (paths p). pattern_items k \<noteq> None" "sendPathValue L M topic v p = (r, p')"
  shows "(if (\<exists>k \<in> set (paths p). pattern_matches k topic) \<and> (isConnected p \<or> (\<exists>i < nat (connection_retry p). m_connect M (connects p + i) = 0))
      then r = Inr True \<and> sent p' = sent p @ [(topic_of p topic, as_string L v, qos p)]
      else r = Inr False \<and> sent p' = sent p)
    \<and> connects p \<le> connects p' \<and> connects p' \<le> connects p + nat (connection_retry p) \<and> paths p' = paths p"
proof (cases "\<exists>k \<in> set (paths p). pattern_matches k topic")
  case False
  with assms send_loop_result[OF assms(1), of "paths p" M topic v p] show ?thesis by (auto simp: sendPathValue_def list_ex_iff)
next
  case True
  obtain ok p1 where start: "mqtt_start M p = (ok, p1)" by fastforce
  from mqtt_start_frame[OF start] obtain n where p1: "p1 = p\<lparr>connects := n, isConnected := ok\<rparr>" "connects p \<le> n" "n \<le> connects p + nat (connection_retry p)" by blast
  from True have "paths p \<noteq> []" by auto
  with start have ok: "ok \<longleftrightarrow> isConnected p \<or> (\<exists>i < nat (connection_retry p). m_connect M (connects p + i) = 0)"
    using mqtt_connect_loop_connected[of p M "nat (connection_retry p)"] by (auto simp: mqtt_start_def Let_def split: if_splits)
  from True assms send_loop_result[OF assms(1), of "paths p" M topic v p] start
  have "(r, p') = (if \<not> ok then (Inr False, p1) else (Inr True, p1\<lparr>sent := sent p1 @ [(topic_of p1 topic, as_string L v, qos p1)]\<rparr>))"
    by (auto simp: sendPathValue_def list_ex_iff)
  with True ok p1 show ?thesis by (auto simp: topic_of_def Let_def split: if_splits)
qed

theorem mqtt_send_witness:
  "sent (snd (sendPathValue ref_lib \<lparr>m_insecure = 0, m_connect = (\<lambda>n. if n = 0 then 1 else 0), m_publish = (\<lambda>_. 0), m_userpw = (\<lambda>_ _. 0)\<rparr>
      ''Vehicle/Speed'' (JStr ''120'') ((new_MQTTPublisher mqtt_getOptions)\<lparr>paths := [''Vehicle/*'']\<rparr>)))
    = [(''vss/Vehicle/Speed'', ''120'', 0)]"
proof -
  let ?M = "\<lparr>m_insecure = 0, m_connect = (\<lambda>n. if n = 0 then 1 else 0), m_publish = (\<lambda>_. 0), m_userpw = (\<lambda>_ _. 0)\<rparr>"
  let ?p = "(new_MQTTPublisher mqtt_getOptions)\<lparr>paths := [''Vehicle/*'']\<rparr>"
  obtain r p' where send: "sendPathValue ref_lib ?M ''Vehicle/Speed'' (JStr ''120'') ?p = (r, p')" by fastforce
  have parts: "\<forall>k \<in> set (paths ?p). pattern_items k \<noteq> None" "pattern_matches ''Vehicle/*'' ''Vehicle/Speed''"
    "topic_of ?p ''Vehicle/Speed'' = ''vss/Vehicle/Speed''" "connection_retry ?p = 3" "qos ?p = 0" "sent ?p = []" "connects ?p = 0" "paths ?p = [''Vehicle/*'']"
    by code_simp+
  have "\<exists>i < nat 3. m_connect ?M (0 + i) = 0" by (intro exI[of _ 1]) simp
  with mqtt_send[OF regex_ref parts(1) send] parts(2-) send show ?thesis by simp
qed

text \<open>
  C30. An option given on the command line has that value at last, whatever the configuration file says, with three exceptions: log-level, whose values are collected, and the signal file and the certificate directory, which are made relative to the directory of the configuration file whenever one is read, be it given or the default config.ini, and stay as given when none is read. A config.ini that is found and names no signal file ends a program called without one by an uncaught exception, before help is looked at, and so does what notify throws for a missing option.
\<close>

theorem options_gathered:
  assumes P: "store_doc P" and cl: "po_command_line P = Inr cl"
  shows "(\<forall>vars k v. read_options P open_file = Inr vars \<longrightarrow> k \<notin> {''log-level'', ''vss'', ''cert-path''} \<longrightarrow> map_of cl k = Some v \<longrightarrow>
        vars k = Some (v, False))
    \<and> (\<forall>vars k p f. read_options P open_file = Inr vars \<longrightarrow> k = ''vss'' \<or> k = ''cert-path'' \<longrightarrow> map_of cl k = Some (OText p) \<longrightarrow>
        map_of cl ''config-file'' = Some (OText f) \<or> map_of cl ''config-file'' = None \<and> f = ''config.ini'' \<longrightarrow>
        vars k = Some (OText (case open_file f of None \<Rightarrow> p | Some _ \<Rightarrow> po_absolute P p (po_parent_path P f)), False))
    \<and> (\<forall>vars vars' content c. map_of cl ''vss'' = None \<longrightarrow> map_of cl ''config-file'' = None \<longrightarrow> po_store P cl Map.empty = Inr vars \<longrightarrow>
        open_file ''config.ini'' = Some content \<longrightarrow> po_config_file P content = Inr c \<longrightarrow> map_of c ''vss'' = None \<longrightarrow>
        po_store P c vars = Inr vars' \<longrightarrow> main_program L P open_file rt fs M mock = Uncaught (StdException ''boost::bad_any_cast''))
    \<and> (\<forall>vars e. read_options P open_file = Inr vars \<longrightarrow> vars ''help'' = None \<longrightarrow> po_notify P vars = Inl e \<longrightarrow>
        main_program L P open_file rt fs M mock = Uncaught e)"
proof (intro conjI allI impI)
  fix vars k v
  assume "read_options P open_file = Inr vars" "k \<notin> {''log-level'', ''vss'', ''cert-path''}" "map_of cl k = Some v"
  then show "vars k = Some (v, False)" using command_line_wins[OF P cl] by simp
next
  fix vars k p f
  assume "read_options P open_file = Inr vars" "k = ''vss'' \<or> k = ''cert-path''" "map_of cl k = Some (OText p)"
    "map_of cl ''config-file'' = Some (OText f) \<or> map_of cl ''config-file'' = None \<and> f = ''config.ini''"
  then show "vars k = Some (OText (case open_file f of None \<Rightarrow> p | Some _ \<Rightarrow> po_absolute P p (po_parent_path P f)), False)"
    using path_moved[OF P cl] by (simp add: config_file_of_def)
qed (use P cl in \<open>auto intro: config_without_vss missing_option_uncaught\<close>)

theorem options_gathered_witness:
  "\<exists>vars. read_options sample_parser (\<lambda>_. Some ''port = 1'') = Inr vars \<and> vars ''port'' = Some (ONumber 9, False)
     \<and> vars ''vss'' = Some (OText ''/etc/v.json'', False)"
proof -
  obtain vars where vars: "read_options sample_parser (\<lambda>_. Some ''port = 1'') = Inr vars" by (rule sample_parsed)
  have "store_doc sample_parser" by (simp add: ref_store_documented sample_parser_def)
  from options_gathered[OF this, of sample_command_line "\<lambda>_. Some ''port = 1''"] vars show ?thesis
    by (auto simp: sample_parser_def sample_command_line_def)
qed

text \<open>
  C31. The overlays applied at start-up are the regular json files of the directory, in the order of their file names, however the directory lists them; each one is applied to the tree the ones before it have left, and the loading succeeds only if every one parses and is applied.
\<close>

theorem overlays_in_name_order:
  assumes "fs_is_directory fs d" "fs_entries fs d = Inr es" "inj_on entry_name (set es)" "mset es = mset es'"
  shows "\<exists>ps. gatherOverlays fs d = Inr ps \<and> gatherOverlays (fs\<lparr>fs_entries := \<lambda>_. Inr es'\<rparr>) d = Inr ps
    \<and> set ps = {p \<in> set es. entry_regular p \<and> entry_extension p = ''.json''} \<and> sorted (map entry_name ps)
    \<and> (\<forall>db db'. applyOverlays L fs c ps db = (Inr (), db') \<longleftrightarrow>
         (\<exists>dbs. length dbs = Suc (length ps) \<and> hd dbs = db \<and> last dbs = db' \<and>
           (\<forall>i < length ps. \<exists>j. j_parse L (fs_content fs (entry_path (ps ! i))) = Inr j \<and> updateJsonTree L c j (dbs ! i) = (Inr (), dbs ! Suc i))))"
proof -
  from assms(1,2) obtain ps where ps: "gatherOverlays fs d = Inr ps" by (simp add: gatherOverlays_def)
  have "gatherOverlays fs d = gatherOverlays (fs\<lparr>fs_entries := \<lambda>_. Inr es'\<rparr>) d"
    by (rule gatherOverlays_order[OF assms(1,2)]) (use assms in auto)
  with ps gatherOverlays_result[OF ps] assms(2)
  have "gatherOverlays (fs\<lparr>fs_entries := \<lambda>_. Inr es'\<rparr>) d = Inr ps" "set ps = {p \<in> set es. is_overlay p}" "sorted (map entry_name ps)" by auto
  with ps show ?thesis unfolding is_overlay_def by (intro exI[of _ ps] conjI allI applyOverlays_success)
qed

theorem overlays_in_name_order_witness:
  "\<exists>ps. gatherOverlays sample_fs ''overlays'' = Inr ps \<and> map entry_name ps = [''a.json'', ''b.json'']"
proof -
  have es: "fs_is_directory sample_fs ''overlays''" "fs_entries sample_fs ''overlays'' = Inr sample_entries" "inj_on entry_name (set sample_entries)"
    by (simp_all add: sample_fs_def sample_entries_def)
  have "gatherOverlays (sample_fs\<lparr>fs_entries := \<lambda>_. Inr (rev sample_entries)\<rparr>) ''overlays'' = Inr (rev (take 2 sample_entries))" by code_simp
  with overlays_in_name_order[OF es, of "rev sample_entries"] have "gatherOverlays sample_fs ''overlays'' = Inr (rev (take 2 sample_entries))" by auto
  then show ?thesis by (simp add: sample_entries_def)
qed

text \<open>
  C32. A server that comes up was given known log levels and a valid record option, has a database made of the signal file with its defaults and the overlays, no subscription and no notification, one MQTT publisher whose patterns are exactly the configured paths that exist, and gRPC credentials as the insecure option says. Without overlays, a signal file that is no JSON ends the program with an exception that main does not catch.
\<close>

theorem server_start:
  "(\<forall>app. server_main L rt fs M mock file opts = Running app \<longrightarrow>
      (\<exists>w. active_levels (so_log_level opts) 0 = Some w) \<and> record_mode opts = Inr (w_rec (app_world app))
    \<and> subscriptions (w_sub (app_world app)) = [] \<and> buffer (w_sub (app_world app)) = []
    \<and> (\<exists>ps db. (case so_overlays opts of None \<Rightarrow> Inr [] | Some d \<Rightarrow> gatherOverlays fs d) = Inr ps
        \<and> initJsonTree L (fs_content fs (so_vss opts)) \<lparr>data_tree = json_new, meta_tree = json_new\<rparr> = (Inr (), db)
        \<and> applyOverlays L fs (mockChannel (fst mock) (snd mock)) ps db = (Inr (), w_db (app_world app)))
    \<and> map (\<lambda>(m, p). paths p) (publishers (w_sub (app_world app)))
        = [filter (\<lambda>t. checkPathValid L (w_db (app_world app)) (fromVSSGen1 L t) = Inr True) (publish_tokens (opt_publish (so_mqtt opts)))]
    \<and> (app_grpc app = (''0.0.0.0:50051'', InsecureCredentials) \<longleftrightarrow> so_insecure opts))
   \<and> (\<forall>w rec e. \<not> so_help opts \<longrightarrow> active_levels (so_log_level opts) 0 = Some w \<longrightarrow> so_overlays opts = None \<longrightarrow> record_mode opts = Inr rec \<longrightarrow>
        j_parse L (fs_content fs (so_vss opts)) = Inl e \<longrightarrow> is_std_exception e \<longrightarrow>
        server_main L rt fs M mock file opts = Uncaught (StdException ''std::exception''))"
proof -
  have "(\<exists>w. active_levels (so_log_level opts) 0 = Some w) \<and> record_mode opts = Inr (w_rec (app_world app))
    \<and> subscriptions (w_sub (app_world app)) = [] \<and> buffer (w_sub (app_world app)) = []
    \<and> (\<exists>ps db. (case so_overlays opts of None \<Rightarrow> Inr [] | Some d \<Rightarrow> gatherOverlays fs d) = Inr ps
        \<and> initJsonTree L (fs_content fs (so_vss opts)) \<lparr>data_tree = json_new, meta_tree = json_new\<rparr> = (Inr (), db)
        \<and> applyOverlays L fs (mockChannel (fst mock) (snd mock)) ps db = (Inr (), w_db (app_world app)))
    \<and> map (\<lambda>(m, p). paths p) (publishers (w_sub (app_world app)))
        = [filter (\<lambda>t. checkPathValid L (w_db (app_world app)) (fromVSSGen1 L t) = Inr True) (publish_tokens (opt_publish (so_mqtt opts)))]
    \<and> (app_grpc app = (''0.0.0.0:50051'', InsecureCredentials) \<longleftrightarrow> so_insecure opts)"
    if "server_main L rt fs M mock file opts = Running app" for app
    using server_main_running(2-8)[OF that] by (simp add: RunServer_def Let_def)
  then show ?thesis using broken_vss_uncaught by blast
qed

theorem server_start_witness:
  "(\<exists>app. server_main ref_lib (\<lambda>_. False) sample_fs sample_broker (0, WEBSOCKET_PLAIN) (\<lambda>_. None) sample_options = Running app
      \<and> subscriptions (w_sub (app_world app)) = [] \<and> map (\<lambda>(m, p). paths p) (publishers (w_sub (app_world app))) = [[''Vehicle.Speed'']])
    \<and> server_main ref_lib (\<lambda>_. False) sample_fs sample_broker (0, WEBSOCKET_PLAIN) (\<lambda>_. None) broken_options
      = Uncaught (StdException ''std::exception'')"
proof -
  obtain app where run: "server_main ref_lib (\<lambda>_. False) sample_fs sample_broker (0, WEBSOCKET_PLAIN) (\<lambda>_. None) sample_options = Running app"
      and valid: "filter (\<lambda>t. checkPathValid ref_lib (w_db (app_world app)) (fromVSSGen1 ref_lib t) = Inr True) (publish_tokens (opt_publish (so_mqtt sample_options))) = [''Vehicle.Speed'']"
    by (rule sample_running)
  have "server_main ref_lib (\<lambda>_. False) sample_fs sample_broker (0, WEBSOCKET_PLAIN) (\<lambda>_. None) broken_options = Uncaught (StdException ''std::exception'')"
    using server_start[of ref_lib "\<lambda>_. False" sample_fs sample_broker "(0, WEBSOCKET_PLAIN)" "\<lambda>_. None" broken_options] sample_broken by blast
  moreover have "subscriptions (w_sub (app_world app)) = []" "map (\<lambda>(m, p). paths p) (publishers (w_sub (app_world app))) = [[''Vehicle.Speed'']]"
    using server_start[of ref_lib "\<lambda>_. False" sample_fs sample_broker "(0, WEBSOCKET_PLAIN)" "\<lambda>_. None" sample_options] run valid by simp_all
  ultimately show ?thesis using run by (intro conjI exI[of _ app]) simp_all
qed

text \<open>
  C33. A gRPC set changes the state of the server only if the id the client sent belongs to a session of its peer and the channel of that session has write access to the path of one of the values. In particular the all-zero channel that authChecker inserts for an unknown id changes nothing.
\<close>

theorem grpc_changes_authorised:
  assumes "regex_doc L" "json_doc L" "grpc_set L Es ctx ty vals S = (r, S')" "g_world S' \<noteq> g_world S"
  shows "\<exists>kc. session_of L ctx S = Some kc \<and> (\<exists>val \<in> set vals. checkWriteAccess L kc (fromVSS L (v_path val)) = Inr True)"
  using assms by (rule grpc_set_guard)

theorem grpc_changes_authorised_witness:
  "\<exists>r S'. grpc_set ref_lib sample_ge sample_ctx CURRENT_VALUE [speed_value] free_grpc = (r, S') \<and> g_world S' \<noteq> g_world free_grpc
     \<and> checkWriteAccess ref_lib grpc_channel (fromVSS ref_lib ''Vehicle.Speed'') = Inr True"
proof -
  have check: "checkAndSanitizeType ref_lib free_node (oneof_json ''uint16'' (v_val speed_value)) = Inr (JInt 120)" by code_simp
  have pubs: "publishers_ok ref_lib (publishers (w_sub (g_world free_grpc)))" by (simp add: publishers_ok_def free_grpc_facts(4))
  have ty: "CURRENT_VALUE \<noteq> METADATA" by simp
  note facts = free_grpc_facts[folded free_grpc_facts(9)]
  from grpc_set_single[OF sample_docs sample_session(2) ty facts(1,2) check pubs, of sample_ge]
  obtain r S' where set: "grpc_set ref_lib sample_ge sample_ctx CURRENT_VALUE [speed_value] free_grpc = (r, S')"
      "data_tree (w_db (g_world S')) = path_replace speed_segs (stored (env_clock (ge_env (sample_ge 0))) ''value'' (JInt 120) free_node) (data_tree (w_db (g_world free_grpc)))"
    by (auto simp: attr_of_def AttributeStringMap_def)
  have "path_replace speed_segs (stored (env_clock (ge_env (sample_ge 0))) ''value'' (JInt 120) free_node) (data_tree (w_db (g_world free_grpc)))
      \<noteq> data_tree (w_db (g_world free_grpc))" by code_simp
  with set(2) have changed: "g_world S' \<noteq> g_world free_grpc" by auto
  from grpc_changes_authorised[OF regex_ref json_ref set(1) changed] set(1) changed sample_session(2) show ?thesis
    unfolding free_grpc_facts(9)[symmetric] by auto
qed

text \<open>
  C34. An integer a gRPC client sets on a signal of an integer datatype without min and max, in the field and within the range of that datatype, comes back from the next get of that session in the same field, with the path of the signal and the time of the set: the seconds and nanoseconds of the clock narrowed to the int64 and int32 of the message, which changes neither for a clock before 2^63 seconds. The session may read and write the signal, and no record is kept.
\<close>

theorem grpc_round_trip:
  assumes docs: "jsonpath_doc L" "schema_doc L" "num_doc L"
    and sess: "session_of L ctx S = Some kc" "typeOfConnection kc = GRPC" "w_rec (g_world S) = None" "ty \<noteq> METADATA"
    and sig: "settable L (w_db (g_world S)) (v_path val) (attr_of ty) ss node dt" "num_of_datatype dt = Some t" "is_int_type t"
    and int: "v_val val = int_field dt i" "num_min t \<le> i" "i \<le> num_max t" "json_lookup node ''min'' = None" "json_lookup node ''max'' = None"
    and acc: "checkWriteAccess L kc (fromVSS L (v_path val)) = Inr True" "checkReadAccess L kc (leaf_of L (v_path val)) = Inr True"
    and ok: "publishers_ok L (publishers (w_sub (g_world S)))" "clock_ok (env_clock (ge_env (Es 0)))"
  shows "\<exists>S'. grpc_set L Es ctx ty [val] S = (Inr (grpc_status_of 200 ''Set request successfully processed.''), S')
    \<and> grpc_get L Es' ctx ty [v_path val] S' =
      (Inr \<lparr>get_values = [\<lparr>v_path = to_string (leaf_of L (v_path val)), v_val = v_val val,
           v_seconds = int64_of (fst (env_clock (ge_env (Es 0)))), v_nanos = int32_of (snd (env_clock (ge_env (Es 0))))\<rparr>],
         get_status = grpc_status_of 200 ''Get request successfully processed''\<rparr>, S')
    \<and> (fst (env_clock (ge_env (Es 0))) < 2 ^ 63 \<longrightarrow> int64_of (fst (env_clock (ge_env (Es 0)))) = fst (env_clock (ge_env (Es 0))))
    \<and> (snd (env_clock (ge_env (Es 0))) < 10 ^ 9 \<longrightarrow> int32_of (snd (env_clock (ge_env (Es 0)))) = snd (env_clock (ge_env (Es 0))))"
proof -
  let ?clock = "env_clock (ge_env (Es 0))"
  have dt: "json_lookup node ''datatype'' = Some (JStr dt)" using sig(1) by (simp add: settable_def)
  have "checkAndSanitizeType L node (oneof_json dt (v_val val)) = Inr (JInt i)"
    using sanitize_num_int[OF docs(3) dt sig(2) int(4,5) sig(3), of i] int(1,2,3) int_field_json[OF sig(2,3)] by simp
  from grpc_set_single[OF docs(1,2) sess(1,4) sig(1) acc(1) this ok(1), of Es]
  obtain w' where set: "grpc_set L Es ctx ty [val] S = (Inr (grpc_status_of 200 ''Set request successfully processed.''), S\<lparr>g_world := w'\<rparr>)"
    and db: "w_db w' = (w_db (g_world S))\<lparr>data_tree := path_replace ss (stored ?clock (attr_of ty) (JInt i) node) (data_tree (w_db (g_world S)))\<rparr>"
    by blast
  let ?S = "S\<lparr>g_world := w'\<rparr>"
  have "session_of L ctx ?S = Some kc" "w_rec (g_world ?S) = None"
    using sess(1) grpc_set_norec[OF set sess(3)] by (auto simp: session_of_def split: option.splits)
  moreover have "settable L (w_db (g_world ?S)) (v_path val) (attr_of ty) ss (stored ?clock (attr_of ty) (JInt i) node) dt"
    using stored_settable[OF sig(1) attr_of_signal db] by simp
  moreover have "is_object node" using dt by (rule lookup_is_object)
  moreover have "grpc_convert L dt (JInt i) = Inr (v_val val)"
    using int_field_convert[OF docs(3) sig(2,3) int(2,3)] int(1) by simp
  ultimately have "grpc_get L Es' ctx ty [v_path val] ?S =
      (Inr \<lparr>get_values = [\<lparr>v_path = to_string (leaf_of L (v_path val)), v_val = v_val val, v_seconds = int64_of (fst ?clock), v_nanos = int32_of (snd ?clock)\<rparr>],
         get_status = grpc_status_of 200 ''Get request successfully processed''\<rparr>, ?S)"
    by (intro grpc_get_single[OF docs, where node = node]) (use sess acc ok in auto)
  moreover have "fst ?clock < 2 ^ 63 \<longrightarrow> int64_of (fst ?clock) = fst ?clock" "snd ?clock < 10 ^ 9 \<longrightarrow> int32_of (snd ?clock) = snd ?clock"
    using clock_narrowed[OF ok(2)] by simp_all
  ultimately show ?thesis using set by blast
qed

theorem grpc_round_trip_witness:
  "\<exists>S'. fst (grpc_get ref_lib sample_ge sample_ctx CURRENT_VALUE [''Vehicle.Speed''] S') =
     Inr \<lparr>get_values = [\<lparr>v_path = ''Vehicle.Speed'', v_val = VUint32 120, v_seconds = 7, v_nanos = 8\<rparr>],
       get_status = grpc_status_of 200 ''Get request successfully processed''\<rparr>"
proof -
  have clock: "clock_ok (env_clock (ge_env (sample_ge 0)))" "env_clock (ge_env (sample_ge 0)) = (7, 8)" by code_simp+
  have val: "v_val speed_value = VUint32 120" "num_min U16 \<le> 120" "(120::int) \<le> num_max U16"
    "json_lookup free_node ''min'' = None" "json_lookup free_node ''max'' = None" "publishers_ok ref_lib (publishers (w_sub (g_world free_grpc)))"
    by (simp_all add: speed_value_def num_min_def num_max_def free_node_def publishers_ok_def free_grpc_facts(4))
  note facts = free_grpc_facts[folded free_grpc_facts(9)]
  have "CURRENT_VALUE \<noteq> METADATA" "is_int_type U16" by simp_all
  from grpc_round_trip[where Es = sample_ge and Es' = sample_ge, OF jsonpath_ref schema_ref num_ref sample_session(2) facts(6) free_grpc_facts(5) this(1) facts(1) free_grpc_facts(7) this(2)
      free_grpc_facts(8) val(2-5) facts(2,3) val(6) clock(1)]
  obtain S' where "grpc_get ref_lib sample_ge sample_ctx CURRENT_VALUE [''Vehicle.Speed''] S' =
     (Inr \<lparr>get_values = [\<lparr>v_path = ''Vehicle.Speed'', v_val = VUint32 120, v_seconds = 7, v_nanos = 8\<rparr>],
       get_status = grpc_status_of 200 ''Get request successfully processed''\<rparr>, S')"
    unfolding free_grpc_facts(9,10) val(1) clock(2) by auto
  then show ?thesis by (intro exI[of _ S']) simp
qed

text \<open>
  C35. When authorize answers with a connection id, the server's key verified the token, the id is the one generated for the request, and from then on that peer with that id has a gRPC channel that is authorised and carries the token; no other session changes.
\<close>

theorem grpc_session_created:
  assumes "uuid_doc L" "grpc_authorize L E ctx tok S = (Inr r, S1)" "auth_connectionid r \<noteq> []"
  shows "\<exists>kc. (\<forall>ctx'. ctx_peer ctx' = ctx_peer ctx \<longrightarrow> ctx_connectionid ctx' = Some (auth_connectionid r) \<longrightarrow>
      session_of L ctx' S1 = Some kc)
    \<and> authorized kc \<and> authToken kc = tok \<and> typeOfConnection kc = GRPC \<and> jwt_verify L (pubkey (w_auth (g_world S))) tok = Inr ()
    \<and> auth_connectionid r = uuid_show L (ge_rid E)
    \<and> (\<forall>k. k \<noteq> (ctx_peer ctx, ge_rid E) \<longrightarrow> grpcSessionMap S1 k = grpcSessionMap S k)"
  using assms by (rule authorized_session)

theorem grpc_session_created_witness:
  "\<exists>kc S'. snd (grpc_authorize ref_lib (sample_ge 0) login_ctx sample_token sample_grpc) = S'
    \<and> session_of ref_lib (sample_ctx\<lparr>ctx_connectionid := Some (uuid_show ref_lib 100)\<rparr>) S' = Some kc \<and> authorized kc"
proof -
  obtain S' where auth: "grpc_authorize ref_lib (sample_ge 0) login_ctx sample_token sample_grpc =
      (Inr \<lparr>auth_status = grpc_status_of 200 ''Authorization Successful.'', auth_connectionid = uuid_show ref_lib 100\<rparr>, S')"
    by (rule sample_login)
  have "uuid_show ref_lib 100 \<noteq> []" by code_simp
  with grpc_session_created[OF uuid_ref auth] show ?thesis unfolding auth by (auto simp: login_ctx_def)
qed

text \<open>
  C36. When a gRPC subscription call ends normally, the database is as before, its channel leads to no stream any more, and every subscription that existed before and belongs to another channel still exists. The channel, however, stays registered under the address of the call's context: a later call whose context has that address gets this channel, with its permissions, whatever id it sends and even with none.
\<close>

theorem subscription_call_end:
  assumes "uuid_doc L" "inj_on (\<lambda>j. env_uuid (ge_env (Es j))) {..<length ms}"
    and "\<forall>k c. grpcSubscribeSessionMap S k = Some c \<longrightarrow> grpcSubsMap c \<noteq> None"
    and "getKuksaChannelForSubscriptionContext L ctx S = (Inr (Some kc), S1)" "grpc_subscribe L Es ctx ms S = (Inr (), S')"
  shows "w_db (g_world S') = w_db (g_world S) \<and> (\<forall>u. streams_of kc (g_streams S') u = None)
    \<and> (\<forall>ctx'. ctx_addr ctx' = ctx_addr ctx \<longrightarrow> getKuksaChannelForSubscriptionContext L ctx' S' = (Inr (Some kc), S'))
    \<and> (\<forall>key u c. u \<notin> (\<lambda>j. env_uuid (ge_env (Es j))) ` {..<length ms} \<longrightarrow> subscriber (w_sub (g_world S)) key u = Some c \<longrightarrow> \<not> same_channel c kc \<longrightarrow>
         subscriber (w_sub (g_world S')) key u = Some c)"
  using assms by (rule grpc_subscribe_end)

theorem subscription_call_end_witness:
  "\<exists>kc S'. grpc_subscribe ref_lib sample_ge sample_ctx sample_messages sample_grpc = (Inr (), S')
    \<and> getKuksaChannelForSubscriptionContext ref_lib (sample_ctx\<lparr>ctx_connectionid := None\<rparr>) S' = (Inr (Some kc), S')"
proof -
  obtain S' where call: "grpc_subscribe ref_lib sample_ge sample_ctx sample_messages sample_grpc = (Inr (), S')" by (rule sample_call)
  have inj: "inj_on (\<lambda>j. env_uuid (ge_env (sample_ge j))) {..<length sample_messages}"
    by (auto simp: inj_on_def sample_messages_def sample_ge_def less_Suc_eq)
  have maps: "\<forall>k c. grpcSubscribeSessionMap sample_grpc k = Some c \<longrightarrow> grpcSubsMap c \<noteq> None" by (simp add: sample_grpc_def)
  obtain kc S1 where "getKuksaChannelForSubscriptionContext ref_lib sample_ctx sample_grpc = (Inr (Some kc), S1)"
  proof -
    have "grpcSubscribeSessionMap sample_grpc (ctx_addr sample_ctx) = None" by (simp add: sample_grpc_def)
    then show ?thesis
      using that by (simp add: getKuksaChannelForSubscriptionContext_def authChecker_session[OF sample_session(1)] new_subs_map_def Let_def)
  qed
  from subscription_call_end[OF uuid_ref inj maps this call] call show ?thesis by auto
qed



text \<open>
  C38. A notification of a targetValue for a gRPC subscriber with a stream cannot be sent: the sender reads the attribute value, which the data point lacks, nothing is written, and the exception leaves the notification thread. It ends the program: no thread can go on.
\<close>

theorem target_notification_fails:
  assumes L: "num_doc L" and clock: "clock_ok clock" "snd clock < 10 ^ 9" "fst clock < 2 ^ 63" "gmtime_fits (fst clock)"
    and n: "n = (sid, c, dt, data_point path clock ''targetValue'' v)" "typeOfConnection c = GRPC" "grpcSubsMap c = Some addr"
    and str: "map_of (subs_maps gw addr) sid = Some stream"
  shows "(buffer sh = n # ns \<longrightarrow> subThread_round L sh srv gw = (Inl (KeyNotFound ''value''), pop_note sh, srv, gw))
    \<and> (notifier s = NSend n \<longrightarrow> grpc_side s = gw \<longrightarrow>
        (\<exists>s'. thread_step L Notifier s = Some s' \<and> notifier s' = NAborted \<and> grpc_side s' = gw \<and> (\<forall>t. thread_step L t s' = None)))"
proof -
  have "signal_attr ''targetValue''" by (simp add: signal_attr_def)
  from notification_of_point[OF L clock(1) this clock(2-4)] obtain a
    where a: "notification_answer L sid (data_point path clock ''targetValue'' v) = Inr a" by blast
  have send: "send_note L n srv' gw = (Inl (KeyNotFound ''value''), srv', gw)" for srv' :: "'b WsServer"
    by (rule target_note_fails[OF n str a])
  then show ?thesis
    using target_note_fails[OF n str a, of "ws_server s"]
    by (auto simp: subThread_round_def deliver_def thread_step_def note_send_def)
qed

theorem target_notification_fails_witness:
  "\<exists>n. fst (subThread_round ref_lib (new_SubscriptionHandler\<lparr>buffer := [n]\<rparr>) empty_server (sample_streams\<lparr>subs_maps := \<lambda>_. [(5, 1)]\<rparr>)) = Inl (KeyNotFound ''value'')"
proof -
  let ?n = "(5, grpc_channel, ''uint16'', data_point sample_path (7, 8) ''targetValue'' (JInt 80)) :: notification"
  have "clock_ok (7, 8)" "gmtime_fits (fst (7, 8))" "typeOfConnection grpc_channel = GRPC" "grpcSubsMap grpc_channel = Some 0" by code_simp+
  from target_notification_fails[OF num_ref this(1) _ _ this(2) refl this(3,4), where gw = "sample_streams\<lparr>subs_maps := \<lambda>_. [(5, 1)]\<rparr>" and stream = 1
      and sh = "new_SubscriptionHandler\<lparr>buffer := [?n]\<rparr>" and ns = "[]" and srv = empty_server and s = started]
  show ?thesis by (intro exI[of _ ?n]) simp
qed

text \<open>
  C39. For a path of plain names that the metadata tree has, the answer to getMetaData is the chain of the nodes on the way, each with nothing but the next one as its children, as long as there are at most sixteen of them; for a longer path the function writes outside its two local arrays.
\<close>

theorem metadata_answer:
  assumes "jsonpath_doc L" "dotpath_doc L" "getJSONPath path = render_path (map Name (spine ns))"
    and "list_all ident ns" "''children'' \<notin> set ns" "ns \<noteq> []" "has_spine (meta_tree db) ns"
  shows "getMetaData L path db = (if length ns \<le> parent_slots then Inr (metadata_view L (meta_tree db) ns) else Inl Undefined)"
  using assms by (rule getMetaData_names)

theorem metadata_answer_witness:
  "getMetaData ref_lib (fromVSS ref_lib ''Vehicle.VIN'') sample_db =
    Inr (json_set json_new ''Vehicle'' (JObj [(''children'', json_set json_new ''VIN'' vin_node), (''type'', JStr ''branch'')]))"
proof -
  let ?ns = "[''Vehicle'', ''VIN'']"
  have facts: "getJSONPath (fromVSS ref_lib ''Vehicle.VIN'') = render_path (map Name (spine ?ns))"
    "list_all ident ?ns" "''children'' \<notin> set ?ns" "?ns \<noteq> []" "has_spine (meta_tree sample_db) ?ns" by code_simp+
  have "length ?ns \<le> parent_slots" "metadata_view ref_lib (meta_tree sample_db) ?ns =
    json_set json_new ''Vehicle'' (JObj [(''children'', json_set json_new ''VIN'' vin_node), (''type'', JStr ''branch'')])" by code_simp+
  with metadata_answer[OF jsonpath_ref dotpath_ref facts] show ?thesis by (simp only: if_True)
qed

text \<open>
  C40. After the signal file is loaded, the metadata tree is the file, and in the data tree every attribute with a default that no such attribute encloses has the text of its default as its value, wherever it is below Vehicle; a leaf that is no such attribute is as in the file.
\<close>

theorem defaults_filled:
  assumes init: "initJsonTree L content db0 = (Inr (), db)"
    and loaded: "json_lookup (meta_tree db) ''Vehicle'' = Some v" "undefaulted v ks" "descend v ks = Some c"
  shows "j_parse L content = Inr (meta_tree db) \<and> (\<exists>v'. json_lookup (data_tree db) ''Vehicle'' = Some v'
    \<and> (\<forall>d. has_default c \<longrightarrow> json_lookup c ''default'' = Some d \<longrightarrow> descend v' ks = Some (json_set c ''value'' (JStr (as_string L d))))
    \<and> (\<not> has_default c \<longrightarrow> json_lookup c ''children'' = None \<longrightarrow> descend v' ks = Some c))"
proof -
  from init obtain t v0 where t: "j_parse L content = Inr t" and v0: "bindE (json_at t ''Vehicle'') (applyDefaultValues L) = Inr v0"
      and db: "db = db0\<lparr>data_tree := json_set t ''Vehicle'' v0, meta_tree := t\<rparr>"
    by (auto simp: initJsonTree_def Let_def split: sum.splits)
  from db have tree: "meta_tree db = t" "data_tree db = json_set t ''Vehicle'' v0" by simp_all
  with v0 loaded(1) have v': "applyDefaultValues L v = Inr v0" by (simp add: json_at_lookup)
  have "json_lookup (data_tree db) ''Vehicle'' = Some v0"
    using tree lookup_is_object[OF loaded(1)] by (simp add: json_lookup_set)
  moreover have "descend v0 ks = Some (json_set c ''value'' (JStr (as_string L d)))" if "has_default c" "json_lookup c ''default'' = Some d" for d
    by (rule default_applied[OF v' loaded(2,3) that])
  moreover have "descend v0 ks = Some c" if leaf: "\<not> has_default c" "json_lookup c ''children'' = None"
  proof -
    from defaults_descend[OF v' loaded(2)] loaded(3) obtain c' where "descend v0 ks = Some c'" "applyDefaultValues L c = Inr c'" by auto
    with apply_no_default[OF this(2) leaf(1)] leaf(2) show ?thesis by auto
  qed
  ultimately show ?thesis using t tree(1) by (intro conjI exI[of _ v0]) simp_all
qed

theorem defaults_filled_witness:
  "\<exists>db v'. initJsonTree ref_lib (ref_dump sample_tree) sample_db = (Inr (), db) \<and> json_lookup (data_tree db) ''Vehicle'' = Some v'
     \<and> descend v' [''VIN''] = Some (json_set vin_node ''value'' (JStr ''WBA''))"
proof -
  obtain db where init: "initJsonTree ref_lib (ref_dump sample_tree) sample_db = (Inr (), db)" "meta_tree db = sample_tree"
  proof -
    have "fst (initJsonTree ref_lib (ref_dump sample_tree) sample_db) = Inr ()"
      "meta_tree (snd (initJsonTree ref_lib (ref_dump sample_tree) sample_db)) = sample_tree" by code_simp+
    then show ?thesis using that by (cases "initJsonTree ref_lib (ref_dump sample_tree) sample_db") auto
  qed
  define v where "v = the_json (json_lookup sample_tree ''Vehicle'')"
  have "json_lookup sample_tree ''Vehicle'' = Some v" "undefaulted v [''VIN'']" "descend v [''VIN''] = Some vin_node" "has_default vin_node"
      "json_lookup vin_node ''default'' = Some (JStr ''WBA'')" "as_string ref_lib (JStr ''WBA'') = ''WBA''"
    unfolding v_def by code_simp+
  with defaults_filled[OF init(1), of v "[''VIN'']" vin_node] init show ?thesis by auto
qed

end
